(* ===== verification/Go_Prelude.thy ===== *)
theory Go_Prelude
  imports Main "HOL-Library.Word" "HOL-Library.AList"
begin

text \<open>
  The part of Go that the modelled packages use, and the generic lemmas on strings, options,
  association lists and sums that every component theory shares.

  \<^item> A Go \<^verbatim>\<open>string\<close> is its sequence of bytes, a \<^typ>\<open>string\<close> (one \<^typ>\<open>char\<close> per byte), so
    \<^verbatim>\<open>len\<close> and slicing count bytes as in Go. Strings are valid UTF-8 (they come out of
    \<^verbatim>\<open>encoding/json\<close>). \<open>to_lower\<close>, \<open>equal_fold\<close> and \<open>trim_space\<close> are \<^verbatim>\<open>strings.ToLower\<close>,
    \<^verbatim>\<open>strings.EqualFold\<close> and \<^verbatim>\<open>strings.TrimSpace\<close>: on ASCII exactly, including the code points
    outside ASCII that Go maps into ASCII (KELVIN SIGN, LATIN CAPITAL LETTER I WITH DOT ABOVE,
    LATIN SMALL LETTER LONG S) and every white-space code point. A letter outside ASCII whose case
    partner is outside ASCII too is left alone: no literal of the code contains one.
  \<^item> A \<^verbatim>\<open>[]byte\<close> is a list of 8-bit words.
  \<^item> A decoded JSON value (\<^verbatim>\<open>any\<close>) is a \<open>json\<close>; a \<^verbatim>\<open>map[string]any\<close> is an association list in the
    order in which \<^verbatim>\<open>range\<close> visits it.
  \<^item> A Go map is an association list updated by \<^const>\<open>AList.update\<close>; a set \<^verbatim>\<open>map[string]bool\<close> is a list
    of the members.
  \<^item> \<^verbatim>\<open>(T, error)\<close> is \<open>'a res\<close>: \<^const>\<open>Inl\<close> carries the error's text.
  \<^item> \<^verbatim>\<open>time.Time\<close> is an \<^typ>\<open>int\<close>, nanoseconds since the zero \<^verbatim>\<open>Time\<close>; the zero value is 0.
\<close>

named_theorems str_simps \<open>evaluation and normal forms of Go strings\<close>
named_theorems model_defs \<open>definitions a component proof unfolds\<close>

type_synonym bytes = "8 word list"
type_synonym 'a res = "string + 'a"
type_synonym time = int

section \<open>Strings\<close>

definition is_upper_char :: "char \<Rightarrow> bool" where
  "is_upper_char c = (65 \<le> (of_char c :: nat) \<and> (of_char c :: nat) \<le> 90)"

fun char_lower :: "char \<Rightarrow> char" where
  "char_lower (Char b0 b1 b2 b3 b4 b5 b6 b7) =
     Char b0 b1 b2 b3 b4 (b5 \<or> is_upper_char (Char b0 b1 b2 b3 b4 b5 b6 b7)) b6 b7"

definition is_ascii_char :: "char \<Rightarrow> bool" where
  "is_ascii_char c = ((of_char c :: nat) < 128)"

text \<open>The UTF-8 encodings of the runes that Go's case mappings take into ASCII.\<close>

definition kelvin_sign :: string where
  "kelvin_sign = [CHR 0xE2, CHR 0x84, CHR 0xAA]"

definition dotted_capital_i :: string where
  "dotted_capital_i = [CHR 0xC4, CHR 0xB0]"

definition long_s :: string where
  "long_s = [CHR 0xC5, CHR 0xBF]"

definition has_prefix :: "string \<Rightarrow> string \<Rightarrow> bool" where
  "has_prefix s p = (take (length p) s = p)"

definition has_suffix :: "string \<Rightarrow> string \<Rightarrow> bool" where
  "has_suffix s p = (length p \<le> length s \<and> drop (length s - length p) s = p)"

definition trim_prefix :: "string \<Rightarrow> string \<Rightarrow> string" where
  "trim_prefix s p = (if has_prefix s p then drop (length p) s else s)"

definition rune_match :: "(string \<times> char) list \<Rightarrow> string \<Rightarrow> (string \<times> char) option" where
  "rune_match tbl s = find (\<lambda>e. has_prefix s (fst e)) tbl"

function fold_runes :: "(string \<times> char) list \<Rightarrow> string \<Rightarrow> string" where
  "fold_runes tbl [] = []"
| "fold_runes tbl (c # cs) =
     (if is_ascii_char c then char_lower c # fold_runes tbl cs
      else case rune_match tbl (c # cs) of
             Some e \<Rightarrow> snd e # fold_runes tbl (drop (length (fst e) - 1) cs)
           | None \<Rightarrow> c # fold_runes tbl cs)"
  by pat_completeness auto
termination
  by (relation "measure (\<lambda>(tbl, s). length s)") auto

definition lower_table :: "(string \<times> char) list" where
  "lower_table = [(kelvin_sign, CHR ''k''), (dotted_capital_i, CHR ''i'')]"

definition fold_table :: "(string \<times> char) list" where
  "fold_table = [(kelvin_sign, CHR ''k''), (long_s, CHR ''s'')]"

definition to_lower :: "string \<Rightarrow> string" where
  "to_lower s = fold_runes lower_table s"

definition equal_fold :: "string \<Rightarrow> string \<Rightarrow> bool" where
  "equal_fold a b = (fold_runes fold_table a = fold_runes fold_table b)"

text \<open>
  White space: the ASCII white-space bytes and the UTF-8 encodings of U+0085, U+00A0, U+1680,
  U+2000 to U+200A, U+2028, U+2029, U+202F, U+205F and U+3000.
\<close>

definition space_runes :: "string list" where
  "space_runes =
     [[CHR 0x09], [CHR 0x0A], [CHR 0x0B], [CHR 0x0C], [CHR 0x0D], [CHR 0x20],
      [CHR 0xC2, CHR 0x85], [CHR 0xC2, CHR 0xA0], [CHR 0xE1, CHR 0x9A, CHR 0x80],
      [CHR 0xE2, CHR 0x80, CHR 0x80], [CHR 0xE2, CHR 0x80, CHR 0x81], [CHR 0xE2, CHR 0x80, CHR 0x82],
      [CHR 0xE2, CHR 0x80, CHR 0x83], [CHR 0xE2, CHR 0x80, CHR 0x84], [CHR 0xE2, CHR 0x80, CHR 0x85],
      [CHR 0xE2, CHR 0x80, CHR 0x86], [CHR 0xE2, CHR 0x80, CHR 0x87], [CHR 0xE2, CHR 0x80, CHR 0x88],
      [CHR 0xE2, CHR 0x80, CHR 0x89], [CHR 0xE2, CHR 0x80, CHR 0x8A], [CHR 0xE2, CHR 0x80, CHR 0xA8],
      [CHR 0xE2, CHR 0x80, CHR 0xA9], [CHR 0xE2, CHR 0x80, CHR 0xAF], [CHR 0xE2, CHR 0x81, CHR 0x9F],
      [CHR 0xE3, CHR 0x80, CHR 0x80]]"

function trim_runes :: "string list \<Rightarrow> string \<Rightarrow> string" where
  "trim_runes ps s =
     (case find (\<lambda>p. p \<noteq> [] \<and> has_prefix s p) ps of
        None \<Rightarrow> s
      | Some p \<Rightarrow> trim_runes ps (drop (length p) s))"
  by pat_completeness auto
termination
proof (relation "measure (\<lambda>(ps, s). length s)", goal_cases)
  case 1
  show ?case by simp
next
  case (2 ps s p)
  then have "p \<noteq> []" "has_prefix s p" by (auto simp: find_Some_iff)
  then have "length p \<le> length s" "0 < length p"
    by (auto simp: has_prefix_def dest: arg_cong [of _ _ length])
  then have "length s - length p < length s" by linarith
  then show ?case by simp
qed

declare trim_runes.simps [simp del]

definition trim_space :: "string \<Rightarrow> string" where
  "trim_space s = rev (trim_runes (map rev space_runes) (rev (trim_runes space_runes s)))"

definition norm_addr :: "string \<Rightarrow> string" where
  "norm_addr s = to_lower (trim_space s)"

text \<open>\<^verbatim>\<open>strings.Trim(s, "0")\<close> and \<^verbatim>\<open>strings.TrimLeft(s, "0")\<close>.\<close>

definition trim_left_zeros :: "string \<Rightarrow> string" where
  "trim_left_zeros s = dropWhile (\<lambda>c. c = CHR ''0'') s"

definition trim_zeros :: "string \<Rightarrow> string" where
  "trim_zeros s = rev (dropWhile (\<lambda>c. c = CHR ''0'') (rev (trim_left_zeros s)))"

text \<open>
  \<^verbatim>\<open>%q\<close> of \<^verbatim>\<open>fmt\<close>, for strings without characters that need an escape.
\<close>

definition fmt_q :: "string \<Rightarrow> string" where
  "fmt_q s = ''\"'' @ s @ ''\"''"

section \<open>Hexadecimal\<close>

definition hex_val :: "char \<Rightarrow> nat option" where
  "hex_val c =
     (let n = (of_char c :: nat) in
      if 48 \<le> n \<and> n \<le> 57 then Some (n - 48)
      else if 97 \<le> n \<and> n \<le> 102 then Some (n - 87)
      else if 65 \<le> n \<and> n \<le> 70 then Some (n - 55)
      else None)"

definition hex_digits :: string where
  "hex_digits = ''0123456789abcdef''"

definition hex_digit :: "nat \<Rightarrow> char" where
  "hex_digit n = hex_digits ! (n mod 16)"

fun encode_hex :: "bytes \<Rightarrow> string" where
  "encode_hex [] = []"
| "encode_hex (b # bs) = hex_digit (unat b div 16) # hex_digit (unat b mod 16) # encode_hex bs"

fun decode_hex :: "string \<Rightarrow> bytes option" where
  "decode_hex [] = Some []"
| "decode_hex [c] = None"
| "decode_hex (c # d # cs) =
     (case (hex_val c, hex_val d, decode_hex cs) of
        (Some h, Some l, Some bs) \<Rightarrow> Some (word_of_nat (16 * h + l) # bs)
      | _ \<Rightarrow> None)"

section \<open>Decimal integers\<close>

text \<open>
  \<^verbatim>\<open>strconv.Itoa\<close> and \<^verbatim>\<open>strconv.ParseInt(s, 10, 64)\<close> (the grammar of a JSON integer: an
  optional minus sign and digits).
\<close>

definition digit_char :: "nat \<Rightarrow> char" where
  "digit_char n = char_of (48 + n mod 10)"

definition digit_val :: "char \<Rightarrow> nat option" where
  "digit_val c = (let n = (of_char c :: nat) in if 48 \<le> n \<and> n \<le> 57 then Some (n - 48) else None)"

fun nat_digits :: "nat \<Rightarrow> string" where
  "nat_digits n = (if n < 10 then [digit_char n] else nat_digits (n div 10) @ [digit_char (n mod 10)])"

declare nat_digits.simps [simp del]

fun digits_val :: "nat \<Rightarrow> string \<Rightarrow> nat option" where
  "digits_val acc [] = Some acc"
| "digits_val acc (c # cs) =
     (case digit_val c of None \<Rightarrow> None | Some d \<Rightarrow> digits_val (10 * acc + d) cs)"

definition itoa :: "int \<Rightarrow> string" where
  "itoa i = (if i < 0 then CHR ''-'' # nat_digits (nat (- i)) else nat_digits (nat i))"

definition int64_ok :: "int \<Rightarrow> bool" where
  "int64_ok i = (- (2 ^ 63) \<le> i \<and> i < 2 ^ 63)"

definition parse_nat :: "string \<Rightarrow> nat option" where
  "parse_nat s = (if s = [] then None else digits_val 0 s)"

definition parse_int :: "string \<Rightarrow> int option" where
  "parse_int s =
     (let v = (case s of
                 [] \<Rightarrow> None
               | c # cs \<Rightarrow> if c = CHR ''-'' then map_option (\<lambda>n. - int n) (parse_nat cs)
                           else map_option int (parse_nat s))
      in case v of None \<Rightarrow> None | Some i \<Rightarrow> if int64_ok i then Some i else None)"

section \<open>Decoded JSON\<close>

datatype json =
    JNull
  | JBool bool
  | JNum string
  | JStr string
  | JArr "json list"
  | JObj "(string \<times> json) list"

fun as_str :: "json \<Rightarrow> string option" where
  "as_str (JStr s) = Some s"
| "as_str _ = None"

fun as_obj :: "json \<Rightarrow> (string \<times> json) list option" where
  "as_obj (JObj fs) = Some fs"
| "as_obj _ = None"

text \<open>\<^verbatim>\<open>s, ok := obj[key].(string)\<close>\<close>

definition str_field :: "(string \<times> json) list \<Rightarrow> string \<Rightarrow> string option" where
  "str_field obj key = (case map_of obj key of None \<Rightarrow> None | Some v \<Rightarrow> as_str v)"

definition param_obj :: "json list \<Rightarrow> (string \<times> json) list option" where
  "param_obj params = (case params of [] \<Rightarrow> None | p # _ \<Rightarrow> as_obj p)"

section \<open>Lemmas\<close>

subsection \<open>Characters and case mapping\<close>

definition is_lower_char :: "char \<Rightarrow> bool" where
  "is_lower_char c = (97 \<le> (of_char c :: nat) \<and> (of_char c :: nat) \<le> 122)"

definition case_table :: "(string \<times> char) list \<Rightarrow> bool" where
  "case_table tbl = list_all (\<lambda>e. fst e \<noteq> [] \<and> is_lower_char (snd e)) tbl"

text \<open>The character classes on the bits of a byte, which is how the literals are evaluated.\<close>

lemma is_ascii_char_code [code]: "is_ascii_char (Char b0 b1 b2 b3 b4 b5 b6 b7) = (\<not> b7)"
  by (cases b0; cases b1; cases b2; cases b3; cases b4; cases b5; cases b6; cases b7)
    (simp_all add: is_ascii_char_def)

lemma is_upper_char_code [code]:
  "is_upper_char (Char b0 b1 b2 b3 b4 b5 b6 b7) =
     (\<not> b7 \<and> b6 \<and> \<not> b5 \<and> (b4 \<or> b3 \<or> b2 \<or> b1 \<or> b0) \<and> \<not> (b4 \<and> b3 \<and> (b2 \<or> b1 \<and> b0)))"
  by (cases b0; cases b1; cases b2; cases b3; cases b4; cases b5; cases b6; cases b7)
    (simp_all add: is_upper_char_def)

lemma char_lower_nonupper: "\<not> is_upper_char c \<Longrightarrow> char_lower c = c"
  by (cases c) simp

lemma char_lower_upper: "is_upper_char c \<Longrightarrow> is_lower_char (char_lower c)"
  by (cases c) (auto simp: is_upper_char_def is_lower_char_def of_bool_def split: if_splits)

lemma lower_not_upper: "is_lower_char c \<Longrightarrow> \<not> is_upper_char c"
  by (simp add: is_lower_char_def is_upper_char_def)

lemma lower_is_ascii: "is_lower_char c \<Longrightarrow> is_ascii_char c"
  by (simp add: is_lower_char_def is_ascii_char_def)

lemma char_lower_idem [simp]: "char_lower (char_lower c) = char_lower c"
  by (cases "is_upper_char c")
    (auto simp: char_lower_nonupper intro: char_lower_nonupper dest: char_lower_upper lower_not_upper)

lemma is_ascii_char_lower [simp]: "is_ascii_char (char_lower c) = is_ascii_char c"
proof (cases "is_upper_char c")
  case True
  then have "is_ascii_char c" by (simp add: is_upper_char_def is_ascii_char_def)
  with True show ?thesis using char_lower_upper lower_is_ascii by blast
qed (simp add: char_lower_nonupper)

lemma char_lower_stable: "char_lower x = d \<Longrightarrow> \<not> is_lower_char d \<Longrightarrow> x = d"
  using char_lower_upper char_lower_nonupper by metis

lemma case_table_lower [simp]: "case_table lower_table"
  by (simp add: case_table_def lower_table_def kelvin_sign_def dotted_capital_i_def is_lower_char_def)

lemma case_table_fold [simp]: "case_table fold_table"
  by (simp add: case_table_def fold_table_def kelvin_sign_def long_s_def is_lower_char_def)

lemma rune_match_Some:
  "rune_match tbl s = Some e \<Longrightarrow> e \<in> set tbl \<and> has_prefix s (fst e)"
  unfolding rune_match_def by (auto simp: find_Some_iff)

lemma rune_match_case_table:
  "case_table tbl \<Longrightarrow> rune_match tbl s = Some e \<Longrightarrow> fst e \<noteq> [] \<and> is_lower_char (snd e)"
  using rune_match_Some [of tbl s e] by (auto simp: case_table_def list_all_iff)

text \<open>
  A byte that is no lower-case ASCII letter occurs in the result of a case mapping only where it
  occurs in the argument.
\<close>

lemma fold_runes_stable_hd:
  assumes "case_table tbl" "fold_runes tbl s = d # r" "\<not> is_lower_char d"
  shows "\<exists>s'. s = d # s' \<and> r = fold_runes tbl s'"
proof (cases s)
  case Nil
  with assms(2) show ?thesis by simp
next
  case (Cons c cs)
  show ?thesis
  proof (cases "is_ascii_char c")
    case True
    with Cons assms(2) have "char_lower c = d" "r = fold_runes tbl cs" by simp_all
    with Cons assms(3) show ?thesis using char_lower_stable by blast
  next
    case False
    with Cons assms show ?thesis
      by (auto split: option.splits dest!: rune_match_case_table [OF assms(1)])
  qed
qed

lemma fold_runes_stable_prefix:
  assumes "case_table tbl" "list_all (\<lambda>d. \<not> is_lower_char d) p"
  shows "has_prefix (fold_runes tbl s) p \<Longrightarrow> has_prefix s p"
  using assms(2)
proof (induction p arbitrary: s)
  case Nil
  show ?case by (simp add: has_prefix_def)
next
  case (Cons d p)
  then obtain r where r: "fold_runes tbl s = d # r" "has_prefix r p"
    by (cases "fold_runes tbl s") (auto simp: has_prefix_def)
  moreover have "\<not> is_lower_char d" using Cons.prems by simp
  ultimately obtain s' where "s = d # s'" "r = fold_runes tbl s'"
    using fold_runes_stable_hd [OF assms(1)] by blast
  with r Cons show ?case by (simp add: has_prefix_def)
qed

lemma fold_runes_stable_eq:
  assumes "case_table tbl" "list_all (\<lambda>d. \<not> is_lower_char d) p" "fold_runes tbl s = p"
  shows "s = p"
  using assms(2,3)
proof (induction p arbitrary: s)
  case Nil
  then show ?case by (cases s) (auto split: option.splits if_splits)
next
  case (Cons d p)
  then obtain s' where "s = d # s'" "p = fold_runes tbl s'"
    using fold_runes_stable_hd [OF assms(1), of s d p] by auto
  with Cons show ?case by auto
qed

lemma fold_runes_tl:
  "fold_runes tbl s = x # r \<Longrightarrow> \<exists>n. 0 < n \<and> n \<le> length s \<and> r = fold_runes tbl (drop n s)"
proof (cases s)
  case (Cons c cs)
  assume eq: "fold_runes tbl s = x # r"
  have n: "0 < Suc k \<and> Suc (min k (length cs)) \<le> length s" for k using Cons by simp
  show ?thesis
  proof (cases "is_ascii_char c \<or> rune_match tbl s = None")
    case True
    with eq Cons have "r = fold_runes tbl (drop 1 s)" by (auto split: if_splits option.splits)
    with Cons show ?thesis by (intro exI [of _ 1]) simp
  next
    case False
    then obtain e where "rune_match tbl s = Some e" by blast
    with eq Cons False have "r = fold_runes tbl (drop (length (fst e) - 1) cs)" by simp
    then have "r = fold_runes tbl (drop (min (length (fst e) - 1) (length cs)) cs)" by (simp add: min_def)
    with Cons show ?thesis
      by (intro exI [of _ "Suc (min (length (fst e) - 1) (length cs))"]) simp
  qed
qed simp

lemma fold_runes_stable_suffix:
  assumes "case_table tbl" "list_all (\<lambda>d. \<not> is_lower_char d) p"
  shows "fold_runes tbl s = xs @ p \<Longrightarrow> \<exists>ys. s = ys @ p"
proof (induction xs arbitrary: s)
  case Nil
  then have "s = p" using fold_runes_stable_eq [OF assms] by simp
  then show ?case by simp
next
  case (Cons x xs)
  then obtain n where "xs @ p = fold_runes tbl (drop n s)" using fold_runes_tl [of tbl s x "xs @ p"] by auto
  with Cons.IH obtain ys where "drop n s = ys @ p" by metis
  then have "s = (take n s @ ys) @ p" by (metis append_assoc append_take_drop_id)
  then show ?case by blast
qed

lemma fold_runes_idem:
  assumes "case_table tbl"
    and nonlower: "\<And>e. e \<in> set tbl \<Longrightarrow> list_all (\<lambda>d. \<not> is_ascii_char d) (fst e)"
  shows "fold_runes tbl (fold_runes tbl s) = fold_runes tbl s"
proof (induction "length s" arbitrary: s rule: less_induct)
  case less
  show ?case
  proof (cases s)
    case (Cons c cs)
    show ?thesis
    proof (cases "is_ascii_char c")
      case True
      with Cons less show ?thesis by simp
    next
      case nonascii: False
      show ?thesis
      proof (cases "rune_match tbl (c # cs)")
        case (Some e)
        have "is_lower_char (snd e)" using rune_match_case_table [OF assms(1) Some] by simp
        with Some nonascii Cons less show ?thesis
          using lower_is_ascii lower_not_upper char_lower_nonupper by simp
      next
        case None
        have "rune_match tbl (c # fold_runes tbl cs) = None"
        proof (rule ccontr)
          assume "rune_match tbl (c # fold_runes tbl cs) \<noteq> None"
          then obtain e where e: "rune_match tbl (c # fold_runes tbl cs) = Some e" by blast
          then have m: "e \<in> set tbl" "has_prefix (c # fold_runes tbl cs) (fst e)"
            using rune_match_Some by blast+
          from m(1) have "list_all (\<lambda>d. \<not> is_lower_char d) (fst e)"
            using nonlower lower_is_ascii by (metis (mono_tags, lifting) list_all_iff)
          moreover have "fold_runes tbl (c # cs) = c # fold_runes tbl cs" using None nonascii by simp
          ultimately have "has_prefix (c # cs) (fst e)"
            using fold_runes_stable_prefix [OF assms(1), of "fst e" "c # cs"] m(2) by simp
          with m(1) None show False unfolding rune_match_def find_None_iff by blast
        qed
        with None nonascii Cons less show ?thesis by simp
      qed
    qed
  qed simp
qed

lemma to_lower_idem [simp]: "to_lower (to_lower s) = to_lower s"
  unfolding to_lower_def
proof (rule fold_runes_idem)
  show "list_all (\<lambda>d. \<not> is_ascii_char d) (fst e)" if "e \<in> set lower_table" for e
    using that by (auto simp: lower_table_def kelvin_sign_def dotted_capital_i_def is_ascii_char_def)
qed simp

lemma fold_runes_ascii: "list_all is_ascii_char s \<Longrightarrow> fold_runes tbl s = map char_lower s"
  by (induction s) simp_all

lemma to_lower_ascii: "list_all is_ascii_char s \<Longrightarrow> to_lower s = map char_lower s"
  by (simp add: to_lower_def fold_runes_ascii)

lemma equal_fold_ascii:
  "list_all is_ascii_char s \<Longrightarrow> list_all is_ascii_char t \<Longrightarrow> equal_fold s t = (to_lower s = to_lower t)"
  by (simp add: equal_fold_def to_lower_ascii fold_runes_ascii)

lemma equal_fold_refl [simp]: "equal_fold s s"
  by (simp add: equal_fold_def)

lemma equal_fold_sym: "equal_fold s t = equal_fold t s"
  by (auto simp: equal_fold_def)

lemma equal_fold_trans: "equal_fold s t \<Longrightarrow> equal_fold t u \<Longrightarrow> equal_fold s u"
  by (simp add: equal_fold_def)

lemma to_lower_Nil [simp]: "to_lower [] = []"
  by (simp add: to_lower_def)

subsection \<open>White space\<close>

lemma trim_runes_drop: "\<exists>n. trim_runes ps s = drop n s"
proof (induction ps s rule: trim_runes.induct)
  case (1 ps s)
  show ?case
  proof (cases "find (\<lambda>p. p \<noteq> [] \<and> has_prefix s p) ps")
    case None
    then show ?thesis by (subst trim_runes.simps) (auto intro: exI [of _ 0])
  next
    case (Some p)
    then have "trim_runes ps s = trim_runes ps (drop (length p) s)" by (subst trim_runes.simps) simp
    with 1 [OF Some] show ?thesis by (metis drop_drop)
  qed
qed

lemma trim_runes_clean: "p \<in> set ps \<Longrightarrow> p \<noteq> [] \<Longrightarrow> \<not> has_prefix (trim_runes ps s) p"
proof (induction ps s rule: trim_runes.induct)
  case (1 ps s)
  show ?case
  proof (cases "find (\<lambda>p. p \<noteq> [] \<and> has_prefix s p) ps")
    case None
    then have "trim_runes ps s = s" by (subst trim_runes.simps) simp
    with None 1(2,3) show ?thesis by (auto simp: find_None_iff)
  next
    case (Some q)
    then have "trim_runes ps s = trim_runes ps (drop (length q) s)" by (subst trim_runes.simps) simp
    with 1(1) [OF Some 1(2,3)] show ?thesis by simp
  qed
qed

lemma trim_runes_id:
  "(\<And>p. p \<in> set ps \<Longrightarrow> p \<noteq> [] \<Longrightarrow> \<not> has_prefix s p) \<Longrightarrow> trim_runes ps s = s"
  by (subst trim_runes.simps) (auto split: option.splits simp: find_Some_iff)

lemma has_prefix_rev: "has_prefix (rev s) (rev p) = has_suffix s p"
proof -
  have "take (length p) (rev s) = rev (drop (length s - length p) s)" by (simp add: take_rev)
  then show ?thesis
    by (auto simp: has_prefix_def has_suffix_def dest: arg_cong [of _ _ length])
qed

lemma has_suffix_append: "has_suffix s p = (\<exists>xs. s = xs @ p)"
  by (auto simp: has_suffix_def) (metis append_take_drop_id)

lemma has_prefix_append: "has_prefix s p = (\<exists>xs. s = p @ xs)"
  by (auto simp: has_prefix_def) (metis append_take_drop_id)

definition space_clean :: "string \<Rightarrow> bool" where
  "space_clean s = (\<forall>p \<in> set space_runes. \<not> has_prefix s p \<and> \<not> has_suffix s p)"

lemma space_runes_nonempty: "p \<in> set space_runes \<Longrightarrow> p \<noteq> []"
  by (auto simp: space_runes_def)

lemma space_runes_stable: "p \<in> set space_runes \<Longrightarrow> list_all (\<lambda>d. \<not> is_lower_char d) p"
  by (auto simp: space_runes_def is_lower_char_def)

lemma trim_space_clean: "space_clean (trim_space s)"
proof -
  let ?l = "trim_runes space_runes s"
  obtain n where n: "trim_runes (map rev space_runes) (rev ?l) = drop n (rev ?l)"
    using trim_runes_drop by blast
  then have pre: "trim_space s = take (length ?l - n) ?l" by (simp add: trim_space_def rev_drop)
  have "\<not> has_prefix (trim_space s) p" if "p \<in> set space_runes" for p
  proof
    assume "has_prefix (trim_space s) p"
    then have "has_prefix ?l p" using pre by (metis append_assoc append_take_drop_id has_prefix_append)
    then show False using that trim_runes_clean space_runes_nonempty by blast
  qed
  moreover have "\<not> has_suffix (trim_space s) p" if "p \<in> set space_runes" for p
  proof -
    have "\<not> has_prefix (trim_runes (map rev space_runes) (rev ?l)) (rev p)"
      using that space_runes_nonempty by (intro trim_runes_clean) auto
    then show ?thesis
      using has_prefix_rev [of "trim_space s" p] by (simp add: trim_space_def)
  qed
  ultimately show ?thesis by (simp add: space_clean_def)
qed

lemma trim_space_id: "space_clean s \<Longrightarrow> trim_space s = s"
proof -
  assume c: "space_clean s"
  then have 1: "trim_runes space_runes s = s" by (intro trim_runes_id) (simp add: space_clean_def)
  have "trim_runes (map rev space_runes) (rev s) = rev s"
    using c by (intro trim_runes_id) (auto simp: space_clean_def has_prefix_rev)
  with 1 show ?thesis by (simp add: trim_space_def)
qed

lemma to_lower_clean: "space_clean s \<Longrightarrow> space_clean (to_lower s)"
  unfolding space_clean_def to_lower_def has_suffix_append
  using fold_runes_stable_prefix [OF case_table_lower space_runes_stable]
    fold_runes_stable_suffix [OF case_table_lower space_runes_stable] by blast

lemma norm_addr_idem [simp]: "norm_addr (norm_addr s) = norm_addr s"
  by (simp add: norm_addr_def trim_space_id to_lower_clean trim_space_clean)

lemma to_lower_norm_addr [simp]: "to_lower (norm_addr s) = norm_addr s"
  by (simp add: norm_addr_def)

subsection \<open>Hexadecimal\<close>

lemma hex_val_digit: "n < 16 \<Longrightarrow> hex_val (hex_digit n) = Some n"
proof -
  have "\<forall>n < 16. hex_val (hex_digits ! n) = Some n"
    by (simp add: hex_val_def hex_digits_def numeral_nat All_less_Suc)
  then show "n < 16 \<Longrightarrow> ?thesis" by (simp add: hex_digit_def)
qed

lemma decode_encode_hex [simp]: "decode_hex (encode_hex bs) = Some bs"
proof (induction bs)
  case (Cons b bs)
  have "unat b < 256" using unsigned_less [of b] by simp
  then have "unat b div 16 < 16" by linarith
  moreover have "word_of_nat (16 * (unat b div 16) + unat b mod 16) = b" by simp
  ultimately show ?case using Cons by (simp add: hex_val_digit)
qed simp

lemma length_encode_hex [simp]: "length (encode_hex bs) = 2 * length bs"
  by (induction bs) simp_all

subsection \<open>Decimal integers\<close>

lemma digit_val_char: "n < 10 \<Longrightarrow> digit_val (digit_char n) = Some n"
  by (simp add: digit_val_def digit_char_def)

lemma digits_val_append:
  "digits_val acc (xs @ ys) = (case digits_val acc xs of None \<Rightarrow> None | Some a \<Rightarrow> digits_val a ys)"
  by (induction acc xs rule: digits_val.induct) (auto split: option.splits)

lemma digits_val_nat_digits: "digits_val 0 (nat_digits n) = Some n"
proof (induction n rule: nat_digits.induct)
  case (1 n)
  show ?case
  proof (cases "n < 10")
    case True
    then show ?thesis by (subst nat_digits.simps) (simp add: digit_val_char)
  next
    case False
    with 1 show ?thesis
      by (subst nat_digits.simps) (simp add: digits_val_append digit_val_char)
  qed
qed

lemma nat_digits_Cons: "\<exists>d ds. nat_digits n = digit_char d # ds"
proof (induction n rule: nat_digits.induct)
  case (1 n)
  then show ?case by (cases "n < 10") (subst nat_digits.simps, force)+
qed

lemma digit_char_not_minus: "digit_char d \<noteq> CHR ''-''"
proof
  assume "digit_char d = CHR ''-''"
  then have "(of_char (digit_char d) :: nat) = of_char CHR ''-''" by simp
  moreover have "(of_char (digit_char d) :: nat) = 48 + d mod 10"
    by (simp add: digit_char_def)
  ultimately show False by simp
qed

lemma parse_nat_digits: "parse_nat (nat_digits n) = Some n"
  using nat_digits_Cons [of n] by (auto simp: parse_nat_def digits_val_nat_digits)

lemma parse_int_itoa: "int64_ok i \<Longrightarrow> parse_int (itoa i) = Some i"
proof (cases "i < 0")
  case False
  obtain d ds where "nat_digits (nat i) = digit_char d # ds" using nat_digits_Cons by blast
  moreover assume "int64_ok i"
  ultimately show ?thesis
    using False parse_nat_digits [of "nat i"] by (simp add: itoa_def parse_int_def digit_char_not_minus)
qed (simp add: itoa_def parse_int_def parse_nat_digits)

lemma has_prefix_append_hd:
  assumes "xs \<noteq> []" "p \<noteq> []" "hd p \<notin> set (tl q)"
  shows "has_prefix (xs @ p) q = has_prefix xs q"
proof (cases "length q \<le> length xs")
  case True
  then show ?thesis by (simp add: has_prefix_def)
next
  case False
  have "\<not> has_prefix (xs @ p) q"
  proof
    assume "has_prefix (xs @ p) q"
    then have q: "q = xs @ take (length q - length xs) p" using False by (simp add: has_prefix_def)
    obtain k where k: "length q - length xs = Suc k" using False by (cases "length q - length xs") auto
    obtain x xs' where xs: "xs = x # xs'" using assms(1) by (cases xs) auto
    obtain y p' where p: "p = y # p'" using assms(2) by (cases p) auto
    have "q = xs @ take (Suc k) p" using q unfolding k .
    then have "q = x # xs' @ y # take k p'" by (simp add: xs p)
    then show False using assms(3) by (simp add: p)
  qed
  moreover have "\<not> has_prefix xs q" using False by (auto simp: has_prefix_append)
  ultimately show ?thesis by simp
qed

lemma fold_runes_append:
  assumes "p \<noteq> []" "\<And>e. e \<in> set tbl \<Longrightarrow> fst e \<noteq> [] \<and> hd p \<notin> set (tl (fst e))"
  shows "fold_runes tbl (t @ p) = fold_runes tbl t @ fold_runes tbl p"
proof (induction "length t" arbitrary: t rule: less_induct)
  case less
  show ?case
  proof (cases t)
    case (Cons c cs)
    have "rune_match tbl (c # cs @ p) = rune_match tbl (c # cs)"
      unfolding rune_match_def
      using assms has_prefix_append_hd [of "c # cs" p]
      by (intro find_cong) (simp_all add: has_prefix_append_hd)
    moreover have "length (fst e) - 1 \<le> length cs" if "rune_match tbl (c # cs) = Some e" for e
      using rune_match_Some [OF that] by (auto simp: has_prefix_append Cons_eq_append_conv dest: arg_cong [of _ _ length])
    ultimately show ?thesis
      using less Cons by (auto split: option.splits)
  qed simp
qed

lemma space_runes_lower:
  assumes "p \<in> set space_runes"
  shows "to_lower (p @ t) = p @ to_lower t" "to_lower (t @ p) = to_lower t @ p"
proof -
  have p: "to_lower p = p" "p \<noteq> []"
    "\<And>e. e \<in> set lower_table \<Longrightarrow> fst e \<noteq> [] \<and> hd p \<notin> set (tl (fst e))"
    using assms
    by (auto simp: space_runes_def lower_table_def kelvin_sign_def dotted_capital_i_def to_lower_def
        rune_match_def has_prefix_def is_ascii_char_def is_upper_char_def)
  then show "to_lower (t @ p) = to_lower t @ p"
    using fold_runes_append [of p lower_table t] by (simp add: to_lower_def)
  show "to_lower (p @ t) = p @ to_lower t"
    using assms
    by (auto simp: space_runes_def lower_table_def kelvin_sign_def dotted_capital_i_def to_lower_def
        rune_match_def has_prefix_def is_ascii_char_def is_upper_char_def)
qed

lemma space_prefix_lower: "p \<in> set space_runes \<Longrightarrow> has_prefix (to_lower s) p = has_prefix s p"
  using fold_runes_stable_prefix [OF case_table_lower space_runes_stable, of p s] space_runes_lower(1) [of p]
  by (auto simp: to_lower_def [of s] has_prefix_append to_lower_def)

lemma space_suffix_lower: "p \<in> set space_runes \<Longrightarrow> has_suffix (to_lower s) p = has_suffix s p"
  using fold_runes_stable_suffix [OF case_table_lower space_runes_stable, of p s] space_runes_lower(2) [of p]
  by (auto simp: to_lower_def has_suffix_append)

lemma trim_left_lower: "trim_runes space_runes (to_lower s) = to_lower (trim_runes space_runes s)"
proof (induction "length s" arbitrary: s rule: less_induct)
  case less
  have f: "find (\<lambda>p. p \<noteq> [] \<and> has_prefix (to_lower s) p) space_runes = find (\<lambda>p. p \<noteq> [] \<and> has_prefix s p) space_runes"
    by (intro find_cong) (simp_all add: space_prefix_lower)
  show ?case
  proof (cases "find (\<lambda>p. p \<noteq> [] \<and> has_prefix s p) space_runes")
    case None
    then show ?thesis using f by (simp add: trim_runes.simps)
  next
    case (Some p)
    then have p: "p \<in> set space_runes" "p \<noteq> []" "has_prefix s p" by (auto simp: find_Some_iff)
    then obtain t where t: "s = p @ t" by (auto simp: has_prefix_append)
    have "trim_runes space_runes (to_lower s) = trim_runes space_runes (to_lower t)"
      using Some f by (subst trim_runes.simps) (simp add: t space_runes_lower(1) [OF p(1)])
    moreover have "trim_runes space_runes s = trim_runes space_runes t"
      using Some by (subst trim_runes.simps) (simp add: t)
    ultimately show ?thesis using less [of t] p(2) by (simp add: t)
  qed
qed

lemma trim_right_lower:
  "trim_runes (map rev space_runes) (rev (to_lower s)) = rev (to_lower (rev (trim_runes (map rev space_runes) (rev s))))"
proof (induction "length s" arbitrary: s rule: less_induct)
  case less
  have f: "find (\<lambda>p. p \<noteq> [] \<and> has_prefix (rev (to_lower s)) p) (map rev space_runes)
      = find (\<lambda>p. p \<noteq> [] \<and> has_prefix (rev s) p) (map rev space_runes)"
    by (intro find_cong) (auto simp: has_prefix_rev space_suffix_lower)
  show ?case
  proof (cases "find (\<lambda>p. p \<noteq> [] \<and> has_prefix (rev s) p) (map rev space_runes)")
    case None
    then show ?thesis using f by (simp add: trim_runes.simps)
  next
    case (Some q)
    then have "q \<in> set (map rev space_runes)" "q \<noteq> []" "has_prefix (rev s) q" by (auto simp: find_Some_iff)
    then obtain p where q: "q = rev p" and p: "p \<in> set space_runes" "has_suffix s p"
      by (auto simp: has_prefix_rev)
    have p0: "p \<noteq> []" using \<open>q \<noteq> []\<close> q by simp
    from p obtain t where t: "s = t @ p" by (auto simp: has_suffix_append)
    have "trim_runes (map rev space_runes) (rev (to_lower s)) = trim_runes (map rev space_runes) (rev (to_lower t))"
      using Some f by (subst trim_runes.simps) (simp add: t q space_runes_lower(2) [OF p(1)])
    moreover have "trim_runes (map rev space_runes) (rev s) = trim_runes (map rev space_runes) (rev t)"
      using Some by (subst trim_runes.simps) (simp add: t q)
    ultimately show ?thesis using less [of t] p0 by (simp add: t)
  qed
qed

lemma norm_addr_lower [simp]: "norm_addr (to_lower s) = norm_addr s"
  by (simp add: norm_addr_def trim_space_def trim_left_lower trim_right_lower)

end
