(* ===== verification/Method_Catalog.thy ===== *)
theory Method_Catalog
  imports Go_Prelude "HOL-Library.Char_ord" "HOL-Library.List_Lexorder" "HOL-Library.AList"
begin

text \<open>
  The JSON-RPC method catalogue: \<^verbatim>\<open>internal/rbac/methods.go\<close>,
  \<^verbatim>\<open>internal/rbac/method_claim.go\<close> and the global block list of
  \<^verbatim>\<open>internal/rbac/access.go\<close>. A Go set (\<^verbatim>\<open>map[string]bool\<close>) is the list of
  its members. The four package-level registries and the armed flag are one record
  that registration changes and every lookup reads. The order of
  an association list stands for the order in which Go iterates over the map; no theorem depends
  on it. A panic is an error value.
\<close>

section \<open>Method names and tables\<close>

type_synonym claim = string

definition MethodGetTransactionByHash :: string where
  "MethodGetTransactionByHash = ''eth_getTransactionByHash''"

definition MethodGetTransactionReceipt :: string where
  "MethodGetTransactionReceipt = ''eth_getTransactionReceipt''"

definition MethodGetTransactionByBlockHashAndIndex :: string where
  "MethodGetTransactionByBlockHashAndIndex = ''eth_getTransactionByBlockHashAndIndex''"

definition MethodGetTransactionByBlockNumberAndIndex :: string where
  "MethodGetTransactionByBlockNumberAndIndex = ''eth_getTransactionByBlockNumberAndIndex''"

definition MethodGetBlockByHash :: string where
  "MethodGetBlockByHash = ''eth_getBlockByHash''"

definition MethodGetBlockByNumber :: string where
  "MethodGetBlockByNumber = ''eth_getBlockByNumber''"

definition MethodGetBlockReceipts :: string where
  "MethodGetBlockReceipts = ''eth_getBlockReceipts''"

definition MethodGetLogs :: string where
  "MethodGetLogs = ''eth_getLogs''"

definition MethodNewFilter :: string where
  "MethodNewFilter = ''eth_newFilter''"

definition MethodNewBlockFilter :: string where
  "MethodNewBlockFilter = ''eth_newBlockFilter''"

definition MethodNewPendingTransactionFilter :: string where
  "MethodNewPendingTransactionFilter = ''eth_newPendingTransactionFilter''"

definition MethodGetFilterLogs :: string where
  "MethodGetFilterLogs = ''eth_getFilterLogs''"

definition MethodGetFilterChanges :: string where
  "MethodGetFilterChanges = ''eth_getFilterChanges''"

definition MethodUninstallFilter :: string where
  "MethodUninstallFilter = ''eth_uninstallFilter''"

definition MethodGetStorageAt :: string where
  "MethodGetStorageAt = ''eth_getStorageAt''"

definition MethodGetCode :: string where
  "MethodGetCode = ''eth_getCode''"

definition MethodGetBalance :: string where
  "MethodGetBalance = ''eth_getBalance''"

definition MethodGetTransactionCount :: string where
  "MethodGetTransactionCount = ''eth_getTransactionCount''"

definition MethodGetProof :: string where
  "MethodGetProof = ''eth_getProof''"

definition MethodCall :: string where
  "MethodCall = ''eth_call''"

definition MethodEstimateGas :: string where
  "MethodEstimateGas = ''eth_estimateGas''"

definition MethodSendTransaction :: string where
  "MethodSendTransaction = ''eth_sendTransaction''"

definition MethodSendRawTransaction :: string where
  "MethodSendRawTransaction = ''eth_sendRawTransaction''"

definition GlobalBlockedMethods :: "string list" where
  "GlobalBlockedMethods =
     [''debug_accountrange'', ''debug_backtraceat'', ''debug_blockprofile'',
       ''debug_chaindbcompact'', ''debug_chaindbproperty'', ''debug_cpuprofile'',
       ''debug_dbancient'', ''debug_dbancients'', ''debug_dbget'', ''debug_dumpblock'',
       ''debug_freeosmemory'', ''debug_freezeclient'', ''debug_gcstats'', ''debug_getbadblocks'',
       ''debug_getheaderrlp'', ''debug_getmodifiedaccountsbyhash'',
       ''debug_getmodifiedaccountsbynumber'', ''debug_gotrace'', ''debug_intermediateroots'',
       ''debug_memstats'', ''debug_mutexprofile'', ''debug_preimage'', ''debug_printblock'',
       ''debug_seedhash'', ''debug_setblockprofilerate'', ''debug_setgcpercent'',
       ''debug_sethead'', ''debug_setmutexprofilefraction'', ''debug_stacks'',
       ''debug_standardtracebadblocktofile'', ''debug_standardtraceblocktofile'',
       ''debug_startcpuprofile'', ''debug_startgotrace'', ''debug_stopcpuprofile'',
       ''debug_stopgotrace'', ''debug_storagerangeat'', ''debug_subscribe'',
       ''debug_tracebadblock'', ''debug_traceblock'', ''debug_traceblockbyhash'',
       ''debug_traceblockbynumber'', ''debug_traceblockfromfile'', ''debug_tracechain'',
       ''debug_unsubscribe'', ''debug_verbosity'', ''debug_vmodule'',
       ''debug_writeblockprofile'', ''debug_writememprofile'', ''debug_writemutexprofile'',
       ''admin_addpeer'', ''admin_addtrustedpeer'', ''admin_clearhistory'', ''admin_datadir'',
       ''admin_exportchain'', ''admin_importchain'', ''admin_nodeinfo'', ''admin_peers'',
       ''admin_removepeer'', ''admin_removetrustedpeer'', ''admin_sleep'', ''admin_sleepblocks'',
       ''admin_starthttp'', ''admin_startrpc'', ''admin_startws'', ''admin_stophttp'',
       ''admin_stoprpc'', ''admin_stopws'', ''personal_deriveaccount'', ''personal_ecrecover'',
       ''personal_importrawkey'', ''personal_initializewallet'', ''personal_listaccounts'',
       ''personal_listwallets'', ''personal_lockaccount'', ''personal_newaccount'',
       ''personal_openwallet'', ''personal_sendtransaction'', ''personal_sign'',
       ''personal_signtransaction'', ''personal_unlockaccount'', ''personal_unpair'',
       ''miner_gethashrate'', ''miner_setetherbase'', ''miner_setextra'', ''miner_setgaslimit'',
       ''miner_setgasprice'', ''miner_setrecommitinterval'', ''miner_start'', ''miner_stop'',
       ''txpool_content'', ''txpool_contentfrom'', ''txpool_inspect'', ''txpool_status'',
       ''eth_simulatev1'', ''eth_simulate'', ''eth_multicallv1'', ''eth_callmany'',
       ''eth_callbundle'', ''eth_sign'', ''eth_signtransaction'', ''eth_signtypeddata'',
       ''eth_signtypeddata_v4'', ''clique_discard'', ''clique_getsigners'',
       ''clique_getsignersathash'', ''clique_getsnapshot'', ''clique_getsnapshotathash'',
       ''clique_proposals'', ''clique_propose'', ''clique_status'', ''les_addbalance'',
       ''les_clientinfo'', ''les_latestcheckpoint'', ''les_priorityclientinfo'',
       ''les_serverinfo'', ''les_setclientparams'', ''les_setdefaultparams'', ''eth_subscribe'',
       ''eth_unsubscribe'', to_lower MethodNewFilter, to_lower MethodNewBlockFilter,
       to_lower MethodNewPendingTransactionFilter, to_lower MethodGetFilterLogs,
       to_lower MethodGetFilterChanges, to_lower MethodUninstallFilter]"

definition orgFreeMetadataMethods :: "string list" where
  "orgFreeMetadataMethods =
     [''eth_blocknumber'', ''eth_chainid'', ''eth_gasprice'', ''net_version'', ''net_listening'',
       ''web3_clientversion'']"

definition blockedMethodPrefixes :: "string list" where
  "blockedMethodPrefixes =
     [''ops_'', ''debug_'', ''admin_'', ''personal_'', ''miner_'', ''txpool_'', ''clique_'',
       ''les_'']"

definition prefixBlockExemptions :: "string list" where
  "prefixBlockExemptions =
     [''debug_tracetransaction'', ''debug_tracecall'']"

definition WriteOpsMap :: "string list" where
  "WriteOpsMap =
     [''eth_sendtransaction'', ''eth_sendrawtransaction'']"

definition ReadOpsMap :: "string list" where
  "ReadOpsMap =
     [''eth_call'', ''eth_estimategas'', ''eth_getcode'', ''eth_getbalance'',
       ''eth_getstorageat'', ''eth_gettransactioncount'', ''eth_getlogs'', ''eth_getproof'',
       ''eth_createaccesslist'', ''eth_accounts'', ''eth_newfilter'', ''eth_newblockfilter'',
       ''eth_newpendingtransactionfilter'', ''eth_getfilterchanges'', ''eth_getfilterlogs'',
       ''eth_uninstallfilter'', ''eth_getblockbyhash'', ''eth_getblockbynumber'',
       ''eth_getblocktransactioncountbyhash'', ''eth_getblocktransactioncountbynumber'',
       ''eth_getunclebyblockhashandindex'', ''eth_getunclebyblocknumberandindex'',
       ''eth_getunclecountbyblockhash'', ''eth_getunclecountbyblocknumber'',
       ''eth_gettransactionbyhash'', ''eth_gettransactionbyblockhashandindex'',
       ''eth_gettransactionbyblocknumberandindex'', ''eth_gettransactionreceipt'',
       ''eth_getblockreceipts'']"

definition ReadMethods :: "string list" where
  "ReadMethods =
     [''eth_chainId'', ''eth_blockNumber'', ''net_version'', ''net_listening'',
       ''net_peerCount'', ''web3_clientVersion'', ''web3_sha3'', ''eth_syncing'',
       ''eth_accounts'', ''eth_getBalance'', ''eth_getCode'', ''eth_getStorageAt'',
       ''eth_getTransactionCount'', ''eth_getBlockByHash'', ''eth_getBlockByNumber'',
       ''eth_getBlockTransactionCountByHash'', ''eth_getBlockTransactionCountByNumber'',
       ''eth_getTransactionByHash'', ''eth_getTransactionReceipt'',
       ''eth_getTransactionByBlockHashAndIndex'', ''eth_getTransactionByBlockNumberAndIndex'',
       ''eth_call'', ''eth_estimateGas'', ''eth_gasPrice'', ''eth_maxPriorityFeePerGas'',
       ''eth_feeHistory'', ''eth_getLogs'', ''eth_newFilter'', ''eth_newBlockFilter'',
       ''eth_newPendingTransactionFilter'', ''eth_getFilterChanges'', ''eth_getFilterLogs'',
       ''eth_uninstallFilter'']"

definition WriteMethods :: "string list" where
  "WriteMethods =
     [''eth_sendTransaction'', ''eth_sendRawTransaction'', ''eth_sign'', ''eth_signTransaction'',
       ''personal_sign'', ''eth_signTypedData'', ''eth_signTypedData_v4'']"

definition TraceMethods :: "string list" where
  "TraceMethods =
     [''debug_traceTransaction'', ''debug_traceCall'']"

definition canonicalExtraMethods :: "string list" where
  "canonicalExtraMethods =
     [''eth_getProof'', ''eth_createAccessList'', ''eth_getBlockReceipts'']"

definition reservedExtraPrefixes :: "string list" where
  "reservedExtraPrefixes = [''eth_'', ''net_'', ''web3_'', ''engine_'']"

definition specialDispatchMethods :: "string list" where
  "specialDispatchMethods =
     [''eth_sendTransaction'', ''eth_sendRawTransaction'', ''debug_traceTransaction'',
       ''debug_traceCall'', ''eth_getBlockByHash'', ''eth_getBlockByNumber'',
       ''eth_getBlockTransactionCountByHash'', ''eth_getBlockTransactionCountByNumber'']"

section \<open>The global block list\<close>

definition IsMethodBlocked :: "string \<Rightarrow> bool" where
  "IsMethodBlocked method =
     (let method = to_lower (trim_space method) in
      if method \<in> set GlobalBlockedMethods then True
      else if method \<in> set prefixBlockExemptions then False
      else list_ex (\<lambda>prefix. has_prefix method prefix) blockedMethodPrefixes)"

section \<open>Built-in methods\<close>

definition canonicalMethodByLower :: "(string \<times> string) list" where
  "canonicalMethodByLower =
     map (\<lambda>name. (to_lower name, name)) (ReadMethods @ WriteMethods @ TraceMethods @ canonicalExtraMethods)"

definition CanonicalizeMethod :: "string \<Rightarrow> string" where
  "CanonicalizeMethod method =
     (case map_of canonicalMethodByLower (to_lower method) of Some canon \<Rightarrow> canon | None \<Rightarrow> method)"

definition GetClaimForMethod :: "string \<Rightarrow> claim" where
  "GetClaimForMethod method = ''''"

definition IsReadMethod :: "string \<Rightarrow> bool" where
  "IsReadMethod method = (method \<in> set ReadMethods)"

definition IsWriteMethod :: "string \<Rightarrow> bool" where
  "IsWriteMethod method = (method \<in> set WriteMethods)"

definition MethodClaimMismatchError :: "string \<Rightarrow> claim \<Rightarrow> string" where
  "MethodClaimMismatchError method required = ''method '' @ method @ '' requires '' @ required @ '' claim''"

fun ValidateMethodsMatchClaims :: "string list \<Rightarrow> claim list \<Rightarrow> unit res" where
  "ValidateMethodsMatchClaims [] claims = Inr ()"
| "ValidateMethodsMatchClaims (method # methods) claims =
     (let requiredClaim = GetClaimForMethod method in
      if requiredClaim \<noteq> '''' \<and> requiredClaim \<notin> set claims
      then Inl (MethodClaimMismatchError method requiredClaim)
      else ValidateMethodsMatchClaims methods claims)"

definition IsStandardMethod :: "string \<Rightarrow> bool" where
  "IsStandardMethod method =
     (let lower = to_lower (trim_space method) in
      if map_of canonicalMethodByLower lower \<noteq> None then True
      else lower \<in> set ReadOpsMap \<or> lower \<in> set WriteOpsMap)"

definition IsCatalogMethod :: "string \<Rightarrow> bool" where
  "IsCatalogMethod method =
     (case map_of canonicalMethodByLower (to_lower method) of
        Some canon \<Rightarrow> canon = method \<and> \<not> IsMethodBlocked method
      | None \<Rightarrow> False)"

section \<open>Operator-configured methods\<close>

record registries =
  ExtraMethods :: "string list"
  ExtraNamespaces :: "(string \<times> string list) list option"
  MethodAliases :: "(string \<times> string) list"
  PassthroughMethods :: "string list"
  methodRegistriesArmed :: bool

definition empty_registries :: registries where
  "empty_registries =
     \<lparr>ExtraMethods = [], ExtraNamespaces = None, MethodAliases = [], PassthroughMethods = [],
      methodRegistriesArmed = False\<rparr>"

definition ArmMethodRegistries :: "registries \<Rightarrow> registries" where
  "ArmMethodRegistries reg = reg\<lparr>methodRegistriesArmed := True\<rparr>"

definition ValidateExtraMethod :: "string \<Rightarrow> unit res" where
  "ValidateExtraMethod method =
     (if trim_space method \<noteq> method \<or> method = ''''
      then Inl (''method '' @ fmt_q method @ '': name must be non-empty with no surrounding whitespace'')
      else if CHR ''*'' \<in> set method
      then Inl (''method '' @ fmt_q method @ '': wildcards are not supported; list each method by its exact name'')
      else if IsStandardMethod method
      then Inl (''method '' @ fmt_q method @ '': shadows a built-in RPC method'')
      else case find (\<lambda>prefix. has_prefix (to_lower method) prefix) reservedExtraPrefixes of
        Some prefix \<Rightarrow>
          Inl (''method '' @ fmt_q method @ '': the '' @ prefix
               @ '' namespace is reserved; only built-in methods are served there'')
      | None \<Rightarrow>
          if IsMethodBlocked method then Inl (''method '' @ fmt_q method @ '': globally blocked'')
          else Inr ())"

definition ValidateAliasTarget :: "string \<Rightarrow> string \<Rightarrow> unit res" where
  "ValidateAliasTarget method target =
     (if \<not> IsCatalogMethod target
      then Inl (''method '' @ fmt_q method @ '': alias '' @ fmt_q target
                @ '' is not a built-in RPC method (check the exact spelling)'')
      else if target \<in> set specialDispatchMethods
      then Inl (''method '' @ fmt_q method @ '': '' @ fmt_q target
                @ '' cannot be an alias target - its protection runs in a dedicated request path an alias would skip'')
      else Inr ())"

text \<open>
  \<^verbatim>\<open>RegisterExtraNamespaces\<close>: the three validation loops, one function each, and the final
  assignment. The registries change only when every loop has passed.
\<close>

fun check_passthrough :: "(string \<times> string) list \<Rightarrow> string list \<Rightarrow> unit res" where
  "check_passthrough aliases [] = Inr ()"
| "check_passthrough aliases (m # ms) =
     (if map_of aliases m \<noteq> None
      then Inl (''method '' @ fmt_q m @ '': an entry is either aliased or passthrough, not both'')
      else case ValidateExtraMethod m of
        Inl e \<Rightarrow> Inl e
      | Inr _ \<Rightarrow> check_passthrough aliases ms)"

fun check_aliases :: "(string \<times> string) list \<Rightarrow> unit res" where
  "check_aliases [] = Inr ()"
| "check_aliases ((method, target) # rest) =
     (case ValidateExtraMethod method of
        Inl e \<Rightarrow> Inl e
      | Inr _ \<Rightarrow>
          (case ValidateAliasTarget method target of
             Inl e \<Rightarrow> Inl e
           | Inr _ \<Rightarrow> check_aliases rest))"

fun check_names :: "(string \<times> string) list \<Rightarrow> string list \<Rightarrow> string list \<Rightarrow> unit res" where
  "check_names aliases passthrough [] = Inr ()"
| "check_names aliases passthrough (m # ms) =
     (if map_of aliases m = None \<and> m \<notin> set passthrough
      then Inl (''method '' @ fmt_q m @ '': needs an alias to a built-in method or \"passthrough\": true'')
      else check_names aliases passthrough ms)"

definition add_member :: "string \<Rightarrow> string list \<Rightarrow> string list" where
  "add_member m ms = (if m \<in> set ms then ms else ms @ [m])"

definition RegisterExtraNamespaces ::
  "registries \<Rightarrow> (string \<times> string list) list \<Rightarrow> (string \<times> string) list \<Rightarrow> string list \<Rightarrow> registries res" where
  "RegisterExtraNamespaces reg methodNames aliases passthrough =
     (if methodRegistriesArmed reg
      then Inl ''panic: rbac: RegisterExtraNamespaces called after startup''
      else case check_passthrough aliases passthrough of
        Inl e \<Rightarrow> Inl e
      | Inr _ \<Rightarrow>
     (case check_aliases aliases of
        Inl e \<Rightarrow> Inl e
      | Inr _ \<Rightarrow>
     (case check_names aliases passthrough (concat (map snd methodNames)) of
        Inl e \<Rightarrow> Inl e
      | Inr _ \<Rightarrow>
          Inr (reg\<lparr>ExtraNamespaces := Some methodNames,
                   ExtraMethods :=
                     fold add_member passthrough (fold add_member (concat (map snd methodNames)) (ExtraMethods reg)),
                   MethodAliases := fold (\<lambda>(method, alias). AList.update method alias) aliases (MethodAliases reg),
                   PassthroughMethods := fold add_member passthrough (PassthroughMethods reg)\<rparr>))))"

definition ResolveMethodAlias :: "registries \<Rightarrow> string \<Rightarrow> string" where
  "ResolveMethodAlias reg method =
     (case map_of (MethodAliases reg) method of Some alias \<Rightarrow> alias | None \<Rightarrow> method)"

definition IsPassthroughMethod :: "registries \<Rightarrow> string \<Rightarrow> bool" where
  "IsPassthroughMethod reg method = (method \<in> set (PassthroughMethods reg))"

definition IsForwardableMethod :: "registries \<Rightarrow> string \<Rightarrow> bool" where
  "IsForwardableMethod reg method =
     (if IsCatalogMethod method \<or> method \<in> set (PassthroughMethods reg) then True
      else case map_of (MethodAliases reg) method of
        Some target \<Rightarrow> ValidateAliasTarget method target = Inr ()
      | None \<Rightarrow> False)"

definition inBuiltinWildcardSet :: "string \<Rightarrow> bool" where
  "inBuiltinWildcardSet method =
     (method \<in> set ReadMethods \<or> method \<in> set WriteMethods \<or> method \<in> set TraceMethods)"

definition InWildcardExpansion :: "registries \<Rightarrow> string \<Rightarrow> bool" where
  "InWildcardExpansion reg method =
     (if IsMethodBlocked method \<or> method \<in> set (PassthroughMethods reg) then False
      else if inBuiltinWildcardSet method then True
      else if method \<in> set (ExtraMethods reg)
      then case map_of (MethodAliases reg) method of
        Some target \<Rightarrow> IsForwardableMethod reg method \<and> inBuiltinWildcardSet target
      | None \<Rightarrow> False
      else False)"

definition collect_new :: "(string \<Rightarrow> bool) \<Rightarrow> string list \<Rightarrow> string list" where
  "collect_new ok ms = fold (\<lambda>m out. if m \<notin> set out \<and> ok m then out @ [m] else out) ms []"

definition AllAllowedMethods :: "registries \<Rightarrow> string list" where
  "AllAllowedMethods reg =
     sort (collect_new (InWildcardExpansion reg) (ReadMethods @ WriteMethods @ TraceMethods @ ExtraMethods reg))"

definition IsAssignableMethod :: "registries \<Rightarrow> string \<Rightarrow> bool" where
  "IsAssignableMethod reg method = IsForwardableMethod reg method"

definition SupportedMethods :: "registries \<Rightarrow> string list" where
  "SupportedMethods reg =
     sort (collect_new (IsAssignableMethod reg) (map snd canonicalMethodByLower @ ExtraMethods reg))"

definition ExpandWildcardMethods :: "registries \<Rightarrow> string list \<Rightarrow> string list" where
  "ExpandWildcardMethods reg methods =
     (if ''*'' \<notin> set methods then methods
      else sort (collect_new (\<lambda>m. m \<noteq> ''*'') (AllAllowedMethods reg @ methods)))"

section \<open>Lemmas\<close>

definition builtinMethods :: "string list" where
  "builtinMethods = ReadMethods @ WriteMethods @ TraceMethods @ canonicalExtraMethods"

lemma canonical_distinct: "distinct (map fst canonicalMethodByLower)"
  by code_simp

lemma set_canonicalMethodByLower:
  "set canonicalMethodByLower = (\<lambda>n. (to_lower n, n)) ` set builtinMethods"
  by (simp add: canonicalMethodByLower_def builtinMethods_def image_Un)

lemma canonical_lookup_iff:
  "map_of canonicalMethodByLower l = Some n \<longleftrightarrow> n \<in> set builtinMethods \<and> l = to_lower n"
  by (auto simp: map_of_eq_Some_iff [OF canonical_distinct] set_canonicalMethodByLower)

lemma canonical_lookup [simp]:
  "n \<in> set builtinMethods \<Longrightarrow> map_of canonicalMethodByLower (to_lower n) = Some n"
  by (simp add: canonical_lookup_iff)

lemma canonical_None_iff:
  "map_of canonicalMethodByLower l = None \<longleftrightarrow> (\<forall>n \<in> set builtinMethods. to_lower n \<noteq> l)"
  by (auto simp: map_of_eq_None_iff set_canonicalMethodByLower image_image)

lemma builtin_lower_inj:
  "m \<in> set builtinMethods \<Longrightarrow> n \<in> set builtinMethods \<Longrightarrow> to_lower m = to_lower n \<Longrightarrow> m = n"
  using canonical_lookup by (metis option.inject)

lemma IsCatalogMethod_iff: "IsCatalogMethod m \<longleftrightarrow> m \<in> set builtinMethods \<and> \<not> IsMethodBlocked m"
proof (cases "map_of canonicalMethodByLower (to_lower m)")
  case None
  then have "m \<notin> set builtinMethods" using canonical_None_iff by blast
  with None show ?thesis by (simp add: IsCatalogMethod_def)
next
  case (Some n)
  then show ?thesis
    by (auto simp: IsCatalogMethod_def canonical_lookup_iff intro: builtin_lower_inj)
qed

lemma CanonicalizeMethod_cases:
  obtains "CanonicalizeMethod m \<in> set builtinMethods" "to_lower (CanonicalizeMethod m) = to_lower m"
  | "CanonicalizeMethod m = m" "\<forall>n \<in> set builtinMethods. to_lower n \<noteq> to_lower m"
proof (cases "map_of canonicalMethodByLower (to_lower m)")
  case None
  then have "\<forall>n \<in> set builtinMethods. to_lower n \<noteq> to_lower m" by (simp add: canonical_None_iff)
  with None show ?thesis using that by (simp add: CanonicalizeMethod_def)
next
  case (Some n)
  then have "CanonicalizeMethod m = n" by (simp add: CanonicalizeMethod_def)
  moreover have "n \<in> set builtinMethods" "to_lower n = to_lower m"
    using Some [unfolded canonical_lookup_iff] by simp_all
  ultimately show ?thesis using that(1) by simp
qed

lemma CanonicalizeMethod_builtin: "m \<in> set builtinMethods \<Longrightarrow> CanonicalizeMethod m = m"
  by (simp add: CanonicalizeMethod_def)

lemma CanonicalizeMethod_idem: "CanonicalizeMethod (CanonicalizeMethod m) = CanonicalizeMethod m"
  by (rule CanonicalizeMethod_cases [of m]) (simp_all add: CanonicalizeMethod_builtin)

lemma to_lower_CanonicalizeMethod [simp]: "to_lower (CanonicalizeMethod m) = to_lower m"
  by (rule CanonicalizeMethod_cases [of m]) simp_all

lemma builtin_no_star: "n \<in> set builtinMethods \<Longrightarrow> CHR ''*'' \<notin> set n"
proof -
  have "list_all (\<lambda>n. CHR ''*'' \<notin> set n) builtinMethods" by code_simp
  then show "n \<in> set builtinMethods \<Longrightarrow> CHR ''*'' \<notin> set n" by (auto simp: list_all_iff)
qed

lemma ValidateExtraMethod_ok:
  "ValidateExtraMethod m = Inr () \<longleftrightarrow>
     trim_space m = m \<and> m \<noteq> '''' \<and> CHR ''*'' \<notin> set m \<and> \<not> IsStandardMethod m
     \<and> list_all (\<lambda>p. \<not> has_prefix (to_lower m) p) reservedExtraPrefixes \<and> \<not> IsMethodBlocked m"
proof -
  have "list_all (\<lambda>p. \<not> has_prefix (to_lower m) p) reservedExtraPrefixes \<longleftrightarrow>
      find (\<lambda>p. has_prefix (to_lower m) p) reservedExtraPrefixes = None"
    by (auto simp: find_None_iff list_all_iff)
  then show ?thesis by (auto simp: ValidateExtraMethod_def split: option.splits if_splits)
qed

lemma ValidateAliasTarget_ok:
  "ValidateAliasTarget m t = Inr () \<longleftrightarrow> IsCatalogMethod t \<and> t \<notin> set specialDispatchMethods"
  by (simp add: ValidateAliasTarget_def)

lemma set_add_member [simp]: "set (add_member m ms) = insert m (set ms)"
  by (auto simp: add_member_def)

lemma set_fold_add_member [simp]: "set (fold add_member ns ms) = set ns \<union> set ms"
  by (induction ns arbitrary: ms) auto

lemma set_collect_new [simp]: "set (collect_new ok ms) = {m \<in> set ms. ok m}"
proof -
  have "set (fold (\<lambda>m out. if m \<notin> set out \<and> ok m then out @ [m] else out) ms out) =
          set out \<union> {m \<in> set ms. ok m}" for out
    by (induction ms arbitrary: out) auto
  then show ?thesis by (simp add: collect_new_def)
qed

lemma distinct_collect_new [simp]: "distinct (collect_new ok ms)"
proof -
  have "distinct out \<Longrightarrow>
      distinct (fold (\<lambda>m out. if m \<notin> set out \<and> ok m then out @ [m] else out) ms out)" for out
    by (induction ms arbitrary: out) auto
  then show ?thesis by (simp add: collect_new_def)
qed

lemma check_passthrough_ok:
  "check_passthrough aliases ms = Inr () \<longleftrightarrow>
     (\<forall>m \<in> set ms. map_of aliases m = None \<and> ValidateExtraMethod m = Inr ())"
  by (induction ms) (auto split: sum.splits)

lemma check_aliases_ok:
  "check_aliases aliases = Inr () \<longleftrightarrow>
     (\<forall>(m, t) \<in> set aliases. ValidateExtraMethod m = Inr () \<and> ValidateAliasTarget m t = Inr ())"
  by (induction aliases rule: check_aliases.induct) (auto split: sum.splits)

lemma check_names_ok:
  "check_names aliases passthrough ms = Inr () \<longleftrightarrow>
     (\<forall>m \<in> set ms. map_of aliases m \<noteq> None \<or> m \<in> set passthrough)"
  by (induction ms) auto

lemma map_of_fold_update:
  "map_of (fold (\<lambda>(k, v). AList.update k v) kvs al) = map_of al ++ map_of (rev kvs)"
  by (induction kvs arbitrary: al) (auto simp: update_conv' fun_eq_iff map_add_def split: option.splits)

subsection \<open>The registries during start-up\<close>

definition registries_ok :: "registries \<Rightarrow> bool" where
  "registries_ok reg \<longleftrightarrow>
     list_all (\<lambda>m. ValidateExtraMethod m = Inr ()) (PassthroughMethods reg)
     \<and> (\<forall>m t. map_of (MethodAliases reg) m = Some t \<longrightarrow>
          ValidateExtraMethod m = Inr () \<and> ValidateAliasTarget m t = Inr ())
     \<and> list_all (\<lambda>m. map_of (MethodAliases reg) m \<noteq> None \<or> m \<in> set (PassthroughMethods reg)) (ExtraMethods reg)"

inductive registered :: "registries \<Rightarrow> bool" where
  start: "registered empty_registries"
| register: "registered reg \<Longrightarrow> RegisterExtraNamespaces reg ns al pt = Inr reg' \<Longrightarrow> registered reg'"
| arm: "registered reg \<Longrightarrow> registered (ArmMethodRegistries reg)"

lemma RegisterExtraNamespaces_ok:
  "RegisterExtraNamespaces reg ns al pt = Inr reg' \<longleftrightarrow>
     \<not> methodRegistriesArmed reg
     \<and> check_passthrough al pt = Inr () \<and> check_aliases al = Inr ()
     \<and> check_names al pt (concat (map snd ns)) = Inr ()
     \<and> reg' = reg\<lparr>ExtraNamespaces := Some ns,
         ExtraMethods := fold add_member pt (fold add_member (concat (map snd ns)) (ExtraMethods reg)),
         MethodAliases := fold (\<lambda>(k, v). AList.update k v) al (MethodAliases reg),
         PassthroughMethods := fold add_member pt (PassthroughMethods reg)\<rparr>"
  by (auto simp: RegisterExtraNamespaces_def split: sum.splits if_splits)

lemma RegisterExtraNamespaces_effect:
  assumes "RegisterExtraNamespaces reg ns al pt = Inr reg'"
  shows "\<forall>m \<in> set pt. map_of al m = None \<and> ValidateExtraMethod m = Inr ()"
    and "\<forall>(m, t) \<in> set al. ValidateExtraMethod m = Inr () \<and> ValidateAliasTarget m t = Inr ()"
    and "\<forall>m \<in> set (concat (map snd ns)). map_of al m \<noteq> None \<or> m \<in> set pt"
    and "map_of (MethodAliases reg') = map_of (MethodAliases reg) ++ map_of (rev al)"
    and "set (PassthroughMethods reg') = set pt \<union> set (PassthroughMethods reg)"
    and "set (ExtraMethods reg') = set pt \<union> set (concat (map snd ns)) \<union> set (ExtraMethods reg)"
proof -
  note r = assms [unfolded RegisterExtraNamespaces_ok]
  from r show "\<forall>m \<in> set pt. map_of al m = None \<and> ValidateExtraMethod m = Inr ()"
    by (elim conjE) (simp only: check_passthrough_ok)
  from r show "\<forall>(m, t) \<in> set al. ValidateExtraMethod m = Inr () \<and> ValidateAliasTarget m t = Inr ()"
    by (elim conjE) (simp only: check_aliases_ok)
  from r show "\<forall>m \<in> set (concat (map snd ns)). map_of al m \<noteq> None \<or> m \<in> set pt"
    by (elim conjE) (simp only: check_names_ok)
  from r show "map_of (MethodAliases reg') = map_of (MethodAliases reg) ++ map_of (rev al)"
    by (simp add: map_of_fold_update)
  from r show "set (PassthroughMethods reg') = set pt \<union> set (PassthroughMethods reg)" by simp
  from r show "set (ExtraMethods reg') = set pt \<union> set (concat (map snd ns)) \<union> set (ExtraMethods reg)"
    by (simp add: Un_assoc)
qed

lemma RegisterExtraNamespaces_keeps_ok:
  assumes ok: "registries_ok reg" and "RegisterExtraNamespaces reg ns al pt = Inr reg'"
  shows "registries_ok reg'"
proof -
  note r = RegisterExtraNamespaces_effect [OF assms(2)]
  let ?al = "map_of (MethodAliases reg) ++ map_of (rev al)"
  have al: "ValidateExtraMethod m = Inr () \<and> ValidateAliasTarget m t = Inr ()" if "?al m = Some t" for m t
  proof (cases "map_of (rev al) m")
    case None
    with that ok show ?thesis by (simp add: registries_ok_def map_add_def)
  next
    case (Some t')
    with that have "t' = t" by (simp add: map_add_def)
    with Some have "(m, t) \<in> set al" using map_of_SomeD by force
    with r(2) show ?thesis by blast
  qed
  have ex: "?al m \<noteq> None \<or> m \<in> set pt \<union> set (PassthroughMethods reg)"
    if "m \<in> set pt \<union> set (concat (map snd ns)) \<union> set (ExtraMethods reg)" for m
  proof -
    have 1: "map_of al m \<noteq> None \<Longrightarrow> ?al m \<noteq> None"
      by (auto simp: map_add_None map_of_eq_None_iff)
    have 2: "m \<in> set (ExtraMethods reg) \<Longrightarrow>
        map_of (MethodAliases reg) m \<noteq> None \<or> m \<in> set (PassthroughMethods reg)"
      using ok by (simp add: registries_ok_def list_all_iff)
    have 3: "map_of (MethodAliases reg) m \<noteq> None \<Longrightarrow> ?al m \<noteq> None"
      by (auto simp: map_add_None)
    from that 1 2 3 bspec [OF r(3), of m] show ?thesis unfolding Un_iff by argo
  qed
  have pt: "ValidateExtraMethod m = Inr ()" if "m \<in> set pt \<union> set (PassthroughMethods reg)" for m
    using that r(1) ok by (auto simp: registries_ok_def list_all_iff)
  show ?thesis unfolding registries_ok_def list_all_iff r(4-6)
    by (rule conjI [OF ballI conjI [OF allI [OF allI [OF impI]] ballI]]) (erule pt al ex)+
qed

lemma registered_ok: "registered reg \<Longrightarrow> registries_ok reg"
proof (induction rule: registered.induct)
  case start
  show ?case by (simp add: registries_ok_def empty_registries_def)
next
  case (arm reg)
  then show ?case by (simp add: registries_ok_def ArmMethodRegistries_def)
qed (rule RegisterExtraNamespaces_keeps_ok)

lemma passthrough_valid:
  "registries_ok reg \<Longrightarrow> m \<in> set (PassthroughMethods reg) \<Longrightarrow> ValidateExtraMethod m = Inr ()"
  by (simp add: registries_ok_def list_all_iff)

lemma alias_valid:
  "registries_ok reg \<Longrightarrow> map_of (MethodAliases reg) m = Some t \<Longrightarrow>
     ValidateExtraMethod m = Inr () \<and> ValidateAliasTarget m t = Inr ()"
  by (simp add: registries_ok_def)

lemma forwardable_cases:
  "registries_ok reg \<Longrightarrow> IsForwardableMethod reg m \<longleftrightarrow>
     IsCatalogMethod m \<or> m \<in> set (PassthroughMethods reg) \<or> m \<in> dom (map_of (MethodAliases reg))"
  by (auto simp: IsForwardableMethod_def alias_valid split: option.splits)

lemma forwardable_not_blocked:
  "registries_ok reg \<Longrightarrow> IsForwardableMethod reg m \<Longrightarrow> \<not> IsMethodBlocked m"
  by (auto simp: forwardable_cases IsCatalogMethod_iff ValidateExtraMethod_ok
      dest: passthrough_valid alias_valid)

lemma forwardable_no_star:
  "registries_ok reg \<Longrightarrow> IsForwardableMethod reg m \<Longrightarrow> CHR ''*'' \<notin> set m"
  by (auto simp: forwardable_cases IsCatalogMethod_iff ValidateExtraMethod_ok builtin_no_star
      dest: passthrough_valid alias_valid)

lemma InWildcardExpansion_forwardable: "InWildcardExpansion reg m \<Longrightarrow> IsForwardableMethod reg m"
  by (auto simp: InWildcardExpansion_def IsForwardableMethod_def IsCatalogMethod_iff
      inBuiltinWildcardSet_def builtinMethods_def split: if_splits option.splits)

lemma set_AllAllowedMethods: "set (AllAllowedMethods reg) = {m. InWildcardExpansion reg m}"
  by (auto simp: AllAllowedMethods_def InWildcardExpansion_def inBuiltinWildcardSet_def
      split: if_splits option.splits)

lemma set_SupportedMethods:
  assumes "registries_ok reg"
  shows "set (SupportedMethods reg) =
     {m. IsForwardableMethod reg m \<and> (IsCatalogMethod m \<or> m \<in> set (ExtraMethods reg))}"
  using forwardable_not_blocked [OF assms]
  by (auto simp: SupportedMethods_def IsAssignableMethod_def IsCatalogMethod_iff
      set_canonicalMethodByLower image_image)

lemma set_ExpandWildcardMethods:
  "set (ExpandWildcardMethods reg ms) =
     (if ''*'' \<in> set ms then ({m. InWildcardExpansion reg m} \<union> set ms) - {''*''} else set ms)"
  by (auto simp: ExpandWildcardMethods_def set_AllAllowedMethods)

section \<open>Properties\<close>

definition demo_registries :: registries where
  "demo_registries =
     \<lparr>ExtraMethods = [''linea_estimateGas'', ''linea_foo'', ''linea_Foo''],
      ExtraNamespaces = Some [(''linea'', [''linea_estimateGas'', ''linea_foo'', ''linea_Foo''])],
      MethodAliases = [(''linea_estimateGas'', ''eth_estimateGas'')],
      PassthroughMethods = [''linea_foo'', ''linea_Foo''], methodRegistriesArmed = False\<rparr>"

lemma demo_registration:
  "RegisterExtraNamespaces empty_registries
     [(''linea'', [''linea_estimateGas'', ''linea_foo'', ''linea_Foo''])]
     [(''linea_estimateGas'', ''eth_estimateGas'')] [''linea_foo'', ''linea_Foo''] = Inr demo_registries"
  by code_simp

lemma demo_registered: "registered (ArmMethodRegistries demo_registries)"
  by (rule registered.arm [OF registered.register [OF registered.start demo_registration]])

text \<open>
  C30. Whatever namespaces an operator registers during start-up, a globally blocked method (matched
  up to case and surrounding white space) is never forwarded to the node and never part of the
  expansion of a "*" entry.
\<close>

theorem blocked_never_forwarded:
  assumes "registered reg" "IsMethodBlocked m"
  shows "\<not> IsForwardableMethod reg m \<and> \<not> InWildcardExpansion reg m \<and> m \<notin> set (AllAllowedMethods reg)"
  using assms forwardable_not_blocked [OF registered_ok] InWildcardExpansion_forwardable
  by (auto simp: set_AllAllowedMethods)

theorem blocked_never_forwarded_witness:
  "IsMethodBlocked '' Debug_traceBlock'' \<and>
   \<not> IsForwardableMethod (ArmMethodRegistries demo_registries) '' Debug_traceBlock''"
proof -
  have "IsMethodBlocked '' Debug_traceBlock''" by code_simp
  with blocked_never_forwarded [OF demo_registered this] show ?thesis by simp
qed

text \<open>
  C31. A method that resolves to another method for access control is an operator alias: its own name
  shadows no built-in method in any spelling, and its target is a built-in method in canonical
  spelling that is neither globally blocked nor one whose protection depends on its literal name.
  Built-in methods themselves always resolve to themselves and are never passthrough.
\<close>

theorem alias_resolution_protected:
  assumes "registered reg"
  shows "(ResolveMethodAlias reg m \<noteq> m \<longrightarrow>
            \<not> IsStandardMethod m \<and> IsCatalogMethod (ResolveMethodAlias reg m)
            \<and> ResolveMethodAlias reg m \<notin> set specialDispatchMethods)
         \<and> (IsStandardMethod m \<longrightarrow> ResolveMethodAlias reg m = m \<and> \<not> IsPassthroughMethod reg m)"
proof -
  note ok = registered_ok [OF assms]
  show ?thesis
    by (auto simp: ResolveMethodAlias_def IsPassthroughMethod_def ValidateExtraMethod_ok ValidateAliasTarget_ok
        split: option.splits dest!: alias_valid [OF ok] passthrough_valid [OF ok])
qed

theorem alias_resolution_protected_witness:
  "ResolveMethodAlias (ArmMethodRegistries demo_registries) ''linea_estimateGas'' = ''eth_estimateGas'' \<and>
   IsCatalogMethod ''eth_estimateGas''"
proof -
  have r: "ResolveMethodAlias (ArmMethodRegistries demo_registries) ''linea_estimateGas'' = ''eth_estimateGas''"
    by (simp add: ResolveMethodAlias_def ArmMethodRegistries_def demo_registries_def)
  with alias_resolution_protected [OF demo_registered, of "''linea_estimateGas''"] show ?thesis by simp
qed

text \<open>
  The list that a "*" entry is expanded to before it is stored is sorted, free of duplicates and
  consists of exactly the methods a "*" entry grants when it is read.
\<close>

theorem wildcard_list_exact:
  "sorted (AllAllowedMethods reg) \<and> distinct (AllAllowedMethods reg)
   \<and> (m \<in> set (AllAllowedMethods reg)) = InWildcardExpansion reg m"
  by (simp add: set_AllAllowedMethods) (simp add: AllAllowedMethods_def)

end
