(* ===== verification/Rbac_Models.thy ===== *)
theory Rbac_Models
  imports Method_Catalog
begin

text \<open>
  The data model of the access layer: \<^verbatim>\<open>internal/rbac/models.go\<close> and
  \<^verbatim>\<open>internal/evm/precompile/precompile.go\<close>. Each struct is a record whose fields carry the
  Go names behind a short prefix. A pointer, and a slice whose nil and empty values the code tells
  apart, is an option. Every method of \<^verbatim>\<open>EffectivePermissions\<close> is a function on the record; the
  ones that consult the method registries take them as their first argument.
\<close>

section \<open>Claims\<close>

definition ClaimAdmin :: claim where
  "ClaimAdmin = ''admin''"

definition ClaimUpgrade :: claim where
  "ClaimUpgrade = ''upgrade''"

definition ClaimDeploy :: claim where
  "ClaimDeploy = ''deploy''"

definition AllClaims :: "claim list" where
  "AllClaims = [ClaimAdmin, ClaimUpgrade, ClaimDeploy]"

definition claimImplications :: "(claim \<times> claim list) list" where
  "claimImplications = [(ClaimAdmin, [ClaimDeploy, ClaimUpgrade]), (ClaimDeploy, []), (ClaimUpgrade, [])]"

definition implied_claims :: "claim \<Rightarrow> claim list" where
  "implied_claims c = (case map_of claimImplications c of None \<Rightarrow> [] | Some cs \<Rightarrow> cs)"

definition ExpandClaims :: "claim list \<Rightarrow> claim list" where
  "ExpandClaims claims = sort (remdups (concat (map (\<lambda>c. c # implied_claims c) claims)))"

definition DefaultOrgID :: string where
  "DefaultOrgID = ''00000000-0000-0000-0000-000000000001''"

definition DefaultGroupID :: string where
  "DefaultGroupID = ''00000000-0000-0000-0000-000000000001''"

definition AnonymousOrgID :: string where
  "AnonymousOrgID = ''00000000-0000-0000-0000-000000000002''"

definition AnonymousGroupID :: string where
  "AnonymousGroupID = ''00000000-0000-0000-0000-000000000002''"

datatype membership_source = MembershipSourceAdmin | MembershipSourceZKAttested

section \<open>Stored rows\<close>

record organization =
  org_ID :: string
  org_Slug :: string
  org_Name :: string
  org_Settings :: "(string \<times> json) list"
  org_IsSystem :: bool
  org_CreatedAt :: "Go_Prelude.time"
  org_UpdatedAt :: "Go_Prelude.time"

record group =
  grp_ID :: string
  grp_OrgID :: string
  grp_ParentID :: "string option"
  grp_Slug :: string
  grp_Name :: string
  grp_Description :: string
  grp_Depth :: int
  grp_Path :: string
  grp_IsOrgAdmin :: bool
  grp_IsOrgReadonlyAdmin :: bool
  grp_IsSystem :: bool
  grp_AutoCreated :: bool
  grp_CreatedAt :: "Go_Prelude.time"
  grp_UpdatedAt :: "Go_Prelude.time"

record contract =
  con_ID :: string
  con_OrgID :: string
  con_Address :: string
  con_Name :: string
  con_ABI :: string
  con_DeployedByUserID :: "string option"
  con_DeployedAt :: "Go_Prelude.time option"
  con_Metadata :: "(string \<times> json) list"
  con_AllowVisibleToUnlock :: bool
  con_EventsAllowDynamicPayload :: bool
  con_CreatedAt :: "Go_Prelude.time"
  con_UpdatedAt :: "Go_Prelude.time"

record param_rule =
  pr_Index :: int
  pr_MustBe :: string

record function_rule =
  fr_Selector :: string
  fr_ParamRules :: "param_rule list"

record event_rule =
  er_Topic0 :: string
  er_Name :: string
  er_ParamRules :: "param_rule list"

record event_rules_field =
  erf_Wildcard :: bool
  erf_Rules :: "event_rule list"

record contract_grant =
  cg_ID :: string
  cg_ContractID :: string
  cg_GroupID :: string
  cg_Functions :: "function_rule list option"
  cg_EventRules :: "event_rules_field option"
  cg_CreatedAt :: "Go_Prelude.time"
  cg_UpdatedAt :: "Go_Prelude.time"

record group_access =
  ga_ID :: string
  ga_GroupID :: string
  ga_AllowedMethods :: "string list"
  ga_Claims :: "claim list"
  ga_RPCAPIKey :: "string option"
  ga_VerboseErrors :: bool
  ga_CreatedAt :: "Go_Prelude.time"
  ga_UpdatedAt :: "Go_Prelude.time"

record user =
  usr_ID :: string
  usr_ExternalID :: string
  usr_KYC :: bool
  usr_Banned :: bool
  usr_Note :: string
  usr_AuthTenantID :: "string option"
  usr_Metadata :: "(string \<times> json) list"
  usr_CreatedAt :: "Go_Prelude.time"
  usr_UpdatedAt :: "Go_Prelude.time"

record user_membership =
  um_ID :: string
  um_UserID :: string
  um_GroupID :: string
  um_Source :: membership_source
  um_ZKCredentialRef :: string
  um_ExpiresAt :: "Go_Prelude.time option"
  um_CreatedAt :: "Go_Prelude.time"
  um_UpdatedAt :: "Go_Prelude.time"

record preregistered_address =
  pa_ID :: string
  pa_OrgID :: string
  pa_Address :: string
  pa_Factory :: string
  pa_Salt :: bytes
  pa_Note :: string
  pa_ConstructorABI :: string
  pa_CreatedAt :: "Go_Prelude.time"
  pa_UsedAt :: "Go_Prelude.time option"

record contract_access =
  ca_Claims :: "claim list"
  ca_Functions :: "function_rule list option"
  ca_EventRules :: "event_rules_field option"

record effective_permissions =
  ep_ID :: string
  ep_UserID :: string
  ep_OrgID :: string
  ep_AllowedMethods :: "string list"
  ep_ContractAccess :: "(string \<times> contract_access) list"
  ep_Claims :: "claim list"
  ep_RPCAPIKey :: string
  ep_ComputedAt :: "Go_Prelude.time"
  ep_ExpiresAt :: "Go_Prelude.time"

record membership_with_details =
  mwd_Membership :: user_membership
  mwd_Group :: group

record access_check_request =
  acr_UserExternalID :: string
  acr_OrgSlug :: string
  acr_OrgID :: string
  acr_Method :: string
  acr_AccessMethod :: string
  acr_Params :: "json list"
  acr_TargetAddress :: string
  acr_FunctionSelector :: string
  acr_Calldata :: "bytes option"
  acr_RequiredClaims :: "claim list"
  acr_BypassCache :: bool

record access_check_result =
  acx_Allowed :: bool
  acx_AuthRequired :: bool
  acx_Reason :: string
  acx_OrgID :: string
  acx_UserID :: string
  acx_RPCAPIKey :: string
  acx_Claims :: "claim list"

section \<open>Event rules\<close>

definition IsWildcard :: "event_rules_field \<Rightarrow> bool" where
  "IsWildcard f = erf_Wildcard f"

definition IsDeny :: "event_rules_field \<Rightarrow> bool" where
  "IsDeny f = (\<not> erf_Wildcard f \<and> erf_Rules f = [])"

definition GetRules :: "event_rules_field \<Rightarrow> event_rule list" where
  "GetRules f = (if erf_Wildcard f then [] else erf_Rules f)"

text \<open>
  The JSON form of event rules, at the level of JSON values. \<^verbatim>\<open>json.Marshal\<close> of a struct
  writes its tagged fields in order and leaves out an empty \<^verbatim>\<open>omitempty\<close> field;
  \<^verbatim>\<open>json.Unmarshal\<close> into a struct starts from the zero value, matches keys exactly or else up to
  case, ignores unknown keys and \<^verbatim>\<open>null\<close>, and fails on a value of the wrong type.
\<close>

definition param_rule_json :: "param_rule \<Rightarrow> json" where
  "param_rule_json r = JObj [(''index'', JNum (itoa (pr_Index r))), (''must_be'', JStr (pr_MustBe r))]"

definition event_rule_json :: "event_rule \<Rightarrow> json" where
  "event_rule_json r =
     JObj ([(''topic0'', JStr (er_Topic0 r)), (''name'', JStr (er_Name r))]
           @ (if er_ParamRules r = [] then []
              else [(''param_rules'', JArr (map param_rule_json (er_ParamRules r)))]))"

definition MarshalJSON :: "event_rules_field \<Rightarrow> json" where
  "MarshalJSON f =
     (if erf_Wildcard f then JStr ''*''
      else if erf_Rules f = [] then JNull
      else JArr (map event_rule_json (erf_Rules f)))"

definition struct_field :: "string list \<Rightarrow> string \<Rightarrow> string option" where
  "struct_field names key =
     (if key \<in> set names then Some key else find (\<lambda>n. equal_fold n key) names)"

fun json_string :: "string \<Rightarrow> json \<Rightarrow> string option" where
  "json_string old (JStr s) = Some s"
| "json_string old JNull = Some old"
| "json_string old _ = None"

fun json_int :: "int \<Rightarrow> json \<Rightarrow> int option" where
  "json_int old (JNum n) = parse_int n"
| "json_int old JNull = Some old"
| "json_int old _ = None"

fun json_slice :: "(json \<Rightarrow> 'a option) \<Rightarrow> json \<Rightarrow> 'a list option" where
  "json_slice dec (JArr vs) = those (map dec vs)"
| "json_slice dec JNull = Some []"
| "json_slice dec _ = None"

fun json_struct :: "(string \<times> json \<Rightarrow> 'a \<Rightarrow> 'a option) \<Rightarrow> 'a \<Rightarrow> json \<Rightarrow> 'a option" where
  "json_struct upd zero (JObj kvs) =
     fold (\<lambda>kv acc. case acc of None \<Rightarrow> None | Some v \<Rightarrow> upd kv v) kvs (Some zero)"
| "json_struct upd zero JNull = Some zero"
| "json_struct upd zero _ = None"

definition param_rule_upd :: "string \<times> json \<Rightarrow> param_rule \<Rightarrow> param_rule option" where
  "param_rule_upd kv r =
     (case struct_field [''index'', ''must_be''] (fst kv) of
        None \<Rightarrow> Some r
      | Some f \<Rightarrow>
          if f = ''index'' then map_option (\<lambda>i. r\<lparr>pr_Index := i\<rparr>) (json_int (pr_Index r) (snd kv))
          else map_option (\<lambda>s. r\<lparr>pr_MustBe := s\<rparr>) (json_string (pr_MustBe r) (snd kv)))"

definition param_rule_of_json :: "json \<Rightarrow> param_rule option" where
  "param_rule_of_json = json_struct param_rule_upd \<lparr>pr_Index = 0, pr_MustBe = ''''\<rparr>"

definition event_rule_upd :: "string \<times> json \<Rightarrow> event_rule \<Rightarrow> event_rule option" where
  "event_rule_upd kv r =
     (case struct_field [''topic0'', ''name'', ''param_rules''] (fst kv) of
        None \<Rightarrow> Some r
      | Some f \<Rightarrow>
          if f = ''topic0'' then map_option (\<lambda>s. r\<lparr>er_Topic0 := s\<rparr>) (json_string (er_Topic0 r) (snd kv))
          else if f = ''name'' then map_option (\<lambda>s. r\<lparr>er_Name := s\<rparr>) (json_string (er_Name r) (snd kv))
          else map_option (\<lambda>ps. r\<lparr>er_ParamRules := ps\<rparr>) (json_slice param_rule_of_json (snd kv)))"

definition event_rule_of_json :: "json \<Rightarrow> event_rule option" where
  "event_rule_of_json = json_struct event_rule_upd \<lparr>er_Topic0 = '''', er_Name = '''', er_ParamRules = []\<rparr>"

definition UnmarshalJSON :: "json \<Rightarrow> event_rules_field res" where
  "UnmarshalJSON v =
     (case v of
        JNull \<Rightarrow> Inr \<lparr>erf_Wildcard = False, erf_Rules = []\<rparr>
      | JStr s \<Rightarrow>
          if s = ''*'' then Inr \<lparr>erf_Wildcard = True, erf_Rules = []\<rparr>
          else Inl (''invalid event_rules string: '' @ fmt_q s @ '' (only \"*\" is supported)'')
      | _ \<Rightarrow>
          (case json_slice event_rule_of_json v of
             None \<Rightarrow> Inl ''event_rules must be \"*\", null, or an array''
           | Some rules \<Rightarrow> Inr \<lparr>erf_Wildcard = False, erf_Rules = rules\<rparr>))"

section \<open>Precompiled contracts\<close>

definition PrecompileAddresses :: "(string \<times> string) list" where
  "PrecompileAddresses =
     [(''0x0000000000000000000000000000000000000001'', ''ecrecover''),
      (''0x0000000000000000000000000000000000000002'', ''sha256''),
      (''0x0000000000000000000000000000000000000003'', ''ripemd160''),
      (''0x0000000000000000000000000000000000000004'', ''identity''),
      (''0x0000000000000000000000000000000000000005'', ''modexp''),
      (''0x0000000000000000000000000000000000000006'', ''ecAdd''),
      (''0x0000000000000000000000000000000000000007'', ''ecMul''),
      (''0x0000000000000000000000000000000000000008'', ''ecPairing''),
      (''0x0000000000000000000000000000000000000009'', ''blake2f'')]"

definition normalizeAddress :: "string \<Rightarrow> string" where
  "normalizeAddress addr =
     (let addr = to_lower (trim_prefix addr ''0x'')
      in ''0x'' @ replicate (40 - length addr) CHR ''0'' @ addr)"

definition IsPrecompileAddress :: "string \<Rightarrow> bool" where
  "IsPrecompileAddress addr = (map_of PrecompileAddresses (normalizeAddress addr) \<noteq> None)"

definition GetPrecompileName :: "string \<Rightarrow> string" where
  "GetPrecompileName addr =
     (case map_of PrecompileAddresses (normalizeAddress addr) of Some n \<Rightarrow> n | None \<Rightarrow> '''')"

section \<open>Effective permissions\<close>

definition HasMethod :: "registries \<Rightarrow> effective_permissions \<Rightarrow> string \<Rightarrow> bool" where
  "HasMethod reg e method =
     (if \<not> IsForwardableMethod reg method then False
      else if method \<in> set (ep_AllowedMethods e) then True
      else ''*'' \<in> set (ep_AllowedMethods e) \<and> InWildcardExpansion reg method)"

definition GetContractAccess :: "effective_permissions \<Rightarrow> string \<Rightarrow> contract_access option" where
  "GetContractAccess e address =
     (let addr = to_lower address in
      case map_of (ep_ContractAccess e) addr of
        Some access \<Rightarrow> Some access
      | None \<Rightarrow>
          if IsPrecompileAddress addr
          then Some \<lparr>ca_Claims = [], ca_Functions = None, ca_EventRules = None\<rparr>
          else None)"

definition hasClaim :: "claim list \<Rightarrow> claim \<Rightarrow> bool" where
  "hasClaim claims target = (target \<in> set claims)"

definition HasContractClaim :: "effective_permissions \<Rightarrow> string \<Rightarrow> claim \<Rightarrow> bool" where
  "HasContractClaim e address c =
     (case GetContractAccess e address of None \<Rightarrow> False | Some access \<Rightarrow> c \<in> set (ca_Claims access))"

definition HasFunctionSelector :: "effective_permissions \<Rightarrow> string \<Rightarrow> string \<Rightarrow> bool" where
  "HasFunctionSelector e address selector =
     (case GetContractAccess e address of
        None \<Rightarrow> False
      | Some access \<Rightarrow>
          (case ca_Functions access of
             None \<Rightarrow> True
           | Some rules \<Rightarrow>
               if rules = [] then False
               else list_ex (\<lambda>rule. equal_fold (fr_Selector rule) selector) rules))"

definition GetFunctionRule :: "effective_permissions \<Rightarrow> string \<Rightarrow> string \<Rightarrow> function_rule option" where
  "GetFunctionRule e address selector =
     (case GetContractAccess e address of
        None \<Rightarrow> None
      | Some access \<Rightarrow>
          (case ca_Functions access of
             None \<Rightarrow> None
           | Some rules \<Rightarrow> find (\<lambda>rule. equal_fold (fr_Selector rule) selector) rules))"

definition GetEventRules :: "effective_permissions \<Rightarrow> string \<Rightarrow> event_rules_field option" where
  "GetEventRules e address =
     (case GetContractAccess e address of None \<Rightarrow> None | Some access \<Rightarrow> ca_EventRules access)"

definition IsContractRegistered :: "effective_permissions \<Rightarrow> string \<Rightarrow> bool" where
  "IsContractRegistered e address = (map_of (ep_ContractAccess e) (to_lower address) \<noteq> None)"

definition HasAdminOnContract :: "effective_permissions \<Rightarrow> string \<Rightarrow> bool" where
  "HasAdminOnContract e address = HasContractClaim e address ClaimAdmin"

definition HasContractAccess :: "effective_permissions \<Rightarrow> string \<Rightarrow> bool" where
  "HasContractAccess e address = (map_of (ep_ContractAccess e) (to_lower address) \<noteq> None)"

definition HasDefaultClaim :: "effective_permissions \<Rightarrow> claim \<Rightarrow> bool" where
  "HasDefaultClaim e c = (c \<in> set (ep_Claims e))"

definition HasClaim :: "contract_access \<Rightarrow> claim \<Rightarrow> bool" where
  "HasClaim ca c = (c \<in> set (ca_Claims ca))"

section \<open>Requests\<close>

definition EffectiveMethod :: "access_check_request \<Rightarrow> string" where
  "EffectiveMethod r = (if acr_AccessMethod r \<noteq> '''' then acr_AccessMethod r else acr_Method r)"

definition methodsToJudge :: "access_check_request \<Rightarrow> string list" where
  "methodsToJudge r =
     (let eff = EffectiveMethod r in if eff \<noteq> acr_Method r then [eff, acr_Method r] else [acr_Method r])"

definition anyMethodToJudge :: "access_check_request \<Rightarrow> (string \<Rightarrow> bool) \<Rightarrow> bool" where
  "anyMethodToJudge r judge = list_ex judge (methodsToJudge r)"

section \<open>Lemmas\<close>

subsection \<open>Claims\<close>

lemmas claim_defs = ClaimAdmin_def ClaimDeploy_def ClaimUpgrade_def

lemma implied_claims_simps [simp]:
  "implied_claims ClaimAdmin = [ClaimDeploy, ClaimUpgrade]"
  "implied_claims ClaimDeploy = []"
  "implied_claims ClaimUpgrade = []"
  by (simp_all add: implied_claims_def claimImplications_def claim_defs)

lemma implied_claims_in: "d \<in> set (implied_claims c) \<longleftrightarrow> c = ClaimAdmin \<and> (d = ClaimDeploy \<or> d = ClaimUpgrade)"
  by (auto simp: implied_claims_def claimImplications_def claim_defs)

lemma set_ExpandClaims:
  "set (ExpandClaims cs) = set cs \<union> (if ClaimAdmin \<in> set cs then {ClaimDeploy, ClaimUpgrade} else {})"
  by (auto simp: ExpandClaims_def implied_claims_in)

lemma ExpandClaims_idem: "ExpandClaims (ExpandClaims cs) = ExpandClaims cs"
proof -
  have "set (ExpandClaims (ExpandClaims cs)) = set (ExpandClaims cs)"
    by (auto simp: set_ExpandClaims claim_defs)
  then show ?thesis
    by (intro sorted_distinct_set_unique) (simp_all add: ExpandClaims_def)
qed

subsection \<open>Event rules\<close>

definition param_rule_ok :: "param_rule \<Rightarrow> bool" where
  "param_rule_ok r = int64_ok (pr_Index r)"

definition event_rules_ok :: "event_rules_field \<Rightarrow> bool" where
  "event_rules_ok f = list_all (\<lambda>r. list_all param_rule_ok (er_ParamRules r)) (erf_Rules f)"

lemma those_map_Some: "(\<And>x. x \<in> set xs \<Longrightarrow> f x = Some (g x)) \<Longrightarrow> those (map f xs) = Some (map g xs)"
  by (induction xs) auto

lemma those_map_inv: "(\<And>x. x \<in> set xs \<Longrightarrow> f (g x) = Some x) \<Longrightarrow> those (map f (map g xs)) = Some xs"
  using those_map_Some [of xs "f \<circ> g" "\<lambda>x. x"] by simp

lemma param_rule_roundtrip: "param_rule_ok r \<Longrightarrow> param_rule_of_json (param_rule_json r) = Some r"
  by (simp add: param_rule_of_json_def param_rule_json_def param_rule_upd_def struct_field_def
      param_rule_ok_def parse_int_itoa)

lemma event_rule_roundtrip:
  assumes "list_all param_rule_ok (er_ParamRules r)"
  shows "event_rule_of_json (event_rule_json r) = Some r"
proof -
  have "json_slice param_rule_of_json (JArr (map param_rule_json (er_ParamRules r))) = Some (er_ParamRules r)"
    using assms by (simp only: json_slice.simps) (rule those_map_inv, simp add: list_all_iff param_rule_roundtrip)
  then show ?thesis
    by (simp add: event_rule_of_json_def event_rule_json_def event_rule_upd_def struct_field_def)
qed

lemma Unmarshal_Marshal:
  assumes "event_rules_ok f"
  shows "UnmarshalJSON (MarshalJSON f) = Inr (if erf_Wildcard f then f\<lparr>erf_Rules := []\<rparr> else f)"
proof -
  have "json_slice event_rule_of_json (JArr (map event_rule_json (erf_Rules f))) = Some (erf_Rules f)"
    using assms unfolding json_slice.simps
    by (intro those_map_inv) (simp add: event_rules_ok_def list_all_iff event_rule_roundtrip)
  then show ?thesis
    by (cases f) (simp add: UnmarshalJSON_def MarshalJSON_def)
qed

subsection \<open>Methods\<close>

lemma HasMethod_iff:
  "HasMethod reg e m \<longleftrightarrow>
     IsForwardableMethod reg m \<and>
     (m \<in> set (ep_AllowedMethods e) \<or> ''*'' \<in> set (ep_AllowedMethods e) \<and> InWildcardExpansion reg m)"
  by (simp add: HasMethod_def)

lemma HasMethod_expand:
  assumes "registries_ok reg"
  shows "HasMethod reg (e\<lparr>ep_AllowedMethods := ExpandWildcardMethods reg (ep_AllowedMethods e)\<rparr>) m =
         HasMethod reg e m"
proof (cases "m = ''*''")
  case True
  then have "\<not> IsForwardableMethod reg m" using forwardable_no_star [OF assms, of m] by auto
  then show ?thesis by (simp add: HasMethod_iff)
next
  case False
  then show ?thesis by (auto simp: HasMethod_iff set_ExpandWildcardMethods)
qed

lemma HasMethod_blocked: "registries_ok reg \<Longrightarrow> HasMethod reg e m \<Longrightarrow> \<not> IsMethodBlocked m"
  by (auto simp: HasMethod_iff dest: forwardable_not_blocked)

subsection \<open>Contract access\<close>

lemma HasFunctionSelector_iff_rule:
  "HasFunctionSelector e a s \<longleftrightarrow>
     (\<exists>ca. GetContractAccess e a = Some ca \<and> (ca_Functions ca = None \<or> GetFunctionRule e a s \<noteq> None))"
proof -
  have "find P rules \<noteq> None \<longleftrightarrow> list_ex P rules" for P :: "function_rule \<Rightarrow> bool" and rules
    by (induction rules) auto
  then show ?thesis
    by (auto simp: HasFunctionSelector_def GetFunctionRule_def split: option.splits)
qed

lemma GetContractAccess_lower [simp]: "GetContractAccess e (to_lower a) = GetContractAccess e a"
  by (simp add: GetContractAccess_def)

lemma anyMethodToJudge_iff:
  "anyMethodToJudge r P \<longleftrightarrow> P (EffectiveMethod r) \<or> P (acr_Method r)"
  by (auto simp: anyMethodToJudge_def methodsToJudge_def Let_def)

section \<open>Properties\<close>

definition demo_perms :: effective_permissions where
  "demo_perms =
     \<lparr>ep_ID = ''p'', ep_UserID = ''u'', ep_OrgID = ''o'', ep_AllowedMethods = [''*'', ''eth_getProof''],
      ep_ContractAccess = [], ep_Claims = [], ep_RPCAPIKey = '''', ep_ComputedAt = 1, ep_ExpiresAt = 2\<rparr>"

text \<open>
  Storing the expansion of an allow-list that holds a "*" entry (the list the admin API writes)
  grants exactly the methods that the unexpanded list grants.
\<close>

theorem expansion_equivalent:
  assumes "registered reg"
  shows "HasMethod reg (e\<lparr>ep_AllowedMethods := ExpandWildcardMethods reg (ep_AllowedMethods e)\<rparr>) m =
         HasMethod reg e m"
  by (rule HasMethod_expand [OF registered_ok [OF assms]])

theorem expansion_equivalent_witness:
  "HasMethod empty_registries
     (demo_perms\<lparr>ep_AllowedMethods := ExpandWildcardMethods empty_registries (ep_AllowedMethods demo_perms)\<rparr>)
     ''eth_getProof''"
proof -
  have "HasMethod empty_registries demo_perms ''eth_getProof''" by code_simp
  with expansion_equivalent [OF registered.start, of demo_perms "''eth_getProof''"] show ?thesis by simp
qed

text \<open>
  Event rules survive their JSON form: decoding what was encoded gives the rules back, up to the
  rules of a wildcard field, which the encoding drops and no reader consults.
\<close>

theorem event_rules_roundtrip:
  assumes "event_rules_ok f"
  shows "UnmarshalJSON (MarshalJSON f) = Inr (if erf_Wildcard f then f\<lparr>erf_Rules := []\<rparr> else f)
         \<and> (\<forall>g. UnmarshalJSON (MarshalJSON f) = Inr g \<longrightarrow>
              IsWildcard g = IsWildcard f \<and> IsDeny g = IsDeny f \<and> GetRules g = GetRules f)"
  by (auto simp: Unmarshal_Marshal [OF assms] IsWildcard_def IsDeny_def GetRules_def)

theorem event_rules_roundtrip_witness:
  "UnmarshalJSON (MarshalJSON \<lparr>erf_Wildcard = False,
       erf_Rules = [\<lparr>er_Topic0 = ''0xddf2'', er_Name = ''Transfer'',
                      er_ParamRules = [\<lparr>pr_Index = 1, pr_MustBe = ''self''\<rparr>]\<rparr>]\<rparr>) =
   Inr \<lparr>erf_Wildcard = False,
       erf_Rules = [\<lparr>er_Topic0 = ''0xddf2'', er_Name = ''Transfer'',
                      er_ParamRules = [\<lparr>pr_Index = 1, pr_MustBe = ''self''\<rparr>]\<rparr>]\<rparr>"
  (is "UnmarshalJSON (MarshalJSON ?f) = _")
proof -
  have "event_rules_ok ?f" by (simp add: event_rules_ok_def param_rule_ok_def int64_ok_def)
  with event_rules_roundtrip [of ?f] show ?thesis by simp
qed

end
