(* ===== verification/Call_Shape.thy ===== *)
theory Call_Shape
  imports Rbac_Models
begin

text \<open>
  How the access layer reads the parameters of a JSON-RPC call: the call-shape classifier, the
  target, selector, calldata and block extractors and the Multicall detector of
  \<^verbatim>\<open>internal/rbac/access.go\<close>, the simulation-option policy of
  \<^verbatim>\<open>internal/rbac/state_overrides.go\<close> and the storage-slot tier of
  \<^verbatim>\<open>internal/rbac/storage_slots.go\<close>. Parameters are decoded JSON values; a JSON object is the
  association list of its members, in the order in which Go iterates over the map. The lemmas show
  that the readers agree with each other and that the classifiers fail closed.
\<close>

definition nth_param :: "json list \<Rightarrow> nat \<Rightarrow> json option" where
  "nth_param params i = (if i < length params then Some (params ! i) else None)"

section \<open>Multicall\<close>

definition MulticallAddresses :: "string list" where
  "MulticallAddresses =
     [''0xca11bde05977b3631167028862be2a173976ca11'',
      ''0x5ba1e12693dc8f9c48aad8770482f4739beed696'',
      ''0xeefba1e63905ef1d7acba5a8513c70307c1ce441'']"

definition MulticallSelectors :: "(string \<times> string) list" where
  "MulticallSelectors =
     [(''0x252dba42'', ''aggregate''), (''0x82ad56cb'', ''aggregate3''),
      (''0x174dea71'', ''aggregate3Value''), (''0xc3077fa9'', ''blockAndAggregate''),
      (''0xbce38bd7'', ''tryAggregate''), (''0x399542e9'', ''tryBlockAndAggregate'')]"

definition IsMulticallTarget :: "string \<Rightarrow> bool" where
  "IsMulticallTarget address = (to_lower address \<in> set MulticallAddresses)"

definition IsMulticallData :: "string \<Rightarrow> bool" where
  "IsMulticallData data =
     (if length data < 10 then False
      else map_of MulticallSelectors (to_lower (take 10 data)) \<noteq> None)"

definition DetectMulticall :: "string \<Rightarrow> json list \<Rightarrow> bool \<times> string" where
  "DetectMulticall method params =
     (if method \<noteq> ''eth_call'' \<and> method \<noteq> ''eth_estimateGas'' \<and> method \<noteq> ''eth_sendTransaction''
      then (False, '''')
      else case param_obj params of
        None \<Rightarrow> (False, '''')
      | Some callObj \<Rightarrow>
          (case str_field callObj ''to'' of
             None \<Rightarrow> (False, '''')
           | Some to \<Rightarrow>
               if to = '''' then (False, '''')
               else if \<not> IsMulticallTarget to then (False, '''')
               else
                 let data = (case str_field callObj ''data'' of
                               Some d \<Rightarrow> if d = '''' \<or> d = ''0x'' then str_field callObj ''input'' else Some d
                             | None \<Rightarrow> str_field callObj ''input'')
                 in (case data of
                       None \<Rightarrow> (False, '''')
                     | Some d \<Rightarrow>
                         if d = '''' then (False, '''')
                         else if IsMulticallData d
                         then (True, ''multicall to '' @ to @ '' detected - inner calls cannot be validated'')
                         else (False, ''''))))"

section \<open>The shape of a call object\<close>

datatype CallShape = CallShapeAbsent | CallShapeTargeted | CallShapeCreation | CallShapeMalformed

definition callShapeFields :: "string list" where
  "callShapeFields = [''to'', ''from'', ''data'', ''input'', ''value'']"

definition normalizeCallHex :: "string \<Rightarrow> string" where
  "normalizeCallHex s = (let s = to_lower (trim_space s) in if s = ''0x'' then '''' else s)"

definition isCreationTo :: "string \<Rightarrow> bool" where
  "isCreationTo to = (let to = to_lower (trim_space to) in to = '''' \<or> to = ''0x'')"

definition callDataAndInputDiffer :: "(string \<times> json) list \<Rightarrow> bool" where
  "callDataAndInputDiffer callObj =
     (case (map_of callObj ''data'', map_of callObj ''input'') of
        (Some data, Some input) \<Rightarrow>
          if data = JNull \<or> input = JNull then False
          else (case (as_str data, as_str input) of
                  (Some dataStr, Some inputStr) \<Rightarrow> normalizeCallHex dataStr \<noteq> normalizeCallHex inputStr
                | _ \<Rightarrow> True)
      | _ \<Rightarrow> False)"

definition case_variant_key :: "(string \<times> json) list \<Rightarrow> bool" where
  "case_variant_key callObj =
     list_ex (\<lambda>(key, _). list_ex (\<lambda>field. key \<noteq> field \<and> equal_fold key field) callShapeFields) callObj"

definition ClassifyCallShape :: "json list \<Rightarrow> CallShape" where
  "ClassifyCallShape params =
     (case params of
        [] \<Rightarrow> CallShapeAbsent
      | p # _ \<Rightarrow>
          (case as_obj p of
             None \<Rightarrow> CallShapeMalformed
           | Some callObj \<Rightarrow>
               if case_variant_key callObj then CallShapeMalformed
               else if callDataAndInputDiffer callObj then CallShapeMalformed
               else (case map_of callObj ''to'' of
                       None \<Rightarrow> CallShapeCreation
                     | Some to \<Rightarrow>
                         if to = JNull then CallShapeCreation
                         else (case as_str to of
                                 None \<Rightarrow> CallShapeMalformed
                               | Some toStr \<Rightarrow>
                                   if isCreationTo toStr then CallShapeCreation else CallShapeTargeted))))"

definition IsContractDeployment :: "string \<Rightarrow> json list \<Rightarrow> bool" where
  "IsContractDeployment method params =
     (if to_lower (trim_space method) \<notin>
           {''eth_sendtransaction'', ''eth_estimategas'', ''eth_call'', ''eth_createaccesslist''}
      then False
      else (case ClassifyCallShape params of
              CallShapeCreation \<Rightarrow> True
            | CallShapeMalformed \<Rightarrow> True
            | _ \<Rightarrow> False))"

definition ClassifyOperation :: "string \<Rightarrow> json list \<Rightarrow> claim" where
  "ClassifyOperation method params =
     (let method = to_lower (trim_space method)
      in if IsContractDeployment method params then ClaimDeploy else '''')"

definition extractDeploymentBytecode :: "string \<Rightarrow> json list \<Rightarrow> string" where
  "extractDeploymentBytecode method params =
     (if to_lower method \<notin>
           {''eth_sendtransaction'', ''eth_estimategas'', ''eth_call'', ''eth_createaccesslist''}
      then ''''
      else case param_obj params of
        None \<Rightarrow> ''''
      | Some txObj \<Rightarrow>
          (case str_field txObj ''data'' of
             Some data \<Rightarrow> if normalizeCallHex data \<noteq> '''' then data
                         else (case str_field txObj ''input'' of
                                 Some input \<Rightarrow> if normalizeCallHex input \<noteq> '''' then input else ''''
                               | None \<Rightarrow> '''')
           | None \<Rightarrow> (case str_field txObj ''input'' of
                        Some input \<Rightarrow> if normalizeCallHex input \<noteq> '''' then input else ''''
                      | None \<Rightarrow> '''')))"

definition nonempty_hex_field :: "(string \<times> json) list \<Rightarrow> string \<Rightarrow> string option" where
  "nonempty_hex_field obj key =
     (case str_field obj key of
        Some s \<Rightarrow> if s \<noteq> '''' \<and> s \<noteq> ''0x'' then Some s else None
      | None \<Rightarrow> None)"

definition extractCalldata :: "string \<Rightarrow> json list \<Rightarrow> bytes option" where
  "extractCalldata method params =
     (if method \<noteq> ''eth_sendTransaction'' \<and> method \<noteq> ''eth_call'' \<and> method \<noteq> ''eth_estimateGas''
      then None
      else case param_obj params of
        None \<Rightarrow> None
      | Some txObj \<Rightarrow>
          (case (case nonempty_hex_field txObj ''data'' of
                   Some d \<Rightarrow> Some d
                 | None \<Rightarrow> nonempty_hex_field txObj ''input'') of
             None \<Rightarrow> None
           | Some hexData \<Rightarrow> decode_hex (trim_prefix hexData ''0x'')))"

definition isBasicAddressQuery :: "string \<Rightarrow> bool" where
  "isBasicAddressQuery method = (method = ''eth_getBalance'' \<or> method = ''eth_getTransactionCount'')"

definition has_calldata :: "(string \<times> json) list \<Rightarrow> string \<Rightarrow> bool" where
  "has_calldata txObj key =
     (case str_field txObj key of
        None \<Rightarrow> False
      | Some data \<Rightarrow> (let d = trim_space data in d \<noteq> '''' \<and> d \<noteq> ''0x'' \<and> d \<noteq> ''0X''))"

definition isValueTransferParams :: "json list \<Rightarrow> bool" where
  "isValueTransferParams params =
     (case param_obj params of
        None \<Rightarrow> False
      | Some txObj \<Rightarrow>
          if has_calldata txObj ''data'' then False
          else if has_calldata txObj ''input'' then False
          else True)"

section \<open>Targets and selectors\<close>

definition GetTargetAddress :: "string \<Rightarrow> json list \<Rightarrow> string" where
  "GetTargetAddress method params =
     (case params of
        [] \<Rightarrow> ''''
      | p # _ \<Rightarrow>
          if method \<in> {''eth_call'', ''eth_estimateGas'', ''eth_createAccessList''}
          then (case as_obj p of
                  None \<Rightarrow> ''''
                | Some callObj \<Rightarrow>
                    (case str_field callObj ''to'' of
                       None \<Rightarrow> ''''
                     | Some to \<Rightarrow> if isCreationTo to then '''' else to_lower to))
          else if method = ''eth_sendTransaction''
          then (case as_obj p of
                  None \<Rightarrow> ''''
                | Some txObj \<Rightarrow>
                    (case str_field txObj ''to'' of
                       None \<Rightarrow> ''''
                     | Some to \<Rightarrow>
                         (let addr = to_lower (trim_space to)
                          in if addr = ''0x'' \<or> addr = '''' then '''' else addr)))
          else if method \<in> {''eth_getCode'', ''eth_getStorageAt'', ''eth_getBalance'',
                            ''eth_getTransactionCount'', ''eth_getProof''}
          then (case as_str p of Some addr \<Rightarrow> to_lower addr | None \<Rightarrow> '''')
          else if method = ''eth_getLogs''
          then (case as_obj p of
                  None \<Rightarrow> ''''
                | Some filt \<Rightarrow>
                    (case map_of filt ''address'' of
                       Some (JStr addr) \<Rightarrow> to_lower addr
                     | Some (JArr (JStr s # _)) \<Rightarrow> to_lower s
                     | _ \<Rightarrow> ''''))
          else '''')"

definition GetFunctionSelector :: "string \<Rightarrow> json list \<Rightarrow> string" where
  "GetFunctionSelector method params =
     (if method \<notin> {''eth_call'', ''eth_estimateGas'', ''eth_sendTransaction''} then ''''
      else case param_obj params of
        None \<Rightarrow> ''''
      | Some callObj \<Rightarrow>
          (case (case str_field callObj ''data'' of
                   Some data \<Rightarrow> if 10 \<le> length data then Some data else None
                 | None \<Rightarrow> None) of
             Some data \<Rightarrow> to_lower (take 10 data)
           | None \<Rightarrow>
               (case str_field callObj ''input'' of
                  Some input \<Rightarrow> if 10 \<le> length input then to_lower (take 10 input) else ''''
                | None \<Rightarrow> '''')))"

definition extractGetLogsAddresses :: "(string \<times> json) list \<Rightarrow> string list" where
  "extractGetLogsAddresses filt =
     (case map_of filt ''address'' of
        Some (JStr addr) \<Rightarrow> if addr \<noteq> '''' then [to_lower addr] else []
      | Some (JArr as) \<Rightarrow> map to_lower (filter (\<lambda>a. a \<noteq> '''') (List.map_filter as_str as))
      | _ \<Rightarrow> [])"

section \<open>Historical state\<close>

definition block_param_index :: "string \<Rightarrow> nat option" where
  "block_param_index method =
     (if to_lower method \<in> {''eth_call'', ''eth_getbalance'', ''eth_getcode'', ''eth_gettransactioncount''}
      then Some 1
      else if to_lower method \<in> {''eth_getstorageat'', ''eth_getproof''} then Some 2
      else if to_lower method = ''debug_tracecall'' then Some 1
      else None)"

definition extractBlockParam :: "string \<Rightarrow> json list \<Rightarrow> string" where
  "extractBlockParam method params =
     (if params = [] then ''latest''
      else case block_param_index method of
        None \<Rightarrow> ''latest''
      | Some i \<Rightarrow>
          (case nth_param params i of
             None \<Rightarrow> ''latest''
           | Some JNull \<Rightarrow> ''latest''
           | Some (JStr blockStr) \<Rightarrow> if blockStr = '''' then ''latest'' else blockStr
           | Some _ \<Rightarrow> ''historical''))"

definition isHistoricalBlock :: "string \<Rightarrow> bool" where
  "isHistoricalBlock blockParam =
     (if blockParam = '''' then False
      else to_lower blockParam \<notin> {''latest'', ''pending'', ''safe'', ''finalized'', ''earliest''})"

definition historicalCheckMethods :: "string list" where
  "historicalCheckMethods =
     [''eth_call'', ''eth_getstorageat'', ''eth_getbalance'', ''eth_getcode'', ''eth_gettransactioncount'',
      ''eth_getproof'', ''debug_tracecall'']"

definition IsHistoricalStateQuery :: "string \<Rightarrow> json list \<Rightarrow> bool \<times> string" where
  "IsHistoricalStateQuery method params =
     (let method = to_lower (trim_space method) in
      if method \<notin> set historicalCheckMethods then (False, '''')
      else if isHistoricalBlock (extractBlockParam method params)
      then (True, ''historical state queries not permitted'')
      else (False, ''''))"

definition historicalStateQuery :: "access_check_request \<Rightarrow> bool \<times> string" where
  "historicalStateQuery r =
     (case find (\<lambda>m. fst (IsHistoricalStateQuery m (acr_Params r))) (methodsToJudge r) of
        Some m \<Rightarrow> IsHistoricalStateQuery m (acr_Params r)
      | None \<Rightarrow> (False, ''''))"

section \<open>Simulation options\<close>

definition StateOverrideDeniedReason :: string where
  "StateOverrideDeniedReason = ''state, code and block overrides are not permitted''"

definition overrideKindState :: string where
  "overrideKindState = ''state_override''"

definition overrideKindBlock :: string where
  "overrideKindBlock = ''block_override''"

definition overrideKindMalformed :: string where
  "overrideKindMalformed = ''malformed_override''"

definition maxOverrideAwareParams :: nat where
  "maxOverrideAwareParams = 4"

definition eip1898BlockKeys :: "string list" where
  "eip1898BlockKeys = [''blockNumber'', ''blockHash'', ''requireCanonical'']"

definition debugOverrideKeys :: "(string \<times> string) list" where
  "debugOverrideKeys =
     [(''stateOverrides'', overrideKindState), (''stateOverride'', overrideKindState),
      (''blockOverrides'', overrideKindBlock), (''blockOverride'', overrideKindBlock),
      (''txIndex'', overrideKindBlock)]"

definition keyFoldsTo :: "string \<Rightarrow> string \<Rightarrow> bool" where
  "keyFoldsTo key name = (equal_fold key name \<or> to_lower key = to_lower name)"

definition isEIP1898BlockKey :: "string \<Rightarrow> bool" where
  "isEIP1898BlockKey key = list_ex (\<lambda>k. equal_fold key k) eip1898BlockKeys"

definition classifyOverrideValue :: "json \<Rightarrow> string \<Rightarrow> bool \<times> string" where
  "classifyOverrideValue v kind =
     (if v = JNull then (False, '''')
      else case as_obj v of
        None \<Rightarrow> (True, overrideKindMalformed)
      | Some m \<Rightarrow> if m = [] then (False, '''') else (True, kind))"

definition classifyOverrideSlot :: "json list \<Rightarrow> nat \<Rightarrow> string \<Rightarrow> bool \<times> string" where
  "classifyOverrideSlot params idx kind =
     (case nth_param params idx of None \<Rightarrow> (False, '''') | Some v \<Rightarrow> classifyOverrideValue v kind)"

definition classifyBlockRefSlot :: "json list \<Rightarrow> nat \<Rightarrow> bool \<times> string" where
  "classifyBlockRefSlot params idx =
     (case nth_param params idx of
        None \<Rightarrow> (False, '''')
      | Some JNull \<Rightarrow> (False, '''')
      | Some (JStr _) \<Rightarrow> (False, '''')
      | Some (JObj kvs) \<Rightarrow>
          if list_ex (\<lambda>(key, _). \<not> isEIP1898BlockKey key) kvs then (True, overrideKindState)
          else (False, '''')
      | Some _ \<Rightarrow> (True, overrideKindMalformed))"

definition debug_override_kind :: "(string \<times> json) list \<Rightarrow> string option" where
  "debug_override_kind cfg =
     (case concat (map (\<lambda>(key, _). filter (\<lambda>k. keyFoldsTo key (fst k)) debugOverrideKeys) cfg) of
        [] \<Rightarrow> None
      | k # _ \<Rightarrow> Some (snd k))"

definition detectStateOverrideForMethod :: "string \<Rightarrow> json list \<Rightarrow> bool \<times> string" where
  "detectStateOverrideForMethod resolved params =
     (if resolved \<in> {''eth_call'', ''eth_estimateGas'', ''eth_createAccessList''}
      then
        if maxOverrideAwareParams < length params then (True, overrideKindMalformed)
        else if fst (classifyBlockRefSlot params 1) then (True, snd (classifyBlockRefSlot params 1))
        else if resolved = ''eth_createAccessList'' \<and> (\<exists>b \<in> {True, False}. nth_param params 2 = Some (JBool b))
        then classifyOverrideSlot params 3 overrideKindBlock
        else if fst (classifyOverrideSlot params 2 overrideKindState)
        then (True, snd (classifyOverrideSlot params 2 overrideKindState))
        else if fst (classifyOverrideSlot params 3 overrideKindBlock)
        then (True, snd (classifyOverrideSlot params 3 overrideKindBlock))
        else (False, '''')
      else if resolved = ''debug_traceCall''
      then (case nth_param params 2 of
              Some (JObj cfg) \<Rightarrow>
                (case debug_override_kind cfg of Some kind \<Rightarrow> (True, kind) | None \<Rightarrow> (False, ''''))
            | _ \<Rightarrow> (False, ''''))
      else (False, ''''))"

definition DetectStateOverride :: "registries \<Rightarrow> string \<Rightarrow> json list \<Rightarrow> bool \<times> string" where
  "DetectStateOverride reg method params =
     (let raw = CanonicalizeMethod method in
      if fst (detectStateOverrideForMethod raw params)
      then (True, snd (detectStateOverrideForMethod raw params))
      else let resolved = CanonicalizeMethod (ResolveMethodAlias reg raw) in
        if resolved \<noteq> raw then detectStateOverrideForMethod resolved params
        else (False, ''''))"

section \<open>Storage reads\<close>

definition erc1967Slots :: "string list" where
  "erc1967Slots =
     [''0x360894a13ba1a3210667c828492db98dca3e2076cc3735a920a3ca505d382bbc'',
      ''0xb53127684a568b3173ae13b9f8a6016e243e63b6e8ee1178d6a717850b5d6103'',
      ''0xa3f0ad74e5423aebfd80d3ef4346578335a9a72aeaee59ff6cb3582b35133d50'']"

definition diamondStorageSlot :: string where
  "diamondStorageSlot = ''0xc8fcad8db84d3cc18b4c41d551ea0ee66dd599cde068d998e57d5e09332c131c''"

definition WellKnownStorageSlots :: "string list" where
  "WellKnownStorageSlots = map to_lower erc1967Slots @ [to_lower diamondStorageSlot]"

definition IsWellKnownStorageSlot :: "string \<Rightarrow> bool" where
  "IsWellKnownStorageSlot slot =
     (if slot = '''' then False
      else let slot = to_lower (trim_space slot);
               slot = (if \<not> has_prefix slot ''0x'' then ''0x'' @ slot else slot)
           in slot \<in> set WellKnownStorageSlots)"

definition extractStorageSlot :: "json list \<Rightarrow> string" where
  "extractStorageSlot params =
     (case nth_param params 1 of Some (JStr slot) \<Rightarrow> slot | _ \<Rightarrow> '''')"

definition extractProofStorageKeys :: "json list \<Rightarrow> string list option" where
  "extractProofStorageKeys params =
     (case nth_param params 1 of Some (JArr ks) \<Rightarrow> those (map as_str ks) | _ \<Rightarrow> None)"

definition requestedStorageKeys :: "string \<Rightarrow> json list \<Rightarrow> string list option" where
  "requestedStorageKeys method params =
     (if method = MethodGetStorageAt then Some [extractStorageSlot params]
      else if method = MethodGetProof then extractProofStorageKeys params
      else None)"

definition isStorageReadMethod :: "string \<Rightarrow> bool" where
  "isStorageReadMethod method = (method = MethodGetStorageAt \<or> method = MethodGetProof)"

definition PrivateStorageSlot :: string where
  "PrivateStorageSlot = ''0x0''"

section \<open>Function rules of a contract access\<close>

definition accessHasFunctionSelector :: "contract_access option \<Rightarrow> string \<Rightarrow> bool" where
  "accessHasFunctionSelector access selector =
     (case access of
        None \<Rightarrow> False
      | Some a \<Rightarrow>
          (case ca_Functions a of
             None \<Rightarrow> True
           | Some rules \<Rightarrow>
               if rules = [] then False
               else list_ex (\<lambda>rule. equal_fold (fr_Selector rule) selector) rules))"

definition accessGetFunctionRule :: "contract_access option \<Rightarrow> string \<Rightarrow> function_rule option" where
  "accessGetFunctionRule access selector =
     (case access of
        None \<Rightarrow> None
      | Some a \<Rightarrow>
          (case ca_Functions a of
             None \<Rightarrow> None
           | Some rules \<Rightarrow> find (\<lambda>rule. equal_fold (fr_Selector rule) selector) rules))"

section \<open>Lemmas\<close>

subsection \<open>Shape, target and deployment agree\<close>

definition call_like :: "string list" where
  "call_like = [''eth_sendTransaction'', ''eth_estimateGas'', ''eth_call'', ''eth_createAccessList'']"

lemma to_lower_empty: "to_lower s = '''' \<Longrightarrow> s = ''''"
  using fold_runes_stable_eq [of lower_table "[]" s] by (simp add: to_lower_def)

lemma to_lower_0x: "to_lower s = ''0x'' \<Longrightarrow> s \<noteq> ''''"
  by auto

lemma trim_space_Nil [simp]: "trim_space '''' = ''''"
  by (rule trim_space_id) (auto simp: space_clean_def space_runes_def has_prefix_def has_suffix_def)

lemma call_like_lower:
  "m \<in> set call_like \<Longrightarrow>
     to_lower (trim_space m) \<in> {''eth_sendtransaction'', ''eth_estimategas'', ''eth_call'', ''eth_createaccesslist''}"
proof -
  have "list_all (\<lambda>m. to_lower (trim_space m) \<in>
      {''eth_sendtransaction'', ''eth_estimategas'', ''eth_call'', ''eth_createaccesslist''}) call_like"
    by code_simp
  then show "m \<in> set call_like \<Longrightarrow> ?thesis" by (simp add: list_all_iff)
qed

lemma IsContractDeployment_call_like:
  "m \<in> set call_like \<Longrightarrow>
     IsContractDeployment m ps \<longleftrightarrow> ClassifyCallShape ps \<in> {CallShapeCreation, CallShapeMalformed}"
  using call_like_lower [of m]
  by (auto simp: IsContractDeployment_def split: CallShape.splits)

lemma targeted_shape:
  assumes "ClassifyCallShape ps = CallShapeTargeted"
  obtains p rest callObj to where "ps = p # rest" "as_obj p = Some callObj"
    "map_of callObj ''to'' = Some (JStr to)" "\<not> isCreationTo to" "\<not> case_variant_key callObj"
    "\<not> callDataAndInputDiffer callObj"
proof -
  obtain p rest where ps: "ps = p # rest" using assms by (cases ps) (auto simp: ClassifyCallShape_def)
  with assms obtain callObj where obj: "as_obj p = Some callObj"
    by (auto simp: ClassifyCallShape_def split: option.splits)
  with ps assms obtain v where v: "map_of callObj ''to'' = Some v"
    by (auto simp: ClassifyCallShape_def split: option.splits if_splits)
  with ps obj assms obtain s where "as_str v = Some s" "\<not> isCreationTo s"
    by (auto simp: ClassifyCallShape_def split: option.splits if_splits)
  moreover from this have "v = JStr s" by (cases v) auto
  ultimately show thesis
    using that [OF ps obj] v assms ps obj
    by (auto simp: ClassifyCallShape_def split: option.splits if_splits)
qed

lemma creation_shape:
  assumes "ClassifyCallShape ps = CallShapeCreation"
  obtains p rest callObj where "ps = p # rest" "as_obj p = Some callObj"
    "\<And>to. str_field callObj ''to'' = Some to \<Longrightarrow> isCreationTo to"
proof -
  obtain p rest where ps: "ps = p # rest" using assms by (cases ps) (auto simp: ClassifyCallShape_def)
  with assms obtain callObj where obj: "as_obj p = Some callObj"
    by (auto simp: ClassifyCallShape_def split: option.splits)
  have "isCreationTo to" if "str_field callObj ''to'' = Some to" for to
  proof (cases "map_of callObj ''to''")
    case None
    with that show ?thesis by (simp add: str_field_def)
  next
    case (Some v)
    with that have "as_str v = Some to" by (simp add: str_field_def)
    with Some ps obj assms show ?thesis
      by (cases v) (auto simp: ClassifyCallShape_def split: if_splits)
  qed
  with ps obj that show thesis by blast
qed

lemma targeted_has_target:
  assumes "m \<in> set call_like" "ClassifyCallShape ps = CallShapeTargeted"
  shows "GetTargetAddress m ps \<noteq> ''''"
proof -
  from assms(2) obtain p rest callObj to where s: "ps = p # rest" "as_obj p = Some callObj"
    "map_of callObj ''to'' = Some (JStr to)" "\<not> isCreationTo to"
    by (rule targeted_shape)
  have "to_lower to \<noteq> ''''" using s(4) to_lower_empty [of to] by (auto simp: isCreationTo_def)
  then show ?thesis
    using assms(1) s
    by (auto simp: GetTargetAddress_def call_like_def str_field_def isCreationTo_def Let_def)
qed

lemma creation_no_target:
  assumes "m \<in> set call_like" "ClassifyCallShape ps = CallShapeCreation"
  shows "GetTargetAddress m ps = ''''"
proof -
  from assms(2) obtain p rest callObj where s: "ps = p # rest" "as_obj p = Some callObj"
    "\<And>to. str_field callObj ''to'' = Some to \<Longrightarrow> isCreationTo to"
    by (rule creation_shape) blast
  show ?thesis
  proof (cases "str_field callObj ''to''")
    case None
    with s(1,2) assms(1) show ?thesis by (auto simp: GetTargetAddress_def call_like_def)
  next
    case (Some to)
    with s(3) have "isCreationTo to" by blast
    with Some s(1,2) assms(1) show ?thesis
      by (auto simp: GetTargetAddress_def call_like_def isCreationTo_def Let_def)
  qed
qed

lemma not_deployment_cases:
  assumes "m \<in> set call_like" "\<not> IsContractDeployment m ps"
  shows "ps = [] \<or> ClassifyCallShape ps = CallShapeTargeted"
  using assms by (cases "ClassifyCallShape ps"; cases ps)
    (auto simp: IsContractDeployment_call_like ClassifyCallShape_def split: option.splits if_splits)

subsection \<open>Simulation options\<close>

definition no_override :: "json list \<Rightarrow> nat \<Rightarrow> bool" where
  "no_override ps i \<longleftrightarrow> nth_param ps i \<in> {None, Some JNull, Some (JObj [])}"

definition block_ref :: "json list \<Rightarrow> bool" where
  "block_ref ps =
     (case nth_param ps 1 of
        None \<Rightarrow> True
      | Some JNull \<Rightarrow> True
      | Some (JStr _) \<Rightarrow> True
      | Some (JObj kvs) \<Rightarrow> list_all (\<lambda>(k, _). isEIP1898BlockKey k) kvs
      | Some _ \<Rightarrow> False)"

lemma classifyOverrideSlot_iff: "fst (classifyOverrideSlot ps i k) \<longleftrightarrow> \<not> no_override ps i"
  by (cases "nth_param ps i"; cases "the (nth_param ps i)")
    (auto simp: classifyOverrideSlot_def classifyOverrideValue_def no_override_def)

lemma classifyBlockRefSlot_iff: "fst (classifyBlockRefSlot ps 1) \<longleftrightarrow> \<not> block_ref ps"
  by (auto simp: classifyBlockRefSlot_def block_ref_def list_ex_iff list_all_iff
      split: option.splits json.splits)

lemma detect_call_family:
  assumes "m \<in> {''eth_call'', ''eth_estimateGas'', ''eth_createAccessList''}"
  shows "\<not> fst (detectStateOverrideForMethod m ps) \<longleftrightarrow>
     length ps \<le> 4 \<and> block_ref ps \<and> no_override ps 3
     \<and> (no_override ps 2 \<or> m = ''eth_createAccessList'' \<and> (\<exists>b \<in> {True, False}. nth_param ps 2 = Some (JBool b)))"
proof -
  have "no_override ps 2 \<Longrightarrow> nth_param ps 2 \<noteq> Some (JBool b)" for b
    by (auto simp: no_override_def)
  then show ?thesis
    using assms
    by (simp add: detectStateOverrideForMethod_def maxOverrideAwareParams_def
        classifyOverrideSlot_iff classifyBlockRefSlot_iff not_less del: One_nat_def)
qed

lemma detect_trace_call:
  assumes "\<not> fst (detectStateOverrideForMethod ''debug_traceCall'' ps)"
    and "nth_param ps 2 = Some (JObj cfg)" "(key, v) \<in> set cfg" "(name, kind) \<in> set debugOverrideKeys"
  shows "\<not> keyFoldsTo key name"
proof
  assume k: "keyFoldsTo key name"
  let ?hits = "concat (map (\<lambda>(key, _). filter (\<lambda>k. keyFoldsTo key (fst k)) debugOverrideKeys) cfg)"
  have "(name, kind) \<in> set ?hits" using assms(3,4) k by force
  then have "?hits \<noteq> []" by (metis length_greater_0_conv length_pos_if_in_set)
  then have "debug_override_kind cfg \<noteq> None"
    unfolding debug_override_kind_def by (cases ?hits) (simp_all del: concat_eq_Nil_conv)
  with assms(1,2) show False by (auto simp: detectStateOverrideForMethod_def split: option.splits)
qed

lemma DetectStateOverride_both:
  "\<not> fst (DetectStateOverride reg m ps) \<Longrightarrow>
     \<not> fst (detectStateOverrideForMethod (CanonicalizeMethod m) ps)
     \<and> \<not> fst (detectStateOverrideForMethod (CanonicalizeMethod (ResolveMethodAlias reg (CanonicalizeMethod m))) ps)"
  by (auto simp: DetectStateOverride_def Let_def split: if_splits)

subsection \<open>Historical state\<close>

lemma historicalStateQuery_iff:
  "fst (historicalStateQuery r) \<longleftrightarrow> anyMethodToJudge r (\<lambda>m. fst (IsHistoricalStateQuery m (acr_Params r)))"
proof -
  have "fst (case find P xs of Some m \<Rightarrow> f m | None \<Rightarrow> (False, '''')) \<longleftrightarrow> list_ex P xs"
    if "\<And>m. P m \<longleftrightarrow> fst (f m)" for P and f :: "string \<Rightarrow> bool \<times> string" and xs
    by (induction xs) (auto simp: that)
  then show ?thesis by (simp add: historicalStateQuery_def anyMethodToJudge_def)
qed

subsection \<open>Storage reads\<close>

lemma accessHasFunctionSelector_eq:
  "accessHasFunctionSelector (GetContractAccess e a) s = HasFunctionSelector e a s"
  by (simp add: accessHasFunctionSelector_def HasFunctionSelector_def)

lemma accessGetFunctionRule_eq:
  "accessGetFunctionRule (GetContractAccess e a) s = GetFunctionRule e a s"
  by (simp add: accessGetFunctionRule_def GetFunctionRule_def)

section \<open>Properties\<close>

text \<open>
  Classification and target extraction agree: a call-like request with a call object is either
  gated as a contract deployment or has a non-empty target address to check, and one that the node
  would run as contract creation has no target.
\<close>

theorem deployment_or_target:
  assumes "m \<in> set call_like" "ps \<noteq> []"
  shows "(IsContractDeployment m ps \<or> GetTargetAddress m ps \<noteq> '''')
         \<and> (ClassifyCallShape ps = CallShapeCreation \<longrightarrow>
              IsContractDeployment m ps \<and> ClassifyOperation m ps = ClaimDeploy \<and> GetTargetAddress m ps = '''')"
proof -
  have "IsContractDeployment (to_lower (trim_space m)) ps = IsContractDeployment m ps"
    using norm_addr_idem [of m] by (simp add: IsContractDeployment_def norm_addr_def)
  then show ?thesis
    using not_deployment_cases [OF assms(1)] targeted_has_target [OF assms(1)] creation_no_target [OF assms(1)]
      IsContractDeployment_call_like [OF assms(1)] assms(2)
    by (auto simp: ClassifyOperation_def Let_def)
qed

theorem deployment_or_target_witness:
  "IsContractDeployment ''eth_call'' [JObj [(''to'', JStr '' 0X '')]]
   \<and> GetTargetAddress ''eth_call'' [JObj [(''to'', JStr '' 0X '')]] = ''''"
proof -
  have "ClassifyCallShape [JObj [(''to'', JStr '' 0X '')]] = CallShapeCreation" by code_simp
  with deployment_or_target [of "''eth_call''" "[JObj [(''to'', JStr '' 0X '')]]"] show ?thesis
    by (simp add: call_like_def)
qed

text \<open>
  No state, code or block override survives the simulation-option gate: when it lets a request
  pass, then under the canonical spelling of the method and under the canonical spelling of its alias
  target the override slots of a call simulation are absent, null or empty (the access-list boolean
  apart), the block slot is a block reference, and a trace configuration has no override key.
\<close>

theorem override_gate_sound:
  assumes "\<not> fst (DetectStateOverride reg m ps)"
    and "r \<in> {CanonicalizeMethod m, CanonicalizeMethod (ResolveMethodAlias reg (CanonicalizeMethod m))}"
  shows "(r \<in> {''eth_call'', ''eth_estimateGas'', ''eth_createAccessList''} \<longrightarrow>
            length ps \<le> 4 \<and> block_ref ps \<and> no_override ps 3
            \<and> (no_override ps 2 \<or> r = ''eth_createAccessList'' \<and> (\<exists>b. nth_param ps 2 = Some (JBool b))))
         \<and> (r = ''debug_traceCall'' \<longrightarrow>
              (\<forall>cfg key v name kind. nth_param ps 2 = Some (JObj cfg) \<longrightarrow> (key, v) \<in> set cfg \<longrightarrow>
                 (name, kind) \<in> set debugOverrideKeys \<longrightarrow> \<not> keyFoldsTo key name))"
proof -
  have d: "\<not> fst (detectStateOverrideForMethod r ps)"
    using DetectStateOverride_both [OF assms(1)] assms(2) by auto
  show ?thesis
  proof (intro conjI impI allI)
    assume f: "r \<in> {''eth_call'', ''eth_estimateGas'', ''eth_createAccessList''}"
    note o = iffD1 [OF detect_call_family [OF f] d]
    from o show "length ps \<le> 4" "block_ref ps" "no_override ps 3" by simp_all
    from o show "no_override ps 2 \<or> r = ''eth_createAccessList'' \<and> (\<exists>b. nth_param ps 2 = Some (JBool b))"
      by (elim conjE) meson
  next
    fix cfg key v name kind
    assume "r = ''debug_traceCall''" "nth_param ps 2 = Some (JObj cfg)" "(key, v) \<in> set cfg"
      "(name, kind) \<in> set debugOverrideKeys"
    with d show "\<not> keyFoldsTo key name" using detect_trace_call by simp
  qed
qed

theorem override_gate_sound_witness:
  "block_ref [JObj [], JStr ''latest'', JObj []] \<and> no_override [JObj [], JStr ''latest'', JObj []] 2"
proof -
  have c: "CanonicalizeMethod ''ETH_call'' = ''eth_call''" by code_simp
  have "\<not> fst (DetectStateOverride empty_registries ''ETH_call'' [JObj [], JStr ''latest'', JObj []])"
    by code_simp
  from override_gate_sound [OF this, of "''eth_call''"] c show ?thesis by simp
qed

text \<open>
  The historical-state guard judges the block argument of \<^verbatim>\<open>eth_call\<close> but not that of
  \<^verbatim>\<open>eth_estimateGas\<close> or \<^verbatim>\<open>eth_createAccessList\<close>, whatever the block: these two simulate a
  call at a past block without being classified as a historical query.
\<close>

theorem historical_guard_gap:
  "fst (IsHistoricalStateQuery ''eth_call'' [call, JStr ''0x1''])
   \<and> \<not> fst (IsHistoricalStateQuery ''eth_estimateGas'' (call # rest))
   \<and> \<not> fst (IsHistoricalStateQuery ''eth_createAccessList'' (call # rest))"
proof -
  have "to_lower (trim_space ''eth_call'') = ''eth_call''"
    "to_lower (trim_space ''eth_estimateGas'') = ''eth_estimategas''"
    "to_lower (trim_space ''eth_createAccessList'') = ''eth_createaccesslist''"
    "to_lower ''eth_call'' = ''eth_call''" "to_lower ''0x1'' = ''0x1''" by code_simp+
  then show ?thesis
    by (simp add: IsHistoricalStateQuery_def historicalCheckMethods_def extractBlockParam_def
        block_param_index_def nth_param_def isHistoricalBlock_def)
qed

end
