(* ===== verification/Rbac_Store.thy ===== *)
theory Rbac_Store
  imports Call_Shape
begin

text \<open>
  The store interface of \<^verbatim>\<open>internal/rbac/store.go\<close> as the access layer uses it. The rows live
  in PostgreSQL, so the queries are parameters of the model: a record of lookup functions, fixed for
  the duration of one request, each of which may fail. The cached permission rows and their
  generation counter, which the layer also writes, are modelled as state in \<^verbatim>\<open>Permission_Cache\<close>.
  The optional extension \<^verbatim>\<open>OrgAdminChecker\<close> is an optional field.
\<close>

record store =
  st_GetOrganization :: "string \<Rightarrow> organization option res"
  st_GetOrganizationBySlug :: "string \<Rightarrow> organization option res"
  st_GetGroupAccess :: "string \<Rightarrow> group_access option res"
  st_GetGroupAccessBatch :: "string list \<Rightarrow> (string \<times> group_access) list res"
  st_GetContractsByIDs :: "string list \<Rightarrow> (string \<times> contract) list res"
  st_GetContractByAddress :: "string \<Rightarrow> string \<Rightarrow> contract option res"
  st_GetContractByAddressGlobal :: "string \<Rightarrow> contract option res"
  st_ListContracts :: "string \<Rightarrow> contract list res"
  st_IsContractRegisteredToAnyOrg :: "string \<Rightarrow> bool res"
  st_IsAddressOwnedByOrg :: "string \<Rightarrow> string \<Rightarrow> bool res"
  st_GetContractOwnerOrgID :: "string \<Rightarrow> string res"
  st_ListContractGrantsBatch :: "string list \<Rightarrow> (string \<times> contract_grant list) list res"
  st_GetLinkedEthAddresses :: "string \<Rightarrow> string list res"
  st_GetOrgIDsForEthAddress :: "string \<Rightarrow> string list res"
  st_GetUserByExternalID :: "string \<Rightarrow> user option res"
  st_ListUserMembershipsInOrg :: "string \<Rightarrow> string \<Rightarrow> membership_with_details list res"
  st_ListActiveUserMembershipsWithDetails :: "string \<Rightarrow> membership_with_details list res"
  st_IsAddressPreregistered :: "string \<Rightarrow> string \<Rightarrow> bool res"
  st_IsSharedInfrastructure :: "string \<Rightarrow> bool res"
  st_GetContractDeployerByAddress :: "string \<Rightarrow> string option res"
  st_IsOrgAdmin :: "(string \<Rightarrow> (bool \<times> string list) res) option"

text \<open>A store without rows, on which the examples build.\<close>

definition empty_store :: store where
  "empty_store =
     \<lparr>st_GetOrganization = \<lambda>_. Inr None, st_GetOrganizationBySlug = \<lambda>_. Inr None,
      st_GetGroupAccess = \<lambda>_. Inr None, st_GetGroupAccessBatch = \<lambda>_. Inr [],
      st_GetContractsByIDs = \<lambda>_. Inr [], st_GetContractByAddress = \<lambda>_ _. Inr None,
      st_GetContractByAddressGlobal = \<lambda>_. Inr None, st_ListContracts = \<lambda>_. Inr [],
      st_IsContractRegisteredToAnyOrg = \<lambda>_. Inr False, st_IsAddressOwnedByOrg = \<lambda>_ _. Inr False,
      st_GetContractOwnerOrgID = \<lambda>_. Inr '''', st_ListContractGrantsBatch = \<lambda>_. Inr [],
      st_GetLinkedEthAddresses = \<lambda>_. Inr [], st_GetOrgIDsForEthAddress = \<lambda>_. Inr [],
      st_GetUserByExternalID = \<lambda>_. Inr None, st_ListUserMembershipsInOrg = \<lambda>_ _. Inr [],
      st_ListActiveUserMembershipsWithDetails = \<lambda>_. Inr [], st_IsAddressPreregistered = \<lambda>_ _. Inr False,
      st_IsSharedInfrastructure = \<lambda>_. Inr False, st_GetContractDeployerByAddress = \<lambda>_. Inr None,
      st_IsOrgAdmin = Some (\<lambda>_. Inr (False, []))\<rparr>"

end
