(* ===== verification/Resolver.thy ===== *)
theory Resolver
  imports Rbac_Store
begin

text \<open>
  The permission resolver, \<^verbatim>\<open>internal/rbac/resolver.go\<close>: how the permissions of a user in an
  organization are computed from the user's memberships, the access rows and grants of their groups
  and the granted contracts. The keyed unions are one loop over an association list, parameterized
  by the key and by what happens when both sides have an entry; the locale \<^verbatim>\<open>keyed_merge\<close> states
  their laws once. \<^verbatim>\<open>time.Now()\<close> and \<^verbatim>\<open>uuid.New()\<close> are the arguments \<^verbatim>\<open>now\<close> and \<^verbatim>\<open>uuid\<close>, and
  AES-GCM opening of a base64 blob is the argument \<^verbatim>\<open>gcm_open\<close>.
\<close>

section \<open>Stored secrets\<close>

definition ciphertextV1Prefix :: string where
  "ciphertextV1Prefix = ''encv1:''"

definition Decrypt :: "(string \<Rightarrow> bytes \<Rightarrow> string res) \<Rightarrow> string \<Rightarrow> bytes \<Rightarrow> string res" where
  "Decrypt gcm_open encoded key =
     (if key = [] then Inr encoded
      else if length key \<noteq> 32 then Inl ''encryption key must be 32 bytes (AES-256)''
      else if has_prefix encoded ciphertextV1Prefix
      then gcm_open (drop (length ciphertextV1Prefix) encoded) key
      else case gcm_open encoded key of Inl _ \<Rightarrow> Inr encoded | Inr plaintext \<Rightarrow> Inr plaintext)"

section \<open>Unions\<close>

definition index_by :: "('a \<Rightarrow> string) \<Rightarrow> 'a list \<Rightarrow> (string \<times> 'a) list" where
  "index_by key xs = fold (\<lambda>x m. AList.update (key x) x m) xs []"

definition merge_into ::
  "('a \<Rightarrow> string) \<Rightarrow> ('a \<Rightarrow> 'a \<Rightarrow> 'a) \<Rightarrow> 'a list \<Rightarrow> (string \<times> 'a) list \<Rightarrow> (string \<times> 'a) list" where
  "merge_into key both xs m =
     fold (\<lambda>x m. case map_of m (key x) of
                   Some existing \<Rightarrow> AList.update (key x) (both existing x) m
                 | None \<Rightarrow> AList.update (key x) x m) xs m"

definition unionStrings :: "string list \<Rightarrow> string list \<Rightarrow> string list" where
  "unionStrings a b = map snd (merge_into to_lower (\<lambda>existing s. existing) b (index_by to_lower a))"

definition IntersectClaims :: "claim list \<Rightarrow> claim list \<Rightarrow> claim list" where
  "IntersectClaims a b = (if a = [] \<or> b = [] then [] else filter (\<lambda>c. c \<in> set a) b)"

definition unionClaims :: "claim list \<Rightarrow> claim list \<Rightarrow> claim list" where
  "unionClaims a b = fold add_member b (fold add_member a [])"

definition both_functions :: "function_rule \<Rightarrow> function_rule \<Rightarrow> function_rule" where
  "both_functions existing rule =
     (if fr_ParamRules existing = [] \<or> fr_ParamRules rule = []
      then \<lparr>fr_Selector = fr_Selector rule, fr_ParamRules = []\<rparr>
      else existing)"

definition unionFunctions ::
  "function_rule list option \<Rightarrow> function_rule list option \<Rightarrow> function_rule list option" where
  "unionFunctions a b =
     (case (a, b) of
        (Some as, Some bs) \<Rightarrow>
          Some (map snd (merge_into (\<lambda>r. to_lower (fr_Selector r)) both_functions bs
                           (index_by (\<lambda>r. to_lower (fr_Selector r)) as)))
      | _ \<Rightarrow> None)"

definition both_events :: "event_rule \<Rightarrow> event_rule \<Rightarrow> event_rule" where
  "both_events existing rule =
     (if er_ParamRules existing = [] \<or> er_ParamRules rule = []
      then \<lparr>er_Topic0 = er_Topic0 rule, er_Name = er_Name rule, er_ParamRules = []\<rparr>
      else existing)"

definition unionEventRules ::
  "event_rules_field option \<Rightarrow> event_rules_field option \<Rightarrow> event_rules_field option" where
  "unionEventRules a b =
     (let aDeny = (case a of None \<Rightarrow> True | Some f \<Rightarrow> IsDeny f);
          bDeny = (case b of None \<Rightarrow> True | Some f \<Rightarrow> IsDeny f)
      in if (case a of None \<Rightarrow> False | Some f \<Rightarrow> IsWildcard f) then a
         else if (case b of None \<Rightarrow> False | Some f \<Rightarrow> IsWildcard f) then b
         else if aDeny \<and> bDeny then None
         else if aDeny then b
         else if bDeny then a
         else Some \<lparr>erf_Wildcard = False,
                    erf_Rules = map snd (merge_into (\<lambda>r. to_lower (er_Topic0 r)) both_events (GetRules (the b))
                                           (index_by (\<lambda>r. to_lower (er_Topic0 r)) (GetRules (the a))))\<rparr>)"

definition both_access :: "contract_access \<Rightarrow> contract_access \<Rightarrow> contract_access" where
  "both_access existing access =
     \<lparr>ca_Claims = unionClaims (ca_Claims existing) (ca_Claims access),
      ca_Functions = unionFunctions (ca_Functions existing) (ca_Functions access),
      ca_EventRules = unionEventRules (ca_EventRules existing) (ca_EventRules access)\<rparr>"

definition unionContractAccess ::
  "(string \<times> contract_access) list \<Rightarrow> (string \<times> contract_access) list \<Rightarrow> (string \<times> contract_access) list" where
  "unionContractAccess a b =
     (if a = [] \<and> b = [] then []
      else if a = [] then b
      else if b = [] then a
      else
        fold (\<lambda>(addr, access) result.
                let lc = to_lower addr in
                case map_of result lc of
                  Some existing \<Rightarrow> AList.update lc (both_access existing access) result
                | None \<Rightarrow> AList.update lc access result)
             b (fold (\<lambda>(addr, access) result. AList.update (to_lower addr) access result) a []))"

section \<open>The permissions of one group\<close>

record group_perms_batch =
  gb_access :: "(string \<times> group_access) list"
  gb_grants :: "(string \<times> contract_grant list) list"
  gb_contracts :: "(string \<times> contract) list"

record group_perm_set =
  gp_AllowedMethods :: "string list"
  gp_ContractAccess :: "(string \<times> contract_access) list"
  gp_Claims :: "claim list"
  gp_RPCAPIKey :: string

record resolver =
  rs_cacheTTL :: int
  rs_encryptionKey :: bytes
  rs_gcm_open :: "string \<Rightarrow> bytes \<Rightarrow> string res"

definition grants_of :: "group_perms_batch \<Rightarrow> string \<Rightarrow> contract_grant list" where
  "grants_of batch groupID = (case map_of (gb_grants batch) groupID of None \<Rightarrow> [] | Some gs \<Rightarrow> gs)"

definition groupPerms :: "resolver \<Rightarrow> group_perms_batch \<Rightarrow> string \<Rightarrow> group_perm_set" where
  "groupPerms r batch groupID =
     (let access = map_of (gb_access batch) groupID;
          claims = (case access of None \<Rightarrow> [] | Some a \<Rightarrow> ga_Claims a)
      in \<lparr>gp_AllowedMethods = (case access of None \<Rightarrow> [] | Some a \<Rightarrow> ga_AllowedMethods a),
          gp_ContractAccess =
            fold (\<lambda>grant m.
                    case map_of (gb_contracts batch) (cg_ContractID grant) of
                      None \<Rightarrow> m
                    | Some contract \<Rightarrow>
                        AList.update (to_lower (con_Address contract))
                          \<lparr>ca_Claims = claims, ca_Functions = cg_Functions grant,
                           ca_EventRules = cg_EventRules grant\<rparr> m)
                 (grants_of batch groupID) [],
          gp_Claims = claims,
          gp_RPCAPIKey =
            (case access of
               None \<Rightarrow> ''''
             | Some a \<Rightarrow>
                 (case ga_RPCAPIKey a of
                    None \<Rightarrow> ''''
                  | Some k \<Rightarrow>
                      if k = '''' then ''''
                      else (case Decrypt (rs_gcm_open r) k (rs_encryptionKey r) of
                              Inl _ \<Rightarrow> k
                            | Inr decrypted \<Rightarrow> decrypted)))\<rparr>)"

definition membershipGroupIDs :: "membership_with_details list \<Rightarrow> string list" where
  "membershipGroupIDs memberships =
     fold (\<lambda>m ids. add_member (grp_ID (mwd_Group m)) ids) memberships []"

definition loadGroupPerms :: "store \<Rightarrow> string list \<Rightarrow> bool \<Rightarrow> group_perms_batch res" where
  "loadGroupPerms st groupIDs withGrants =
     (case st_GetGroupAccessBatch st groupIDs of
        Inl e \<Rightarrow> Inl e
      | Inr access \<Rightarrow>
          if \<not> withGrants then Inr \<lparr>gb_access = access, gb_grants = [], gb_contracts = []\<rparr>
          else case st_ListContractGrantsBatch st groupIDs of
            Inl e \<Rightarrow> Inl e
          | Inr grants \<Rightarrow>
              let contractIDs =
                    fold (\<lambda>groupID ids.
                            fold (\<lambda>grant ids. add_member (cg_ContractID grant) ids)
                                 (case map_of grants groupID of None \<Rightarrow> [] | Some gs \<Rightarrow> gs) ids)
                         groupIDs []
              in if contractIDs = []
                 then Inr \<lparr>gb_access = access, gb_grants = grants, gb_contracts = []\<rparr>
                 else (case st_GetContractsByIDs st contractIDs of
                         Inl e \<Rightarrow> Inl e
                       | Inr contracts \<Rightarrow>
                           Inr \<lparr>gb_access = access, gb_grants = grants, gb_contracts = contracts\<rparr>))"

section \<open>The permissions of a user\<close>

definition cacheExpiry :: "resolver \<Rightarrow> Go_Prelude.time \<Rightarrow> membership_with_details list \<Rightarrow> Go_Prelude.time" where
  "cacheExpiry r now memberships =
     fold (\<lambda>m exp. case um_ExpiresAt (mwd_Membership m) of
                     None \<Rightarrow> exp
                   | Some e \<Rightarrow> if e < exp then e else exp)
          memberships (now + rs_cacheTTL r)"

definition first_key :: "string \<Rightarrow> group_perm_set \<Rightarrow> string" where
  "first_key key perms = (if key = '''' \<and> gp_RPCAPIKey perms \<noteq> '''' then gp_RPCAPIKey perms else key)"

definition computeOrgAdminPermissions ::
  "resolver \<Rightarrow> store \<Rightarrow> Go_Prelude.time \<Rightarrow> string \<Rightarrow> string \<Rightarrow> string \<Rightarrow> membership_with_details list \<Rightarrow>
   effective_permissions res" where
  "computeOrgAdminPermissions r st now uuid userID orgID memberships =
     (case st_ListContracts st orgID of
        Inl e \<Rightarrow> Inl e
      | Inr contracts \<Rightarrow>
          let contractAccess =
                fold (\<lambda>c m. AList.update (to_lower (con_Address c))
                              \<lparr>ca_Claims = AllClaims, ca_Functions = None, ca_EventRules = None\<rparr> m)
                     contracts []
          in case loadGroupPerms st (membershipGroupIDs memberships) False of
               Inl e \<Rightarrow> Inl e
             | Inr batch \<Rightarrow>
                 let (finalMethods, finalKey) =
                       fold (\<lambda>m (methods, key).
                               let perms = groupPerms r batch (grp_ID (mwd_Group m))
                               in (unionStrings methods (gp_AllowedMethods perms), first_key key perms))
                            memberships ([], '''')
                 in Inr \<lparr>ep_ID = uuid, ep_UserID = userID, ep_OrgID = orgID,
                         ep_AllowedMethods = finalMethods, ep_ContractAccess = contractAccess,
                         ep_Claims = AllClaims, ep_RPCAPIKey = finalKey, ep_ComputedAt = now,
                         ep_ExpiresAt = cacheExpiry r now memberships\<rparr>)"

definition merge_perms :: "group_perm_set \<Rightarrow> group_perm_set \<Rightarrow> group_perm_set" where
  "merge_perms acc perms =
     \<lparr>gp_AllowedMethods = unionStrings (gp_AllowedMethods acc) (gp_AllowedMethods perms),
      gp_ContractAccess = unionContractAccess (gp_ContractAccess acc) (gp_ContractAccess perms),
      gp_Claims = unionClaims (gp_Claims acc) (gp_Claims perms),
      gp_RPCAPIKey = first_key (gp_RPCAPIKey acc) perms\<rparr>"

definition computePermissions ::
  "resolver \<Rightarrow> store \<Rightarrow> Go_Prelude.time \<Rightarrow> string \<Rightarrow> string \<Rightarrow> string \<Rightarrow> effective_permissions res" where
  "computePermissions r st now uuid userID orgID =
     (case st_ListUserMembershipsInOrg st userID orgID of
        Inl e \<Rightarrow> Inl e
      | Inr [] \<Rightarrow>
          Inr \<lparr>ep_ID = uuid, ep_UserID = userID, ep_OrgID = orgID, ep_AllowedMethods = [],
               ep_ContractAccess = [], ep_Claims = [], ep_RPCAPIKey = '''', ep_ComputedAt = now,
               ep_ExpiresAt = now + rs_cacheTTL r\<rparr>
      | Inr (m # ms) \<Rightarrow>
          if list_ex (\<lambda>m. grp_IsOrgAdmin (mwd_Group m)) (m # ms)
          then computeOrgAdminPermissions r st now uuid userID orgID (m # ms)
          else case loadGroupPerms st (membershipGroupIDs (m # ms)) True of
            Inl e \<Rightarrow> Inl e
          | Inr batch \<Rightarrow>
              let final =
                    fold (\<lambda>m acc. merge_perms acc (groupPerms r batch (grp_ID (mwd_Group m)))) ms
                         (groupPerms r batch (grp_ID (mwd_Group m)))
              in Inr \<lparr>ep_ID = uuid, ep_UserID = userID, ep_OrgID = orgID,
                      ep_AllowedMethods = gp_AllowedMethods final,
                      ep_ContractAccess = gp_ContractAccess final,
                      ep_Claims = ExpandClaims (gp_Claims final),
                      ep_RPCAPIKey = gp_RPCAPIKey final, ep_ComputedAt = now,
                      ep_ExpiresAt = cacheExpiry r now (m # ms)\<rparr>)"

section \<open>Keyed unions\<close>

text \<open>
  What a keyed union promises: one value per key, the keys of both sides, and at each key the
  values of the two sides combined in order. The one law a client owes is that combining two values
  of one key gives a value of that key.
\<close>

locale keyed_merge =
  fixes key :: "'a \<Rightarrow> string" and both :: "'a \<Rightarrow> 'a \<Rightarrow> 'a"
  assumes key_both: "key e = key x \<Longrightarrow> key (both e x) = key x"
begin

definition combine :: "'a \<Rightarrow> 'a option \<Rightarrow> 'a option" where
  "combine x acc = (case acc of Some e \<Rightarrow> Some (both e x) | None \<Rightarrow> Some x)"

definition keyed :: "(string \<times> 'a) list \<Rightarrow> bool" where
  "keyed m \<longleftrightarrow> distinct (map fst m) \<and> (\<forall>k v. map_of m k = Some v \<longrightarrow> key v = k)"

definition union_by :: "'a list \<Rightarrow> 'a list \<Rightarrow> 'a list" where
  "union_by a b = map snd (merge_into key both b (index_by key a))"

lemma lookup_index: "map_of (index_by key xs) k = fold (\<lambda>x acc. Some x) (filter (\<lambda>x. key x = k) xs) None"
proof -
  have "map_of (fold (\<lambda>x m. AList.update (key x) x m) xs m) k =
      fold (\<lambda>x acc. Some x) (filter (\<lambda>x. key x = k) xs) (map_of m k)" for m
    by (induction xs arbitrary: m) (auto simp: update_conv')
  from this [of "[]"] show ?thesis by (simp add: index_by_def)
qed

lemma lookup_merge:
  "map_of (merge_into key both xs m) k = fold combine (filter (\<lambda>x. key x = k) xs) (map_of m k)"
  unfolding merge_into_def
  by (induction xs arbitrary: m) (auto simp: update_conv' combine_def split: option.splits)

lemma keyed_update: "keyed m \<Longrightarrow> key v = k \<Longrightarrow> keyed (AList.update k v m)"
  by (simp add: keyed_def update_conv' distinct_update)

lemma keyed_index: "keyed (index_by key xs)"
proof -
  have "keyed m \<Longrightarrow> keyed (fold (\<lambda>x m. AList.update (key x) x m) xs m)" for m
    by (induction xs arbitrary: m) (simp_all add: keyed_update)
  moreover have "keyed []" by (simp add: keyed_def)
  ultimately show ?thesis by (simp add: index_by_def)
qed

lemma keyed_merge_into: "keyed m \<Longrightarrow> keyed (merge_into key both xs m)"
  unfolding merge_into_def
proof (induction xs arbitrary: m)
  case (Cons x xs)
  have "keyed (case map_of m (key x) of
      Some e \<Rightarrow> AList.update (key x) (both e x) m | None \<Rightarrow> AList.update (key x) x m)"
  proof (cases "map_of m (key x)")
    case (Some e)
    with Cons.prems have "key e = key x" by (simp add: keyed_def)
    with Some Cons.prems show ?thesis by (simp add: keyed_update key_both)
  qed (simp add: Cons.prems keyed_update)
  with Cons.IH show ?case by simp
qed simp

lemma fold_combine_None: "fold combine xs acc = None \<longleftrightarrow> acc = None \<and> xs = []"
  by (induction xs arbitrary: acc) (auto simp: combine_def split: option.splits)

lemma fold_Some_None: "fold (\<lambda>x acc. Some x) xs acc = None \<longleftrightarrow> acc = None \<and> xs = []"
  by (induction xs arbitrary: acc) auto

lemma union_by_mem:
  "v \<in> set (union_by a b) \<longleftrightarrow>
     fold combine (filter (\<lambda>x. key x = key v) b) (fold (\<lambda>x acc. Some x) (filter (\<lambda>x. key x = key v) a) None)
       = Some v"
proof -
  let ?m = "merge_into key both b (index_by key a)"
  have k: "keyed ?m" by (intro keyed_merge_into keyed_index)
  have "v \<in> set (union_by a b) \<longleftrightarrow> (\<exists>k. (k, v) \<in> set ?m)" by (force simp: union_by_def)
  also have "\<dots> \<longleftrightarrow> (\<exists>k. map_of ?m k = Some v)" using k by (simp add: keyed_def)
  also have "\<dots> \<longleftrightarrow> map_of ?m (key v) = Some v" using k unfolding keyed_def by metis
  finally show ?thesis by (simp add: lookup_merge lookup_index)
qed

lemma keys_union_by: "key ` set (union_by a b) = key ` (set a \<union> set b)"
proof -
  let ?m = "merge_into key both b (index_by key a)"
  have k: "keyed ?m" by (intro keyed_merge_into keyed_index)
  have "key v = k" if "(k, v) \<in> set ?m" for k v using that k by (simp add: keyed_def)
  then have "key ` set (union_by a b) = fst ` set ?m" by (force simp: union_by_def)
  also have "\<dots> = {k. map_of ?m k \<noteq> None}" by (simp add: map_of_eq_None_iff)
  also have "\<dots> = key ` (set a \<union> set b)"
    by (auto simp: lookup_merge lookup_index fold_combine_None fold_Some_None filter_empty_conv)
  finally show ?thesis .
qed

lemma distinct_keys_union_by: "distinct (map key (union_by a b))"
proof -
  let ?m = "merge_into key both b (index_by key a)"
  have k: "keyed ?m" by (intro keyed_merge_into keyed_index)
  then have "map key (union_by a b) = map fst ?m" by (auto simp: union_by_def keyed_def)
  with k show ?thesis by (simp add: keyed_def)
qed

lemma union_by_invariant:
  assumes "\<And>x. x \<in> set a \<union> set b \<Longrightarrow> P x" "\<And>e x. P e \<Longrightarrow> P x \<Longrightarrow> P (both e x)" "v \<in> set (union_by a b)"
  shows "P v"
proof -
  have 1: "\<forall>x \<in> set xs. P x \<Longrightarrow> pred_option P acc \<Longrightarrow> pred_option P (fold (\<lambda>x acc. Some x) xs acc)"
    for xs acc by (induction xs arbitrary: acc) simp_all
  have step: "P x \<Longrightarrow> pred_option P acc \<Longrightarrow> pred_option P (combine x acc)" for x acc
    by (cases acc) (simp_all add: combine_def assms(2))
  have 2: "\<forall>x \<in> set xs. P x \<Longrightarrow> pred_option P acc \<Longrightarrow> pred_option P (fold combine xs acc)" for xs acc
    by (induction xs arbitrary: acc) (simp_all add: step)
  have "pred_option P (Some v)"
    unfolding assms(3) [unfolded union_by_mem, symmetric]
    by (intro 2 1) (use assms(1) in auto)
  then show ?thesis by simp
qed

end

interpretation method_names: keyed_merge to_lower "\<lambda>existing s. existing"
  by unfold_locales simp

interpretation fun_rules: keyed_merge "\<lambda>r. to_lower (fr_Selector r)" both_functions
  by unfold_locales (simp add: both_functions_def)

interpretation event_rules: keyed_merge "\<lambda>r. to_lower (er_Topic0 r)" both_events
  by unfold_locales (simp add: both_events_def)

lemma unionStrings_eq: "unionStrings a b = method_names.union_by a b"
  by (simp add: unionStrings_def method_names.union_by_def)

lemma set_unionStrings_subset: "set (unionStrings a b) \<subseteq> set a \<union> set b"
  using method_names.union_by_invariant [of a b "\<lambda>x. x \<in> set a \<union> set b"] by (auto simp: unionStrings_eq)

lemma lower_unionStrings: "to_lower ` set (unionStrings a b) = to_lower ` (set a \<union> set b)"
  by (simp add: unionStrings_eq method_names.keys_union_by)

lemma set_unionClaims [simp]: "set (unionClaims a b) = set a \<union> set b"
  by (auto simp: unionClaims_def)


subsection \<open>Functions\<close>

definition ascii_functions :: "function_rule list option \<Rightarrow> bool" where
  "ascii_functions fs =
     (case fs of None \<Rightarrow> True | Some rs \<Rightarrow> list_all (\<lambda>r. list_all is_ascii_char (fr_Selector r)) rs)"

definition function_allowed :: "function_rule list option \<Rightarrow> string \<Rightarrow> bool" where
  "function_allowed fs s =
     (case fs of None \<Rightarrow> True | Some rs \<Rightarrow> list_ex (\<lambda>r. equal_fold (fr_Selector r) s) rs)"

lemma unionFunctions_Some:
  "unionFunctions (Some as) (Some bs) = Some (fun_rules.union_by as bs)"
  by (simp add: unionFunctions_def fun_rules.union_by_def)

lemma unionFunctions_None [simp]: "unionFunctions None b = None" "unionFunctions a None = None"
  by (simp_all add: unionFunctions_def split: option.splits)

lemma ascii_unionFunctions:
  assumes "ascii_functions a" "ascii_functions b"
  shows "ascii_functions (unionFunctions a b)"
proof (cases "a = None \<or> b = None")
  case True
  then show ?thesis by (auto simp: ascii_functions_def)
next
  case False
  then obtain as bs where ab: "a = Some as" "b = Some bs" by auto
  let ?P = "\<lambda>r. list_all is_ascii_char (fr_Selector r)"
  from assms ab have inp: "\<And>r. r \<in> set as \<union> set bs \<Longrightarrow> ?P r"
    by (auto simp: ascii_functions_def list_all_iff)
  have "?P v" if "v \<in> set (fun_rules.union_by as bs)" for v
    by (rule fun_rules.union_by_invariant [OF inp _ that]) (simp_all add: both_functions_def)
  then have "list_all ?P (fun_rules.union_by as bs)" by (simp add: Ball_set [symmetric])
  then show ?thesis by (simp add: ab unionFunctions_Some ascii_functions_def)
qed

lemma equal_fold_lower:
  assumes "list_all is_ascii_char a" "list_all is_ascii_char b" "to_lower a = to_lower b"
  shows "equal_fold a s = equal_fold b s"
  using equal_fold_ascii [OF assms(1,2)] assms(3) equal_fold_trans equal_fold_sym by metis

lemma function_allowed_union:
  assumes "ascii_functions a" "ascii_functions b"
  shows "function_allowed (unionFunctions a b) s \<longleftrightarrow> function_allowed a s \<or> function_allowed b s"
proof (cases "a = None \<or> b = None")
  case True
  then show ?thesis by (auto simp: function_allowed_def)
next
  case False
  then obtain as bs where ab: "a = Some as" "b = Some bs" by auto
  let ?u = "fun_rules.union_by as bs"
  have asc: "list_all is_ascii_char (fr_Selector r)" if "r \<in> set ?u \<union> (set as \<union> set bs)" for r
    using that assms ascii_unionFunctions [OF assms]
    by (auto simp: ab unionFunctions_Some ascii_functions_def list_all_iff)
  have keys: "(\<lambda>r. to_lower (fr_Selector r)) ` set ?u = (\<lambda>r. to_lower (fr_Selector r)) ` (set as \<union> set bs)"
    by (rule fun_rules.keys_union_by)
  have transfer: "\<exists>r \<in> B. equal_fold (fr_Selector r) s"
    if "(\<lambda>r. to_lower (fr_Selector r)) ` A = (\<lambda>r. to_lower (fr_Selector r)) ` B"
      "\<And>r. r \<in> A \<union> B \<Longrightarrow> list_all is_ascii_char (fr_Selector r)"
      "r \<in> A" "equal_fold (fr_Selector r) s" for A B r
  proof -
    from that(1,3) obtain r' where r': "r' \<in> B" "to_lower (fr_Selector r) = to_lower (fr_Selector r')"
      by (metis (no_types, lifting) image_iff)
    then have "equal_fold (fr_Selector r') s"
      using that(2-4) equal_fold_lower [of "fr_Selector r" "fr_Selector r'" s] by blast
    with r'(1) show ?thesis by blast
  qed
  have "(\<exists>r \<in> set ?u. equal_fold (fr_Selector r) s) \<longleftrightarrow> (\<exists>r \<in> set as \<union> set bs. equal_fold (fr_Selector r) s)"
    using transfer [OF keys] transfer [OF keys [symmetric]] asc by (metis Un_commute)
  then show ?thesis by (auto simp: ab unionFunctions_Some function_allowed_def list_ex_iff)
qed

subsection \<open>Contract access\<close>

definition access_map_ok :: "(string \<times> contract_access) list \<Rightarrow> bool" where
  "access_map_ok m \<longleftrightarrow>
     distinct (map fst m)
     \<and> list_all (\<lambda>(k, ca). to_lower k = k \<and> ascii_functions (ca_Functions ca)) m"

lemma access_map_ok_Nil [simp]: "access_map_ok []"
  by (simp add: access_map_ok_def)

lemma access_map_ok_lookup:
  "access_map_ok m \<Longrightarrow> map_of m k = Some ca \<Longrightarrow> to_lower k = k \<and> ascii_functions (ca_Functions ca)"
  by (auto simp: access_map_ok_def list_all_iff dest: map_of_SomeD)

lemma access_map_ok_iff:
  "access_map_ok m \<longleftrightarrow> distinct (map fst m)
     \<and> (\<forall>k ca. map_of m k = Some ca \<longrightarrow> to_lower k = k \<and> ascii_functions (ca_Functions ca))"
  by (auto simp: access_map_ok_def list_all_iff)

lemma access_map_ok_update:
  "access_map_ok m \<Longrightarrow> to_lower k = k \<Longrightarrow> ascii_functions (ca_Functions ca) \<Longrightarrow>
     access_map_ok (AList.update k ca m)"
  unfolding access_map_ok_iff by (simp add: update_conv' distinct_update)

definition join_access :: "contract_access option \<Rightarrow> contract_access option \<Rightarrow> contract_access option" where
  "join_access x y =
     (case (x, y) of
        (Some e, Some a) \<Rightarrow> Some (both_access e a)
      | (Some e, None) \<Rightarrow> Some e
      | (None, z) \<Rightarrow> z)"

lemma copy_access:
  assumes "access_map_ok a"
  shows "map_of (fold (\<lambda>(addr, access) result. AList.update (to_lower addr) access result) a []) = map_of a"
proof -
  have "map_of (fold (\<lambda>(addr, access) result. AList.update (to_lower addr) access result) a m) = map_of m ++ map_of a"
    if "access_map_ok a" for m using that
  proof (induction a arbitrary: m)
    case (Cons p a)
    obtain k ca where p: "p = (k, ca)" by force
    from Cons.prems p have k: "to_lower k = k" "access_map_ok a" "k \<notin> fst ` set a"
      by (auto simp: access_map_ok_def)
    then have "map_of a k = None" by (simp add: map_of_eq_None_iff)
    then show ?case
      using Cons.IH [OF k(2)] k(1) by (auto simp: p update_conv' map_add_def fun_eq_iff split: option.splits)
  qed simp
  from this [OF assms, of "[]"] show ?thesis by simp
qed

lemma merge_access:
  assumes "access_map_ok b"
  shows "map_of (fold (\<lambda>(addr, access) result.
                let lc = to_lower addr in
                case map_of result lc of
                  Some existing \<Rightarrow> AList.update lc (both_access existing access) result
                | None \<Rightarrow> AList.update lc access result) b m) k = join_access (map_of m k) (map_of b k)"
  using assms
proof (induction b arbitrary: m)
  case Nil
  show ?case by (simp add: join_access_def split: option.splits)
next
  case (Cons p b)
  obtain a ca where p: "p = (a, ca)" by force
  from Cons.prems p have a: "to_lower a = a" "access_map_ok b" "a \<notin> fst ` set b"
    by (auto simp: access_map_ok_def)
  then have "map_of b a = None" by (simp add: map_of_eq_None_iff)
  then show ?case
    using Cons.IH [OF a(2)] a(1)
    by (cases "map_of m a") (auto simp: p update_conv' join_access_def Let_def split: option.splits)
qed

lemma lookup_unionContractAccess:
  assumes "access_map_ok a" "access_map_ok b"
  shows "map_of (unionContractAccess a b) k = join_access (map_of a k) (map_of b k)"
proof (cases "a = [] \<or> b = []")
  case True
  then show ?thesis by (auto simp: unionContractAccess_def join_access_def split: option.splits)
next
  case False
  then show ?thesis
    using merge_access [OF assms(2)] copy_access [OF assms(1)] by (simp add: unionContractAccess_def)
qed

lemma keys_unionContractAccess_distinct:
  assumes "access_map_ok a" "access_map_ok b"
  shows "distinct (map fst (unionContractAccess a b))"
proof -
  have 1: "distinct (map fst m) \<Longrightarrow>
      distinct (map fst (fold (\<lambda>(addr, access) result. AList.update (to_lower addr) access result) xs m))"
    for xs m by (induction xs arbitrary: m) (simp_all add: distinct_update split: prod.splits)
  have 2: "distinct (map fst m) \<Longrightarrow>
      distinct (map fst (fold (\<lambda>(addr, access) result.
                let lc = to_lower addr in
                case map_of result lc of
                  Some existing \<Rightarrow> AList.update lc (both_access existing access) result
                | None \<Rightarrow> AList.update lc access result) xs m))" for xs m
  proof (induction xs arbitrary: m)
    case (Cons p xs)
    then show ?case
      by (cases p; cases "map_of m (to_lower (fst p))") (simp_all add: distinct_update Let_def)
  qed simp
  from assms show ?thesis
    by (simp add: unionContractAccess_def access_map_ok_def 1 2)
qed

lemma join_access_ok:
  assumes "pred_option (\<lambda>ca. ascii_functions (ca_Functions ca)) x"
    and "pred_option (\<lambda>ca. ascii_functions (ca_Functions ca)) y"
  shows "pred_option (\<lambda>ca. ascii_functions (ca_Functions ca)) (join_access x y)"
  using assms by (cases x; cases y) (simp_all add: join_access_def both_access_def ascii_unionFunctions)

lemma access_map_ok_union:
  assumes "access_map_ok a" "access_map_ok b"
  shows "access_map_ok (unionContractAccess a b)"
proof -
  have "to_lower k = k \<and> ascii_functions (ca_Functions ca)"
    if "map_of (unionContractAccess a b) k = Some ca" for k ca
  proof -
    from that have j: "join_access (map_of a k) (map_of b k) = Some ca"
      by (simp add: lookup_unionContractAccess [OF assms])
    have "pred_option (\<lambda>ca. ascii_functions (ca_Functions ca)) (map_of m k)" if "access_map_ok m" for m
      using access_map_ok_lookup [OF that] by (cases "map_of m k") simp_all
    then have "ascii_functions (ca_Functions ca)"
      using join_access_ok [of "map_of a k" "map_of b k"] assms j by simp
    moreover from j have "map_of a k \<noteq> None \<or> map_of b k \<noteq> None"
      by (cases "map_of a k"; cases "map_of b k") (simp_all add: join_access_def)
    ultimately show ?thesis using access_map_ok_lookup assms by blast
  qed
  with keys_unionContractAccess_distinct [OF assms] show ?thesis by (simp add: access_map_ok_iff)
qed

lemma accessHasFunctionSelector_allowed:
  "accessHasFunctionSelector x s \<longleftrightarrow> (\<exists>ca. x = Some ca \<and> function_allowed (ca_Functions ca) s)"
  by (auto simp: accessHasFunctionSelector_def function_allowed_def split: option.splits)

lemma accessHasFunctionSelector_join:
  assumes "pred_option (\<lambda>ca. ascii_functions (ca_Functions ca)) x"
    and "pred_option (\<lambda>ca. ascii_functions (ca_Functions ca)) y"
  shows "accessHasFunctionSelector (join_access x y) s \<longleftrightarrow>
           accessHasFunctionSelector x s \<or> accessHasFunctionSelector y s"
  using assms
  by (cases x; cases y)
    (simp_all add: accessHasFunctionSelector_allowed join_access_def both_access_def function_allowed_union)

section \<open>Groups\<close>

definition batch_ok :: "group_perms_batch \<Rightarrow> bool" where
  "batch_ok batch = list_all (\<lambda>(g, gs). list_all (\<lambda>grant. ascii_functions (cg_Functions grant)) gs) (gb_grants batch)"

definition group_grants :: "group_perms_batch \<Rightarrow> string \<Rightarrow> string \<Rightarrow> bool" where
  "group_grants batch groupID addr =
     list_ex (\<lambda>grant. case map_of (gb_contracts batch) (cg_ContractID grant) of
                        None \<Rightarrow> False
                      | Some c \<Rightarrow> to_lower (con_Address c) = addr) (grants_of batch groupID)"

lemma grants_of_ok: "batch_ok batch \<Longrightarrow> grant \<in> set (grants_of batch g) \<Longrightarrow> ascii_functions (cg_Functions grant)"
proof (cases "map_of (gb_grants batch) g")
  case (Some gs)
  then have "(g, gs) \<in> set (gb_grants batch)" by (rule map_of_SomeD)
  moreover assume "batch_ok batch" "grant \<in> set (grants_of batch g)"
  ultimately show ?thesis using Some by (fastforce simp: batch_ok_def grants_of_def list_all_iff)
qed (simp add: grants_of_def)

lemma grants_fold_ok:
  assumes "\<And>grant. grant \<in> set gs \<Longrightarrow> ascii_functions (cg_Functions grant)" "access_map_ok m"
  shows "access_map_ok
     (fold (\<lambda>grant m.
              case map_of cs (cg_ContractID grant) of
                None \<Rightarrow> m
              | Some contract \<Rightarrow>
                  AList.update (to_lower (con_Address contract))
                    \<lparr>ca_Claims = claims, ca_Functions = cg_Functions grant, ca_EventRules = cg_EventRules grant\<rparr> m)
           gs m)"
  using assms by (induction gs arbitrary: m) (auto simp: access_map_ok_update split: option.splits)

lemma grants_fold_dom:
  "map_of (fold (\<lambda>grant m.
              case map_of cs (cg_ContractID grant) of
                None \<Rightarrow> m
              | Some contract \<Rightarrow>
                  AList.update (to_lower (con_Address contract))
                    \<lparr>ca_Claims = claims, ca_Functions = cg_Functions grant, ca_EventRules = cg_EventRules grant\<rparr> m)
           gs m) k \<noteq> None \<longleftrightarrow>
     map_of m k \<noteq> None
     \<or> list_ex (\<lambda>grant. case map_of cs (cg_ContractID grant) of
                          None \<Rightarrow> False | Some c \<Rightarrow> to_lower (con_Address c) = k) gs"
  by (induction gs arbitrary: m) (auto simp: update_conv' split: option.splits if_splits)

lemma groupPerms_ok: "batch_ok batch \<Longrightarrow> access_map_ok (gp_ContractAccess (groupPerms r batch g))"
  by (simp add: groupPerms_def Let_def grants_fold_ok grants_of_ok)

lemma groupPerms_dom:
  "map_of (gp_ContractAccess (groupPerms r batch g)) k \<noteq> None \<longleftrightarrow> group_grants batch g k"
  using grants_fold_dom [where m = "[]"] by (simp add: groupPerms_def Let_def group_grants_def)

lemma set_membershipGroupIDs [simp]: "set (membershipGroupIDs ms) = (\<lambda>m. grp_ID (mwd_Group m)) ` set ms"
proof -
  have "set (fold (\<lambda>m ids. add_member (grp_ID (mwd_Group m)) ids) ms ids) =
      (\<lambda>m. grp_ID (mwd_Group m)) ` set ms \<union> set ids" for ids
    by (induction ms arbitrary: ids) auto
  then show ?thesis by (simp add: membershipGroupIDs_def)
qed

subsection \<open>Merging across memberships\<close>

definition merge_all :: "group_perm_set \<Rightarrow> group_perm_set list \<Rightarrow> group_perm_set" where
  "merge_all p ps = fold (\<lambda>q acc. merge_perms acc q) ps p"

definition perm_set_ok :: "group_perm_set \<Rightarrow> bool" where
  "perm_set_ok p = access_map_ok (gp_ContractAccess p)"

lemma merge_perms_ok: "perm_set_ok p \<Longrightarrow> perm_set_ok q \<Longrightarrow> perm_set_ok (merge_perms p q)"
  by (simp add: perm_set_ok_def merge_perms_def access_map_ok_union)

lemma merge_all_Nil [simp]: "merge_all p [] = p"
  by (simp add: merge_all_def)

lemma merge_all_Cons [simp]: "merge_all p (q # qs) = merge_all (merge_perms p q) qs"
  by (simp add: merge_all_def)

lemma merge_all_claims: "set (gp_Claims (merge_all p ps)) = (\<Union>q \<in> set (p # ps). set (gp_Claims q))"
  by (induction ps arbitrary: p) (auto simp: merge_perms_def)

lemma merge_all_methods:
  "set (gp_AllowedMethods (merge_all p ps)) \<subseteq> (\<Union>q \<in> set (p # ps). set (gp_AllowedMethods q))"
proof (induction ps arbitrary: p)
  case (Cons q ps)
  have "set (gp_AllowedMethods (merge_perms p q)) \<subseteq> set (gp_AllowedMethods p) \<union> set (gp_AllowedMethods q)"
    by (simp add: merge_perms_def set_unionStrings_subset)
  with Cons [of "merge_perms p q"] show ?case by auto
qed simp

lemma merge_all_methods_lower:
  "to_lower ` set (gp_AllowedMethods (merge_all p ps)) =
     (\<Union>q \<in> set (p # ps). to_lower ` set (gp_AllowedMethods q))"
proof (induction ps arbitrary: p)
  case (Cons q ps)
  have "to_lower ` set (gp_AllowedMethods (merge_perms p q)) =
      to_lower ` set (gp_AllowedMethods p) \<union> to_lower ` set (gp_AllowedMethods q)"
    by (simp add: merge_perms_def lower_unionStrings image_Un)
  with Cons [of "merge_perms p q"] show ?case by auto
qed simp

lemma lookup_ascii:
  "perm_set_ok p \<Longrightarrow> pred_option (\<lambda>ca. ascii_functions (ca_Functions ca)) (map_of (gp_ContractAccess p) k)"
  using access_map_ok_lookup by (cases "map_of (gp_ContractAccess p) k") (auto simp: perm_set_ok_def)

lemma merge_all_access:
  assumes "perm_set_ok p" "\<forall>q \<in> set ps. perm_set_ok q"
  shows "(map_of (gp_ContractAccess (merge_all p ps)) k \<noteq> None \<longleftrightarrow>
            (\<exists>q \<in> set (p # ps). map_of (gp_ContractAccess q) k \<noteq> None))
         \<and> (accessHasFunctionSelector (map_of (gp_ContractAccess (merge_all p ps)) k) s \<longleftrightarrow>
            (\<exists>q \<in> set (p # ps). accessHasFunctionSelector (map_of (gp_ContractAccess q) k) s))"
  using assms
proof (induction ps arbitrary: p)
  case (Cons q ps)
  have ok: "perm_set_ok p" "perm_set_ok q" using Cons.prems by simp_all
  have m: "map_of (gp_ContractAccess (merge_perms p q)) k =
      join_access (map_of (gp_ContractAccess p) k) (map_of (gp_ContractAccess q) k)"
    using ok by (simp add: merge_perms_def perm_set_ok_def lookup_unionContractAccess)
  have j: "join_access x y \<noteq> None \<longleftrightarrow> x \<noteq> None \<or> y \<noteq> None" for x y
    by (cases x; cases y) (simp_all add: join_access_def)
  have f: "accessHasFunctionSelector (map_of (gp_ContractAccess (merge_perms p q)) k) s \<longleftrightarrow>
      accessHasFunctionSelector (map_of (gp_ContractAccess p) k) s
      \<or> accessHasFunctionSelector (map_of (gp_ContractAccess q) k) s"
    unfolding m by (rule accessHasFunctionSelector_join [OF lookup_ascii [OF ok(1)] lookup_ascii [OF ok(2)]])
  have "\<forall>q \<in> set ps. perm_set_ok q" using Cons.prems(2) by simp
  from Cons.IH [OF merge_perms_ok [OF ok] this] show ?case
    unfolding list.set merge_all_Cons by (simp only: bex_simps f [unfolded m] m j disj_assoc)
qed simp

section \<open>The permissions of a user\<close>

lemma cacheExpiry_le:
  "cacheExpiry r now ms \<le> now + rs_cacheTTL r"
  "m \<in> set ms \<Longrightarrow> um_ExpiresAt (mwd_Membership m) = Some e \<Longrightarrow> cacheExpiry r now ms \<le> e"
proof -
  let ?step = "\<lambda>m exp. case um_ExpiresAt (mwd_Membership m) of
      None \<Rightarrow> exp | Some e \<Rightarrow> if e < exp then e else (exp :: Go_Prelude.time)"
  have le: "fold ?step ms exp \<le> exp" for ms exp
  proof (induction ms arbitrary: exp)
    case (Cons m ms)
    have "?step m exp \<le> exp" by (simp split: option.splits)
    with Cons [of "?step m exp"] show ?case by simp
  qed simp
  then show "cacheExpiry r now ms \<le> now + rs_cacheTTL r" by (simp add: cacheExpiry_def)
  have "m \<in> set ms \<Longrightarrow> um_ExpiresAt (mwd_Membership m) = Some e \<Longrightarrow> fold ?step ms exp \<le> e" for ms exp
  proof (induction ms arbitrary: exp)
    case (Cons m' ms)
    show ?case
    proof (cases "m = m'")
      case True
      with Cons.prems have "?step m' exp \<le> e" by simp
      with le [of ms "?step m' exp"] show ?thesis by simp
    next
      case False
      with Cons show ?thesis by simp
    qed
  qed simp
  then show "m \<in> set ms \<Longrightarrow> um_ExpiresAt (mwd_Membership m) = Some e \<Longrightarrow> cacheExpiry r now ms \<le> e"
    by (simp add: cacheExpiry_def)
qed

lemma computePermissions_member:
  assumes "st_ListUserMembershipsInOrg st u org = Inr (m # ms)"
    and "\<not> list_ex (\<lambda>m. grp_IsOrgAdmin (mwd_Group m)) (m # ms)"
    and "loadGroupPerms st (membershipGroupIDs (m # ms)) True = Inr batch"
  shows "\<exists>p. computePermissions r st now uuid u org = Inr p
     \<and> (let final = merge_all (groupPerms r batch (grp_ID (mwd_Group m)))
                      (map (\<lambda>m. groupPerms r batch (grp_ID (mwd_Group m))) ms)
        in ep_AllowedMethods p = gp_AllowedMethods final \<and> ep_ContractAccess p = gp_ContractAccess final
           \<and> ep_Claims p = ExpandClaims (gp_Claims final)
           \<and> ep_ExpiresAt p = cacheExpiry r now (m # ms) \<and> ep_UserID p = u \<and> ep_OrgID p = org)"
  using assms by (simp add: computePermissions_def merge_all_def fold_map comp_def Let_def)

lemma HasFunctionSelector_registered:
  "map_of (ep_ContractAccess e) (to_lower a) \<noteq> None \<or> \<not> IsPrecompileAddress (to_lower a) \<Longrightarrow>
     HasFunctionSelector e a s = accessHasFunctionSelector (map_of (ep_ContractAccess e) (to_lower a)) s"
  by (auto simp: accessHasFunctionSelector_eq [symmetric] GetContractAccess_def Let_def
      accessHasFunctionSelector_def split: option.splits)

section \<open>Properties\<close>

lemma groupPerms_methods:
  "gp_AllowedMethods (groupPerms r batch g) =
     (case map_of (gb_access batch) g of None \<Rightarrow> [] | Some a \<Rightarrow> ga_AllowedMethods a)"
  by (simp add: groupPerms_def Let_def)

text \<open>A user in two groups of one organization, with one contract that the first group grants.\<close>

definition demo_group :: "string \<Rightarrow> group" where
  "demo_group i =
     \<lparr>grp_ID = i, grp_OrgID = ''o'', grp_ParentID = None, grp_Slug = i, grp_Name = i, grp_Description = '''',
      grp_Depth = 0, grp_Path = i, grp_IsOrgAdmin = False, grp_IsOrgReadonlyAdmin = False,
      grp_IsSystem = False, grp_AutoCreated = False, grp_CreatedAt = 1, grp_UpdatedAt = 1\<rparr>"

definition demo_membership :: "string \<Rightarrow> Go_Prelude.time option \<Rightarrow> membership_with_details" where
  "demo_membership g expires =
     \<lparr>mwd_Membership =
        \<lparr>um_ID = g, um_UserID = ''u'', um_GroupID = g, um_Source = MembershipSourceAdmin,
         um_ZKCredentialRef = '''', um_ExpiresAt = expires, um_CreatedAt = 1, um_UpdatedAt = 1\<rparr>,
      mwd_Group = demo_group g\<rparr>"

definition demo_access :: "string \<Rightarrow> string list \<Rightarrow> claim list \<Rightarrow> group_access" where
  "demo_access g methods claims =
     \<lparr>ga_ID = g, ga_GroupID = g, ga_AllowedMethods = methods, ga_Claims = claims, ga_RPCAPIKey = None,
      ga_VerboseErrors = False, ga_CreatedAt = 1, ga_UpdatedAt = 1\<rparr>"

definition demo_contract :: contract where
  "demo_contract =
     \<lparr>con_ID = ''c'', con_OrgID = ''o'', con_Address = ''0xabc'', con_Name = '''', con_ABI = '''',
      con_DeployedByUserID = None, con_DeployedAt = None, con_Metadata = [], con_AllowVisibleToUnlock = False,
      con_EventsAllowDynamicPayload = False, con_CreatedAt = 1, con_UpdatedAt = 1\<rparr>"

definition demo_grant :: "function_rule list option \<Rightarrow> contract_grant" where
  "demo_grant fs =
     \<lparr>cg_ID = ''gr'', cg_ContractID = ''c'', cg_GroupID = ''g1'', cg_Functions = fs, cg_EventRules = None,
      cg_CreatedAt = 1, cg_UpdatedAt = 1\<rparr>"

definition demo_store :: "function_rule list option \<Rightarrow> store" where
  "demo_store fs =
     empty_store\<lparr>
       st_ListUserMembershipsInOrg :=
         (\<lambda>u org. Inr (if u = ''u'' \<and> org = ''o'' then [demo_membership ''g1'' (Some 50), demo_membership ''g2'' None] else [])),
       st_GetGroupAccessBatch :=
         (\<lambda>ids. Inr [(''g1'', demo_access ''g1'' [''eth_call'', ''linea_foo''] []),
                     (''g2'', demo_access ''g2'' [''linea_Foo''] [''admin''])]),
       st_ListContractGrantsBatch := (\<lambda>ids. Inr [(''g1'', [demo_grant fs])]),
       st_GetContractsByIDs := (\<lambda>ids. Inr [(''c'', demo_contract)])\<rparr>"

definition demo_resolver :: resolver where
  "demo_resolver = \<lparr>rs_cacheTTL = 100, rs_encryptionKey = [], rs_gcm_open = \<lambda>_ _. Inl ''no key''\<rparr>"

definition demo_batch :: "function_rule list option \<Rightarrow> group_perms_batch" where
  "demo_batch fs =
     \<lparr>gb_access = [(''g1'', demo_access ''g1'' [''eth_call'', ''linea_foo''] []),
                   (''g2'', demo_access ''g2'' [''linea_Foo''] [''admin''])],
      gb_grants = [(''g1'', [demo_grant fs])], gb_contracts = [(''c'', demo_contract)]\<rparr>"

lemmas demo_defs =
  demo_group_def demo_membership_def demo_access_def demo_contract_def demo_grant_def demo_store_def
  demo_resolver_def demo_batch_def empty_store_def

lemma demo_memberships:
  "st_ListUserMembershipsInOrg (demo_store fs) ''u'' ''o'' =
     Inr [demo_membership ''g1'' (Some 50), demo_membership ''g2'' None]"
  by (simp add: demo_defs)

lemma demo_load:
  "loadGroupPerms (demo_store fs)
     (membershipGroupIDs [demo_membership ''g1'' (Some 50), demo_membership ''g2'' None]) True = Inr (demo_batch fs)"
  by (simp add: loadGroupPerms_def membershipGroupIDs_def add_member_def demo_defs)

text \<open>
  C29. The permissions of a user who is in no org-admin group are exactly the union of what the
  user's groups grant: the operational claims are the expanded union of the groups' claims, a
  contract is accessible exactly when some group has a grant for it, and a function of it is allowed
  exactly when some group allows it. No merge of two memberships adds or loses a contract or a
  function.
\<close>

theorem resolver_union:
  assumes "st_ListUserMembershipsInOrg st u org = Inr ms" "ms \<noteq> []"
    and "\<not> list_ex (\<lambda>m. grp_IsOrgAdmin (mwd_Group m)) ms"
    and "loadGroupPerms st (membershipGroupIDs ms) True = Inr batch" "batch_ok batch"
  shows "\<exists>p. computePermissions r st now uuid u org = Inr p
     \<and> ep_Claims p = ExpandClaims (ep_Claims p)
     \<and> set (ep_Claims p) =
         set (ExpandClaims (concat (map (\<lambda>m. gp_Claims (groupPerms r batch (grp_ID (mwd_Group m)))) ms)))
     \<and> (\<forall>a. IsContractRegistered p a \<longleftrightarrow>
            list_ex (\<lambda>m. group_grants batch (grp_ID (mwd_Group m)) (to_lower a)) ms)
     \<and> (\<forall>a s. IsContractRegistered p a \<or> \<not> IsPrecompileAddress (to_lower a) \<longrightarrow>
            HasFunctionSelector p a s =
            list_ex (\<lambda>m. accessHasFunctionSelector
                       (map_of (gp_ContractAccess (groupPerms r batch (grp_ID (mwd_Group m)))) (to_lower a)) s) ms)"
proof -
  let ?g = "\<lambda>m. groupPerms r batch (grp_ID (mwd_Group m))"
  obtain m ms' where ms: "ms = m # ms'" using assms(2) by (cases ms) auto
  let ?final = "merge_all (?g m) (map ?g ms')"
  obtain p where p: "computePermissions r st now uuid u org = Inr p"
    "ep_ContractAccess p = gp_ContractAccess ?final" "ep_Claims p = ExpandClaims (gp_Claims ?final)"
    using computePermissions_member assms(1,3,4) unfolding ms Let_def by blast
  have ok: "perm_set_ok (?g x)" for x by (simp add: perm_set_ok_def groupPerms_ok assms(5))
  have acc: "(map_of (gp_ContractAccess ?final) k \<noteq> None \<longleftrightarrow>
       (\<exists>q \<in> set (?g m # map ?g ms'). map_of (gp_ContractAccess q) k \<noteq> None))
     \<and> (accessHasFunctionSelector (map_of (gp_ContractAccess ?final) k) s \<longleftrightarrow>
       (\<exists>q \<in> set (?g m # map ?g ms'). accessHasFunctionSelector (map_of (gp_ContractAccess q) k) s))" for k s
    by (intro merge_all_access) (auto simp: ok)
  have "IsContractRegistered p a \<longleftrightarrow> list_ex (\<lambda>m. group_grants batch (grp_ID (mwd_Group m)) (to_lower a)) ms" for a
    using acc [of "to_lower a"] by (simp add: IsContractRegistered_def p(2) ms list_ex_iff groupPerms_dom [simplified])
  moreover have "HasFunctionSelector p a s =
      list_ex (\<lambda>m. accessHasFunctionSelector (map_of (gp_ContractAccess (?g m)) (to_lower a)) s) ms"
    if "IsContractRegistered p a \<or> \<not> IsPrecompileAddress (to_lower a)" for a s
    using acc [of "to_lower a" s] that HasFunctionSelector_registered [of p a s]
    by (simp add: IsContractRegistered_def p(2) ms list_ex_iff)
  moreover have "set (ep_Claims p) = set (ExpandClaims (concat (map (\<lambda>m. gp_Claims (?g m)) ms)))"
    by (simp add: p(3) set_ExpandClaims merge_all_claims ms)
  ultimately show ?thesis using p(1,3) ExpandClaims_idem by metis
qed

theorem resolver_union_witness:
  "\<exists>p. computePermissions demo_resolver (demo_store (Some [])) 0 ''id'' ''u'' ''o'' = Inr p
       \<and> IsContractRegistered p ''0xABC'' \<and> \<not> HasFunctionSelector p ''0xABC'' ''0xa9059cbb''"
proof -
  let ?ms = "[demo_membership ''g1'' (Some 50), demo_membership ''g2'' None]"
  have na: "\<not> list_ex (\<lambda>m. grp_IsOrgAdmin (mwd_Group m)) ?ms" by (simp add: demo_defs)
  have ok: "batch_ok (demo_batch (Some []))" by (simp add: batch_ok_def ascii_functions_def demo_defs)
  from resolver_union [OF demo_memberships list.distinct(2) na demo_load ok, of demo_resolver 0 "''id''"]
  obtain p where p: "computePermissions demo_resolver (demo_store (Some [])) 0 ''id'' ''u'' ''o'' = Inr p"
    "\<forall>a. IsContractRegistered p a \<longleftrightarrow>
         list_ex (\<lambda>m. group_grants (demo_batch (Some [])) (grp_ID (mwd_Group m)) (to_lower a)) ?ms"
    "\<forall>a s. IsContractRegistered p a \<or> \<not> IsPrecompileAddress (to_lower a) \<longrightarrow> HasFunctionSelector p a s =
         list_ex (\<lambda>m. accessHasFunctionSelector
           (map_of (gp_ContractAccess (groupPerms demo_resolver (demo_batch (Some [])) (grp_ID (mwd_Group m)))) (to_lower a)) s) ?ms"
    by (elim exE conjE)
  have lc: "to_lower ''0xABC'' = ''0xabc''" "to_lower ''0xabc'' = ''0xabc''" by code_simp+
  have "IsContractRegistered p ''0xABC''" by (simp add: p(2) lc group_grants_def grants_of_def demo_defs)
  then show ?thesis
    using p(1) p(3) [THEN spec, of "''0xABC''", THEN spec, of "''0xa9059cbb''"]
    by (auto simp: lc groupPerms_def grants_of_def accessHasFunctionSelector_def demo_defs)
qed

text \<open>
  C33. A computed permission set never outlives the shortest of the memberships it was computed from,
  nor the cache lifetime; this holds on the org-admin path as well.
\<close>

theorem permissions_expire_with_memberships:
  assumes "computePermissions r st now uuid u org = Inr p" "st_ListUserMembershipsInOrg st u org = Inr ms"
  shows "ep_ExpiresAt p \<le> now + rs_cacheTTL r
     \<and> (\<forall>m \<in> set ms. \<forall>e. um_ExpiresAt (mwd_Membership m) = Some e \<longrightarrow> ep_ExpiresAt p \<le> e)"
proof (cases ms)
  case Nil
  with assms show ?thesis by (auto simp: computePermissions_def)
next
  case (Cons m ms')
  have "ep_ExpiresAt p = cacheExpiry r now ms"
    using assms Cons
    by (auto simp: computePermissions_def computeOrgAdminPermissions_def Let_def
        split: sum.splits if_splits prod.splits)
  then show ?thesis using cacheExpiry_le by auto
qed

theorem permissions_expire_with_memberships_witness:
  "\<exists>p. computePermissions demo_resolver (demo_store None) 0 ''id'' ''u'' ''o'' = Inr p \<and> ep_ExpiresAt p \<le> 50"
proof -
  have "\<not> list_ex (\<lambda>m. grp_IsOrgAdmin (mwd_Group m)) [demo_membership ''g1'' (Some 50), demo_membership ''g2'' None]"
    by (simp add: demo_defs)
  then obtain p where p: "computePermissions demo_resolver (demo_store None) 0 ''id'' ''u'' ''o'' = Inr p"
    using computePermissions_member [OF demo_memberships _ demo_load] by blast
  from permissions_expire_with_memberships [OF p demo_memberships] p show ?thesis
    by (simp add: demo_membership_def)
qed

text \<open>
  Method names are merged up to case but matched exactly, so a user can hold fewer methods than
  one of the user's groups: with two operator methods that differ only in case, each listed by one of
  two groups, membership in both loses the second one.
\<close>

theorem union_loses_case_variant:
  "\<exists>p. computePermissions demo_resolver (demo_store None) 0 ''id'' ''u'' ''o'' = Inr p
       \<and> \<not> HasMethod (ArmMethodRegistries demo_registries) p ''linea_Foo''
       \<and> HasMethod (ArmMethodRegistries demo_registries)
           (p\<lparr>ep_AllowedMethods := gp_AllowedMethods (groupPerms demo_resolver (demo_batch None) ''g2'')\<rparr>) ''linea_Foo''"
proof -
  have "\<not> list_ex (\<lambda>m. grp_IsOrgAdmin (mwd_Group m)) [demo_membership ''g1'' (Some 50), demo_membership ''g2'' None]"
    by (simp add: demo_defs)
  from computePermissions_member [OF demo_memberships this demo_load [of None], where r = demo_resolver and now = 0 and uuid = "''id''"]
  obtain p where p: "computePermissions demo_resolver (demo_store None) 0 ''id'' ''u'' ''o'' = Inr p"
    "ep_AllowedMethods p = gp_AllowedMethods (merge_all
       (groupPerms demo_resolver (demo_batch None) (grp_ID (mwd_Group (demo_membership ''g1'' (Some 50)))))
       (map (\<lambda>m. groupPerms demo_resolver (demo_batch None) (grp_ID (mwd_Group m))) [demo_membership ''g2'' None]))"
    unfolding Let_def by (elim exE conjE)
  have lc: "to_lower ''eth_call'' = ''eth_call''" "to_lower ''linea_foo'' = ''linea_foo''"
    "to_lower ''linea_Foo'' = ''linea_foo''" by code_simp+
  have "ep_AllowedMethods p = [''eth_call'', ''linea_foo'']"
    by (simp add: p(2) merge_perms_def groupPerms_methods unionStrings_def index_by_def merge_into_def lc demo_defs)
  moreover have "IsForwardableMethod (ArmMethodRegistries demo_registries) ''linea_Foo''"
    by (simp add: IsForwardableMethod_def ArmMethodRegistries_def demo_registries_def)
  moreover have "gp_AllowedMethods (groupPerms demo_resolver (demo_batch None) ''g2'') = [''linea_Foo'']"
    by (simp add: groupPerms_methods demo_defs)
  ultimately show ?thesis using p(1) by (simp add: HasMethod_def)
qed

end
