(* ===== verification/Permission_Cache.thy ===== *)
theory Permission_Cache
  imports Resolver
begin

text \<open>
  The three places that hold computed permissions: the in-process cache of
  \<^verbatim>\<open>internal/rbac/cache.go\<close>, the SQL table of \<^verbatim>\<open>internal/db/rbac_store_cache.go\<close> with its
  generation counter (\<^verbatim>\<open>internal/db/rbac_cache_generation.go\<close>), and the Redis-backed cache of
  \<^verbatim>\<open>internal/redis/cache.go\<close>. The locale \<^verbatim>\<open>permission_cache\<close> is the interface
  \<^verbatim>\<open>rbac.PermissionCache\<close> with the laws the access layer relies on. Go maps are association
  lists in iteration order; a table is an association list keyed by its primary key. The Redis
  server is a parameter: a record of the client calls the code makes.
\<close>

section \<open>The in-process cache\<close>

record cache_entry =
  ce_permissions :: effective_permissions
  ce_expiresAt :: "Go_Prelude.time"
  ce_lastAccess :: "Go_Prelude.time"

record Cache =
  ch_entries :: "(string \<times> cache_entry) list"
  ch_ttl :: int
  ch_maxEntries :: nat

record cache_config =
  cc_TTL :: int
  cc_MaxEntries :: nat

record cache_stats =
  cs_Entries :: nat
  cs_ExpiredPending :: nat
  cs_MaxEntries :: nat

definition minute :: int where
  "minute = 60 * 1000000000"

definition DefaultCacheConfig :: cache_config where
  "DefaultCacheConfig = \<lparr>cc_TTL = 5 * minute, cc_MaxEntries = 50000\<rparr>"

definition evictSampleSize :: nat where
  "evictSampleSize = 8"

definition NewCache :: "cache_config \<Rightarrow> Cache" where
  "NewCache config =
     \<lparr>ch_entries = [],
      ch_ttl = (if cc_TTL config = 0 then 5 * minute else cc_TTL config),
      ch_maxEntries = (if cc_MaxEntries config = 0 then 50000 else cc_MaxEntries config)\<rparr>"

definition cacheKey :: "string \<Rightarrow> string \<Rightarrow> string" where
  "cacheKey userID orgID = userID @ '':'' @ orgID"

definition cache_Get :: "Cache \<Rightarrow> Go_Prelude.time \<Rightarrow> string \<Rightarrow> string \<Rightarrow> effective_permissions option \<times> Cache" where
  "cache_Get c now userID orgID =
     (let key = cacheKey userID orgID in
      case map_of (ch_entries c) key of
        None \<Rightarrow> (None, c)
      | Some entry \<Rightarrow>
          if ce_expiresAt entry < now then (None, c)
          else (Some (ce_permissions entry),
                c\<lparr>ch_entries := AList.update key (entry\<lparr>ce_lastAccess := now\<rparr>) (ch_entries c)\<rparr>))"

fun oldest_entry :: "string \<times> Go_Prelude.time \<Rightarrow> (string \<times> cache_entry) list \<Rightarrow> string" where
  "oldest_entry (victim, oldest) [] = victim"
| "oldest_entry (victim, oldest) ((key, entry) # rest) =
     (if ce_lastAccess entry < oldest then oldest_entry (key, ce_lastAccess entry) rest
      else oldest_entry (victim, oldest) rest)"

definition evictLRU :: "Cache \<Rightarrow> Cache" where
  "evictLRU c =
     (case take evictSampleSize (ch_entries c) of
        [] \<Rightarrow> c
      | (key, entry) # rest \<Rightarrow>
          let victim = oldest_entry (key, ce_lastAccess entry) rest
          in if victim \<noteq> '''' then c\<lparr>ch_entries := AList.delete victim (ch_entries c)\<rparr> else c)"

definition cache_SetWithTTL :: "Cache \<Rightarrow> Go_Prelude.time \<Rightarrow> effective_permissions \<Rightarrow> int \<Rightarrow> Cache" where
  "cache_SetWithTTL c now perms ttl =
     (let key = cacheKey (ep_UserID perms) (ep_OrgID perms);
          c = (if map_of (ch_entries c) key = None \<and> ch_maxEntries c \<le> length (ch_entries c) then evictLRU c else c);
          expiresAt = now + ttl;
          expiresAt = (if ep_ExpiresAt perms \<noteq> 0 \<and> ep_ExpiresAt perms < expiresAt then ep_ExpiresAt perms else expiresAt)
      in c\<lparr>ch_entries :=
             AList.update key \<lparr>ce_permissions = perms, ce_expiresAt = expiresAt, ce_lastAccess = now\<rparr> (ch_entries c)\<rparr>)"

definition cache_Set :: "Cache \<Rightarrow> Go_Prelude.time \<Rightarrow> effective_permissions \<Rightarrow> Cache" where
  "cache_Set c now perms = cache_SetWithTTL c now perms (ch_ttl c)"

definition cache_InvalidateUser :: "Cache \<Rightarrow> string \<Rightarrow> Cache" where
  "cache_InvalidateUser c userID =
     c\<lparr>ch_entries :=
         filter (\<lambda>(key, _). \<not> (length userID < length key \<and> take (length userID) key = userID
                                 \<and> key ! length userID = CHR '':'')) (ch_entries c)\<rparr>"

definition cache_InvalidateOrg :: "Cache \<Rightarrow> string \<Rightarrow> Cache" where
  "cache_InvalidateOrg c orgID =
     (let suffix = '':'' @ orgID in
      c\<lparr>ch_entries :=
          filter (\<lambda>(key, _). \<not> (length suffix < length key \<and> drop (length key - length suffix) key = suffix))
            (ch_entries c)\<rparr>)"

definition cache_Invalidate :: "Cache \<Rightarrow> string \<Rightarrow> string \<Rightarrow> Cache" where
  "cache_Invalidate c userID orgID = c\<lparr>ch_entries := AList.delete (cacheKey userID orgID) (ch_entries c)\<rparr>"

definition cache_Clear :: "Cache \<Rightarrow> Cache" where
  "cache_Clear c = c\<lparr>ch_entries := []\<rparr>"

definition cache_Size :: "Cache \<Rightarrow> nat" where
  "cache_Size c = length (ch_entries c)"

definition cache_Stats :: "Cache \<Rightarrow> Go_Prelude.time \<Rightarrow> cache_stats" where
  "cache_Stats c now =
     \<lparr>cs_Entries = length (ch_entries c),
      cs_ExpiredPending = length (filter (\<lambda>(_, entry). ce_expiresAt entry < now) (ch_entries c)),
      cs_MaxEntries = ch_maxEntries c\<rparr>"

definition cache_cleanup :: "Cache \<Rightarrow> Go_Prelude.time \<Rightarrow> Cache" where
  "cache_cleanup c now = c\<lparr>ch_entries := filter (\<lambda>(_, entry). \<not> ce_expiresAt entry < now) (ch_entries c)\<rparr>"

section \<open>Permissions as JSON\<close>

text \<open>
  The \<^verbatim>\<open>contract_access\<close> column (and the Redis payload) is \<^verbatim>\<open>json.Marshal\<close> of the map from
  addresses to \<^verbatim>\<open>ContractAccess\<close>, at the level of JSON values. The tag of \<^verbatim>\<open>Functions\<close> is
  \<^verbatim>\<open>functions,omitempty\<close>: an empty list is left out just as a nil one.
\<close>

definition function_rule_json :: "function_rule \<Rightarrow> json" where
  "function_rule_json r =
     JObj ([(''selector'', JStr (fr_Selector r))]
           @ (if fr_ParamRules r = [] then []
              else [(''param_rules'', JArr (map param_rule_json (fr_ParamRules r)))]))"

definition contract_access_json :: "contract_access \<Rightarrow> json" where
  "contract_access_json ca =
     JObj ([(''claims'', JArr (map JStr (ca_Claims ca)))]
           @ (case ca_Functions ca of
                None \<Rightarrow> []
              | Some fs \<Rightarrow> if fs = [] then [] else [(''functions'', JArr (map function_rule_json fs))])
           @ [(''event_rules'', case ca_EventRules ca of None \<Rightarrow> JNull | Some f \<Rightarrow> MarshalJSON f)])"

definition access_map_json :: "(string \<times> contract_access) list \<Rightarrow> json" where
  "access_map_json m = JObj (map (\<lambda>(addr, ca). (addr, contract_access_json ca)) m)"

definition function_rule_upd :: "string \<times> json \<Rightarrow> function_rule \<Rightarrow> function_rule option" where
  "function_rule_upd kv r =
     (case struct_field [''selector'', ''param_rules''] (fst kv) of
        None \<Rightarrow> Some r
      | Some f \<Rightarrow>
          if f = ''selector'' then map_option (\<lambda>s. r\<lparr>fr_Selector := s\<rparr>) (json_string (fr_Selector r) (snd kv))
          else map_option (\<lambda>ps. r\<lparr>fr_ParamRules := ps\<rparr>) (json_slice param_rule_of_json (snd kv)))"

definition function_rule_of_json :: "json \<Rightarrow> function_rule option" where
  "function_rule_of_json = json_struct function_rule_upd \<lparr>fr_Selector = '''', fr_ParamRules = []\<rparr>"

definition contract_access_upd :: "string \<times> json \<Rightarrow> contract_access \<Rightarrow> contract_access option" where
  "contract_access_upd kv ca =
     (case struct_field [''claims'', ''functions'', ''event_rules''] (fst kv) of
        None \<Rightarrow> Some ca
      | Some f \<Rightarrow>
          if f = ''claims'' then map_option (\<lambda>cs. ca\<lparr>ca_Claims := cs\<rparr>) (json_slice (json_string '''') (snd kv))
          else if f = ''functions''
          then (if snd kv = JNull then Some (ca\<lparr>ca_Functions := None\<rparr>)
                else map_option (\<lambda>fs. ca\<lparr>ca_Functions := Some fs\<rparr>) (json_slice function_rule_of_json (snd kv)))
          else (if snd kv = JNull then Some (ca\<lparr>ca_EventRules := None\<rparr>)
                else (case UnmarshalJSON (snd kv) of
                        Inl _ \<Rightarrow> None
                      | Inr erf \<Rightarrow> Some (ca\<lparr>ca_EventRules := Some erf\<rparr>))))"

definition contract_access_of_json :: "json \<Rightarrow> contract_access option" where
  "contract_access_of_json =
     json_struct contract_access_upd \<lparr>ca_Claims = [], ca_Functions = None, ca_EventRules = None\<rparr>"

fun access_map_of_json :: "json \<Rightarrow> (string \<times> contract_access) list option" where
  "access_map_of_json (JObj kvs) =
     those (map (\<lambda>(addr, v). map_option (\<lambda>ca. (addr, ca)) (contract_access_of_json v)) kvs)"
| "access_map_of_json JNull = Some []"
| "access_map_of_json _ = None"

section \<open>The SQL table and its generation\<close>

record cache_row =
  cr_id :: string
  cr_allowed_methods :: "string list"
  cr_contract_access :: json
  cr_claims :: "string list"
  cr_computed_at :: "Go_Prelude.time"
  cr_expires_at :: "Go_Prelude.time"

record cache_table =
  ct_rows :: "((string \<times> string) \<times> cache_row) list"
  ct_generation :: int

definition GetCachedPermissions ::
  "cache_table \<Rightarrow> Go_Prelude.time \<Rightarrow> string \<Rightarrow> string \<Rightarrow> effective_permissions option res" where
  "GetCachedPermissions t now userID orgID =
     (case map_of (ct_rows t) (userID, orgID) of
        None \<Rightarrow> Inr None
      | Some row \<Rightarrow>
          if \<not> now < cr_expires_at row then Inr None
          else case access_map_of_json (cr_contract_access row) of
            None \<Rightarrow> Inl ''failed to unmarshal contract_access''
          | Some access \<Rightarrow>
              Inr (Some \<lparr>ep_ID = cr_id row, ep_UserID = userID, ep_OrgID = orgID,
                         ep_AllowedMethods = cr_allowed_methods row, ep_ContractAccess = access,
                         ep_Claims = cr_claims row, ep_RPCAPIKey = '''',
                         ep_ComputedAt = cr_computed_at row, ep_ExpiresAt = cr_expires_at row\<rparr>))"

definition setCachedPermissions :: "cache_table \<Rightarrow> effective_permissions \<Rightarrow> cache_table" where
  "setCachedPermissions t perms =
     (let key = (ep_UserID perms, ep_OrgID perms);
          row = \<lparr>cr_id = (case map_of (ct_rows t) key of None \<Rightarrow> ep_ID perms | Some old \<Rightarrow> cr_id old),
                 cr_allowed_methods = ep_AllowedMethods perms,
                 cr_contract_access = access_map_json (ep_ContractAccess perms),
                 cr_claims = ep_Claims perms,
                 cr_computed_at = ep_ComputedAt perms, cr_expires_at = ep_ExpiresAt perms\<rparr>
      in t\<lparr>ct_rows := AList.update key row (ct_rows t)\<rparr>)"

definition CacheGeneration :: "cache_table \<Rightarrow> int" where
  "CacheGeneration t = ct_generation t"

definition bumpCacheGeneration :: "cache_table \<Rightarrow> cache_table" where
  "bumpCacheGeneration t = t\<lparr>ct_generation := ct_generation t + 1\<rparr>"

definition SetCachedPermissionsAtGeneration ::
  "cache_table \<Rightarrow> effective_permissions \<Rightarrow> int \<Rightarrow> bool \<times> cache_table" where
  "SetCachedPermissionsAtGeneration t perms wantGeneration =
     (if ct_generation t \<noteq> wantGeneration then (False, t)
      else (True, setCachedPermissions t perms))"

definition InvalidateCacheForUser :: "cache_table \<Rightarrow> string \<Rightarrow> cache_table" where
  "InvalidateCacheForUser t userID =
     (let t = bumpCacheGeneration t
      in t\<lparr>ct_rows := filter (\<lambda>((u, _), _). u \<noteq> userID) (ct_rows t)\<rparr>)"

definition invalidateCacheForOrg :: "cache_table \<Rightarrow> string \<Rightarrow> cache_table" where
  "invalidateCacheForOrg t orgID =
     (let t = bumpCacheGeneration t
      in t\<lparr>ct_rows := filter (\<lambda>((_, org), _). org \<noteq> orgID) (ct_rows t)\<rparr>)"

definition invalidateCacheForGroup :: "cache_table \<Rightarrow> string list \<Rightarrow> cache_table" where
  "invalidateCacheForGroup t members =
     (let t = bumpCacheGeneration t
      in t\<lparr>ct_rows := filter (\<lambda>((u, _), _). u \<notin> set members) (ct_rows t)\<rparr>)"

definition CleanupExpiredCache :: "cache_table \<Rightarrow> Go_Prelude.time \<Rightarrow> nat \<times> cache_table" where
  "CleanupExpiredCache t now =
     (length (filter (\<lambda>(_, row). cr_expires_at row < now) (ct_rows t)),
      t\<lparr>ct_rows := filter (\<lambda>(_, row). \<not> cr_expires_at row < now) (ct_rows t)\<rparr>)"

section \<open>The Redis cache\<close>

record 's redis_client =
  rc_get :: "'s \<Rightarrow> Go_Prelude.time \<Rightarrow> string \<Rightarrow> json option"
  rc_set :: "'s \<Rightarrow> Go_Prelude.time \<Rightarrow> string \<Rightarrow> json \<Rightarrow> int \<Rightarrow> 's"
  rc_del :: "'s \<Rightarrow> string list \<Rightarrow> 's"
  rc_scan :: "'s \<Rightarrow> string \<Rightarrow> string list"

definition redis_key :: "string \<Rightarrow> string \<Rightarrow> string" where
  "redis_key userID orgID = ''pp:rbac:'' @ userID @ '':'' @ orgID"

text \<open>
  The payload embeds the permissions and adds the API key under its own name; the times are JSON
  timestamps, written here as numbers.
\<close>

definition permissions_json :: "effective_permissions \<Rightarrow> json" where
  "permissions_json p =
     JObj ([(''id'', JStr (ep_ID p)), (''user_id'', JStr (ep_UserID p)), (''org_id'', JStr (ep_OrgID p)),
            (''allowed_methods'', JArr (map JStr (ep_AllowedMethods p))),
            (''contract_access'', access_map_json (ep_ContractAccess p)),
            (''claims'', JArr (map JStr (ep_Claims p))),
            (''computed_at'', JNum (itoa (ep_ComputedAt p))), (''expires_at'', JNum (itoa (ep_ExpiresAt p)))]
           @ (if ep_RPCAPIKey p = '''' then [] else [(''_rpc_api_key'', JStr (ep_RPCAPIKey p))]))"

definition permissions_upd :: "string \<times> json \<Rightarrow> effective_permissions \<Rightarrow> effective_permissions option" where
  "permissions_upd kv p =
     (case struct_field [''id'', ''user_id'', ''org_id'', ''allowed_methods'', ''contract_access'', ''claims'',
                         ''computed_at'', ''expires_at'', ''_rpc_api_key''] (fst kv) of
        None \<Rightarrow> Some p
      | Some f \<Rightarrow>
          if f = ''id'' then map_option (\<lambda>s. p\<lparr>ep_ID := s\<rparr>) (json_string (ep_ID p) (snd kv))
          else if f = ''user_id'' then map_option (\<lambda>s. p\<lparr>ep_UserID := s\<rparr>) (json_string (ep_UserID p) (snd kv))
          else if f = ''org_id'' then map_option (\<lambda>s. p\<lparr>ep_OrgID := s\<rparr>) (json_string (ep_OrgID p) (snd kv))
          else if f = ''allowed_methods''
          then map_option (\<lambda>ms. p\<lparr>ep_AllowedMethods := ms\<rparr>) (json_slice (json_string '''') (snd kv))
          else if f = ''contract_access''
          then map_option (\<lambda>m. p\<lparr>ep_ContractAccess := m\<rparr>) (access_map_of_json (snd kv))
          else if f = ''claims'' then map_option (\<lambda>cs. p\<lparr>ep_Claims := cs\<rparr>) (json_slice (json_string '''') (snd kv))
          else if f = ''computed_at'' then map_option (\<lambda>t. p\<lparr>ep_ComputedAt := t\<rparr>) (json_int (ep_ComputedAt p) (snd kv))
          else if f = ''expires_at'' then map_option (\<lambda>t. p\<lparr>ep_ExpiresAt := t\<rparr>) (json_int (ep_ExpiresAt p) (snd kv))
          else map_option (\<lambda>k. p\<lparr>ep_RPCAPIKey := k\<rparr>) (json_string (ep_RPCAPIKey p) (snd kv)))"

definition permissions_of_json :: "json \<Rightarrow> effective_permissions option" where
  "permissions_of_json =
     json_struct permissions_upd
       \<lparr>ep_ID = '''', ep_UserID = '''', ep_OrgID = '''', ep_AllowedMethods = [], ep_ContractAccess = [],
        ep_Claims = [], ep_RPCAPIKey = '''', ep_ComputedAt = 0, ep_ExpiresAt = 0\<rparr>"

definition redis_Get :: "'s redis_client \<Rightarrow> 's \<Rightarrow> Go_Prelude.time \<Rightarrow> string \<Rightarrow> string \<Rightarrow> effective_permissions option" where
  "redis_Get rc s now userID orgID =
     (case rc_get rc s now (redis_key userID orgID) of
        None \<Rightarrow> None
      | Some data \<Rightarrow> permissions_of_json data)"

definition redis_SetWithTTL :: "'s redis_client \<Rightarrow> 's \<Rightarrow> Go_Prelude.time \<Rightarrow> effective_permissions \<Rightarrow> int \<Rightarrow> 's" where
  "redis_SetWithTTL rc s now perms ttl =
     rc_set rc s now (redis_key (ep_UserID perms) (ep_OrgID perms)) (permissions_json perms) ttl"

definition redis_deleteByPattern :: "'s redis_client \<Rightarrow> 's \<Rightarrow> string \<Rightarrow> 's" where
  "redis_deleteByPattern rc s pat = (let keys = rc_scan rc s pat in if keys \<noteq> [] then rc_del rc s keys else s)"

definition redis_InvalidateUser :: "'s redis_client \<Rightarrow> 's \<Rightarrow> string \<Rightarrow> 's" where
  "redis_InvalidateUser rc s userID = redis_deleteByPattern rc s (''pp:rbac:'' @ userID @ '':*'')"

definition redis_InvalidateOrg :: "'s redis_client \<Rightarrow> 's \<Rightarrow> string \<Rightarrow> 's" where
  "redis_InvalidateOrg rc s orgID = redis_deleteByPattern rc s (''pp:rbac:*:'' @ orgID)"

definition redis_Invalidate :: "'s redis_client \<Rightarrow> 's \<Rightarrow> string \<Rightarrow> string \<Rightarrow> 's" where
  "redis_Invalidate rc s userID orgID = rc_del rc s [redis_key userID orgID]"

definition redis_Clear :: "'s redis_client \<Rightarrow> 's \<Rightarrow> 's" where
  "redis_Clear rc s = redis_deleteByPattern rc s ''pp:rbac:*''"

section \<open>Lemmas\<close>

subsection \<open>What the JSON form keeps\<close>

definition normal_events :: "event_rules_field option \<Rightarrow> event_rules_field option" where
  "normal_events e =
     (case e of
        None \<Rightarrow> None
      | Some f \<Rightarrow>
          if erf_Wildcard f then Some (f\<lparr>erf_Rules := []\<rparr>) else if erf_Rules f = [] then None else Some f)"

definition normal_access :: "contract_access \<Rightarrow> contract_access" where
  "normal_access ca =
     ca\<lparr>ca_Functions := (if ca_Functions ca = Some [] then None else ca_Functions ca),
        ca_EventRules := normal_events (ca_EventRules ca)\<rparr>"

definition function_rule_ok :: "function_rule \<Rightarrow> bool" where
  "function_rule_ok r = list_all param_rule_ok (fr_ParamRules r)"

definition contract_access_ok :: "contract_access \<Rightarrow> bool" where
  "contract_access_ok ca =
     ((case ca_Functions ca of None \<Rightarrow> True | Some fs \<Rightarrow> list_all function_rule_ok fs)
      \<and> (case ca_EventRules ca of None \<Rightarrow> True | Some f \<Rightarrow> event_rules_ok f))"

definition permissions_ok :: "effective_permissions \<Rightarrow> bool" where
  "permissions_ok p = list_all (\<lambda>(_, ca). contract_access_ok ca) (ep_ContractAccess p)"

lemma json_strings: "json_slice (json_string '''') (JArr (map JStr ss)) = Some ss"
  unfolding json_slice.simps by (rule those_map_inv) simp

lemma function_rule_roundtrip: "function_rule_ok r \<Longrightarrow> function_rule_of_json (function_rule_json r) = Some r"
proof -
  assume "function_rule_ok r"
  then have "json_slice param_rule_of_json (JArr (map param_rule_json (fr_ParamRules r))) = Some (fr_ParamRules r)"
    unfolding json_slice.simps
    by (intro those_map_inv) (simp add: function_rule_ok_def list_all_iff param_rule_roundtrip)
  then show ?thesis
    by (simp add: function_rule_of_json_def function_rule_json_def function_rule_upd_def struct_field_def)
qed

lemma functions_roundtrip:
  "list_all function_rule_ok fs \<Longrightarrow> json_slice function_rule_of_json (JArr (map function_rule_json fs)) = Some fs"
  unfolding json_slice.simps by (intro those_map_inv) (simp add: list_all_iff function_rule_roundtrip)

lemma MarshalJSON_null: "MarshalJSON f = JNull \<longleftrightarrow> IsDeny f"
  by (simp add: MarshalJSON_def IsDeny_def)

lemma events_field_upd:
  assumes "case e of None \<Rightarrow> True | Some f \<Rightarrow> event_rules_ok f" "ca_EventRules ca = None"
  shows "contract_access_upd (''event_rules'', case e of None \<Rightarrow> JNull | Some f \<Rightarrow> MarshalJSON f) ca =
     Some (ca\<lparr>ca_EventRules := normal_events e\<rparr>)"
proof (cases e)
  case None
  then show ?thesis by (simp add: contract_access_upd_def struct_field_def normal_events_def)
next
  case (Some f)
  with assms have "event_rules_ok f" by simp
  then show ?thesis
    using Some MarshalJSON_null [of f]
    by (auto simp: contract_access_upd_def struct_field_def normal_events_def Unmarshal_Marshal IsDeny_def)
qed

lemma contract_access_roundtrip:
  assumes "contract_access_ok ca"
  shows "contract_access_of_json (contract_access_json ca) = Some (normal_access ca)"
proof -
  have claims: "contract_access_upd (''claims'', JArr (map JStr cs)) x = Some (x\<lparr>ca_Claims := cs\<rparr>)" for cs x
    by (simp add: contract_access_upd_def struct_field_def json_strings del: json_slice.simps)
  have funs: "contract_access_upd (''functions'', JArr (map function_rule_json fs)) x = Some (x\<lparr>ca_Functions := Some fs\<rparr>)"
    if "list_all function_rule_ok fs" for fs x
    by (simp add: contract_access_upd_def struct_field_def functions_roundtrip [OF that] del: json_slice.simps)
  show ?thesis
    using assms events_field_upd [of "ca_EventRules ca"]
    by (cases ca; cases "ca_Functions ca")
      (auto simp: contract_access_of_json_def contract_access_json_def contract_access_ok_def normal_access_def
        claims funs)
qed

lemma access_map_roundtrip:
  assumes "list_all (\<lambda>(_, ca). contract_access_ok ca) m"
  shows "access_map_of_json (access_map_json m) = Some (map (\<lambda>(a, ca). (a, normal_access ca)) m)"
proof -
  have "those (map (\<lambda>(addr, v). map_option (\<lambda>ca. (addr, ca)) (contract_access_of_json v))
        (map (\<lambda>(addr, ca). (addr, contract_access_json ca)) m)) = Some (map (\<lambda>(a, ca). (a, normal_access ca)) m)"
    using assms by (induction m) (auto simp: contract_access_roundtrip)
  then show ?thesis by (simp add: access_map_json_def)
qed

lemma lookup_normal:
  "map_of (map (\<lambda>(a, ca). (a, normal_access ca)) m) k = map_option normal_access (map_of m k)"
  by (induction m) auto

definition reread :: "effective_permissions \<Rightarrow> effective_permissions" where
  "reread p = p\<lparr>ep_ContractAccess := map (\<lambda>(a, ca). (a, normal_access ca)) (ep_ContractAccess p)\<rparr>"

lemma sql_roundtrip:
  assumes "permissions_ok p" "now < ep_ExpiresAt p"
  shows "\<exists>i. GetCachedPermissions (setCachedPermissions t p) now (ep_UserID p) (ep_OrgID p) =
     Inr (Some ((reread p)\<lparr>ep_ID := i, ep_RPCAPIKey := ''''\<rparr>))"
  using assms access_map_roundtrip [of "ep_ContractAccess p"]
  by (cases p) (simp add: GetCachedPermissions_def setCachedPermissions_def permissions_ok_def reread_def
      Let_def update_conv')

definition no_deny_all :: "effective_permissions \<Rightarrow> bool" where
  "no_deny_all p = list_all (\<lambda>(_, ca). ca_Functions ca \<noteq> Some []) (ep_ContractAccess p)"

lemma GetContractAccess_reread:
  "GetContractAccess ((reread p)\<lparr>ep_ID := i, ep_RPCAPIKey := k\<rparr>) a =
     (if IsContractRegistered p a then map_option normal_access (GetContractAccess p a) else GetContractAccess p a)"
  by (auto simp: GetContractAccess_def reread_def lookup_normal IsContractRegistered_def Let_def split: option.splits)

lemma registered_functions:
  "no_deny_all p \<Longrightarrow> IsContractRegistered p a \<Longrightarrow> GetContractAccess p a = Some ca \<Longrightarrow> ca_Functions ca \<noteq> Some []"
  by (auto simp: no_deny_all_def list_all_iff IsContractRegistered_def GetContractAccess_def Let_def
      split: option.splits dest!: map_of_SomeD)

section \<open>The cache interface\<close>

text \<open>
  The laws of \<^verbatim>\<open>rbac.PermissionCache\<close>: a stored set is found under its own user and organization
  only, and only until it is overwritten, dropped or evicted; dropping a user or an organization
  removes exactly their entries; a set is not served past its own expiry.
\<close>

datatype cache_op =
    OpPut "Go_Prelude.time" effective_permissions
  | OpTouch "Go_Prelude.time" string string
  | OpDropUser string
  | OpDropOrg string

fun op_drops :: "cache_op \<Rightarrow> string \<Rightarrow> string \<Rightarrow> bool" where
  "op_drops (OpDropUser v) u org = (v = u)"
| "op_drops (OpDropOrg g) u org = (g = org)"
| "op_drops _ u org = False"

locale permission_cache =
  fixes lookup :: "'c \<Rightarrow> Go_Prelude.time \<Rightarrow> string \<Rightarrow> string \<Rightarrow> effective_permissions option"
    and put :: "'c \<Rightarrow> Go_Prelude.time \<Rightarrow> effective_permissions \<Rightarrow> 'c"
    and touch :: "'c \<Rightarrow> Go_Prelude.time \<Rightarrow> string \<Rightarrow> string \<Rightarrow> 'c"
    and drop_user :: "'c \<Rightarrow> string \<Rightarrow> 'c"
    and drop_org :: "'c \<Rightarrow> string \<Rightarrow> 'c"
    and inv :: "'c \<Rightarrow> bool"
    and id_ok :: "string \<Rightarrow> bool"
  assumes put_lookup:
      "id_ok u \<Longrightarrow> id_ok (ep_UserID p) \<Longrightarrow> lookup (put c now p) now' u org = Some q \<Longrightarrow>
         (if u = ep_UserID p \<and> org = ep_OrgID p then q = p else lookup c now' u org = Some q)"
    and touch_lookup: "lookup (touch c now u org) now' u' org' = lookup c now' u' org'"
    and drop_user_lookup:
      "id_ok u \<Longrightarrow> id_ok u' \<Longrightarrow> lookup (drop_user c u') now u org = (if u = u' then None else lookup c now u org)"
    and drop_org_lookup:
      "id_ok u \<Longrightarrow> id_ok org \<Longrightarrow> id_ok org' \<Longrightarrow>
         lookup (drop_org c org') now u org = (if org = org' then None else lookup c now u org)"
    and inv_put: "inv c \<Longrightarrow> inv (put c now p)"
    and inv_touch: "inv c \<Longrightarrow> inv (touch c now u org)"
    and inv_drop_user: "inv c \<Longrightarrow> inv (drop_user c u)"
    and inv_drop_org: "inv c \<Longrightarrow> inv (drop_org c org)"
    and lookup_unexpired: "inv c \<Longrightarrow> lookup c now u org = Some q \<Longrightarrow> ep_ExpiresAt q = 0 \<or> now \<le> ep_ExpiresAt q"
begin

fun run_op :: "cache_op \<Rightarrow> 'c \<Rightarrow> 'c" where
  "run_op (OpPut t p) c = put c t p"
| "run_op (OpTouch t u org) c = touch c t u org"
| "run_op (OpDropUser u) c = drop_user c u"
| "run_op (OpDropOrg org) c = drop_org c org"

fun op_ok :: "cache_op \<Rightarrow> bool" where
  "op_ok (OpPut t p) = id_ok (ep_UserID p)"
| "op_ok (OpTouch t u org) = True"
| "op_ok (OpDropUser u) = id_ok u"
| "op_ok (OpDropOrg org) = id_ok org"

lemma inv_run: "inv c \<Longrightarrow> inv (fold run_op ops c)"
proof (induction ops arbitrary: c)
  case (Cons x ops)
  have "inv (run_op x c)" using Cons.prems by (cases x) (simp_all add: inv_put inv_touch inv_drop_user inv_drop_org)
  with Cons.IH show ?case by simp
qed simp

lemma served_is_fresh:
  assumes "list_all op_ok ops" "id_ok u" "id_ok org" "lookup (fold run_op ops c) now u org = Some q"
  shows "lookup c now u org = Some q \<and> list_all (\<lambda>x. \<not> op_drops x u org) ops
    \<or> (\<exists>pre t post. ops = pre @ OpPut t q # post \<and> ep_UserID q = u \<and> ep_OrgID q = org
         \<and> list_all (\<lambda>x. \<not> op_drops x u org) post)"
  using assms(1,4)
proof (induction ops rule: rev_induct)
  case Nil
  then show ?case by simp
next
  case (snoc x ops)
  let ?c = "fold run_op ops c"
  have l: "lookup (run_op x ?c) now u org = Some q" and ok: "op_ok x" "list_all op_ok ops"
    using snoc.prems by simp_all
  consider (new) t where "x = OpPut t q" "ep_UserID q = u" "ep_OrgID q = org"
    | (old) "lookup ?c now u org = Some q" "\<not> op_drops x u org"
  proof (cases x)
    case (OpPut t p)
    have "lookup (put ?c t p) now u org = Some q" "id_ok (ep_UserID p)" using l ok OpPut by simp_all
    then have h: "if u = ep_UserID p \<and> org = ep_OrgID p then q = p else lookup ?c now u org = Some q"
      by (intro put_lookup [OF assms(2)])
    show ?thesis
    proof (cases "u = ep_UserID p \<and> org = ep_OrgID p")
      case True
      with h OpPut show ?thesis by (intro that(1) [of t]) simp_all
    next
      case False
      with h have "lookup ?c now u org = Some q" by simp
      then show ?thesis by (rule that(2)) (simp add: OpPut)
    qed
  next
    case (OpTouch t u' org')
    have "lookup ?c now u org = Some q" using l OpTouch by (simp add: touch_lookup)
    then show ?thesis by (rule that(2)) (simp add: OpTouch)
  next
    case (OpDropUser u')
    have "lookup (drop_user ?c u') now u org = Some q" "id_ok u'" using l ok OpDropUser by simp_all
    then have "lookup ?c now u org = Some q \<and> u \<noteq> u'"
      by (simp add: drop_user_lookup [OF assms(2)] split: if_splits)
    then show ?thesis by (intro that(2)) (auto simp: OpDropUser)
  next
    case (OpDropOrg org')
    have "lookup (drop_org ?c org') now u org = Some q" "id_ok org'" using l ok OpDropOrg by simp_all
    then have "lookup ?c now u org = Some q \<and> org \<noteq> org'"
      by (simp add: drop_org_lookup [OF assms(2,3)] split: if_splits)
    then show ?thesis by (intro that(2)) (auto simp: OpDropOrg)
  qed
  then show ?case
  proof cases
    case new
    then show ?thesis by (intro disjI2 exI [of _ ops] exI [of _ t] exI [of _ "[]"]) simp
  next
    case old
    from snoc.IH [OF ok(2) old(1)] old(2) show ?thesis
    proof (elim disjE exE conjE)
      fix pre t post
      assume "ops = pre @ OpPut t q # post" "ep_UserID q = u" "ep_OrgID q = org"
        "list_all (\<lambda>x. \<not> op_drops x u org) post"
      with old(2) show ?thesis
        by (intro disjI2 exI [of _ pre] exI [of _ t] exI [of _ "post @ [x]"]) simp
    qed simp
  qed
qed

end

section \<open>The in-process cache implements the interface\<close>

definition cache_lookup :: "Cache \<Rightarrow> Go_Prelude.time \<Rightarrow> string \<Rightarrow> string \<Rightarrow> effective_permissions option" where
  "cache_lookup c now u org = fst (cache_Get c now u org)"

definition cache_touch :: "Cache \<Rightarrow> Go_Prelude.time \<Rightarrow> string \<Rightarrow> string \<Rightarrow> Cache" where
  "cache_touch c now u org = snd (cache_Get c now u org)"

definition plain_id :: "string \<Rightarrow> bool" where
  "plain_id s \<longleftrightarrow> s \<noteq> '''' \<and> CHR '':'' \<notin> set s"

definition cache_inv :: "Cache \<Rightarrow> bool" where
  "cache_inv c \<longleftrightarrow> (\<forall>k e. map_of (ch_entries c) k = Some e \<longrightarrow>
     ep_ExpiresAt (ce_permissions e) = 0 \<or> ce_expiresAt e \<le> ep_ExpiresAt (ce_permissions e))"

lemma cacheKey_inj:
  "CHR '':'' \<notin> set u \<Longrightarrow> CHR '':'' \<notin> set u' \<Longrightarrow> cacheKey u org = cacheKey u' org' \<longleftrightarrow> u = u' \<and> org = org'"
proof (induction u arbitrary: u')
  case Nil
  then show ?case by (cases u') (auto simp: cacheKey_def)
next
  case (Cons c u)
  then show ?case by (cases u') (auto simp: cacheKey_def)
qed

lemma cache_lookup_def':
  "cache_lookup c now u org =
     (case map_of (ch_entries c) (cacheKey u org) of
        None \<Rightarrow> None | Some e \<Rightarrow> if ce_expiresAt e < now then None else Some (ce_permissions e))"
  by (simp add: cache_lookup_def cache_Get_def Let_def split: option.splits)

lemma map_of_filter_key: "map_of (filter (\<lambda>(k, _). P k) m) k = (if P k then map_of m k else None)"
  by (induction m) auto

lemma user_key_match:
  assumes "CHR '':'' \<notin> set u" "CHR '':'' \<notin> set u'"
  shows "(length u' < length (cacheKey u org) \<and> take (length u') (cacheKey u org) = u'
            \<and> cacheKey u org ! length u' = CHR '':'') \<longleftrightarrow> u = u'"
  using assms
proof (induction u arbitrary: u')
  case Nil
  then show ?case by (cases u') (auto simp: cacheKey_def)
next
  case (Cons c u)
  then show ?case by (cases u') (auto simp: cacheKey_def)
qed

lemma org_key_match:
  assumes "u \<noteq> ''''" "CHR '':'' \<notin> set org" "CHR '':'' \<notin> set org'"
  shows "(length ('':'' @ org') < length (cacheKey u org)
            \<and> drop (length (cacheKey u org) - length ('':'' @ org')) (cacheKey u org) = '':'' @ org') \<longleftrightarrow> org = org'"
    (is "?l \<longleftrightarrow> _")
proof
  assume ?l
  then obtain xs where xs: "cacheKey u org = xs @ '':'' @ org'"
    by (metis append_take_drop_id)
  have "rev org' @ '':'' @ rev xs = rev org @ '':'' @ rev u"
    using arg_cong [OF xs, of rev] by (simp add: cacheKey_def)
  then have "cacheKey (rev org') (rev xs) = cacheKey (rev org) (rev u)" by (simp add: cacheKey_def)
  then show "org = org'" using cacheKey_inj [of "rev org'" "rev org"] assms by simp
next
  assume "org = org'"
  then show ?l using assms(1) by (simp add: cacheKey_def)
qed

lemma evictLRU_lookup: "map_of (ch_entries (evictLRU c)) k = Some e \<Longrightarrow> map_of (ch_entries c) k = Some e"
  by (auto simp: evictLRU_def Let_def delete_conv' split: list.splits if_splits prod.splits)

lemma put_entries:
  "map_of (ch_entries (cache_Set c now p)) k =
     (if k = cacheKey (ep_UserID p) (ep_OrgID p)
      then Some \<lparr>ce_permissions = p,
                 ce_expiresAt = (if ep_ExpiresAt p \<noteq> 0 \<and> ep_ExpiresAt p < now + ch_ttl c then ep_ExpiresAt p else now + ch_ttl c),
                 ce_lastAccess = now\<rparr>
      else map_of (ch_entries (if map_of (ch_entries c) (cacheKey (ep_UserID p) (ep_OrgID p)) = None
                                  \<and> ch_maxEntries c \<le> length (ch_entries c) then evictLRU c else c)) k)"
  by (simp add: cache_Set_def cache_SetWithTTL_def Let_def update_conv')

lemma entries_InvalidateUser:
  assumes "CHR '':'' \<notin> set u" "CHR '':'' \<notin> set u'"
  shows "map_of (ch_entries (cache_InvalidateUser c u')) (cacheKey u org) =
     (if u = u' then None else map_of (ch_entries c) (cacheKey u org))"
proof -
  have "map_of (ch_entries (cache_InvalidateUser c u')) (cacheKey u org) =
      (if \<not> (length u' < length (cacheKey u org) \<and> take (length u') (cacheKey u org) = u'
              \<and> cacheKey u org ! length u' = CHR '':'') then map_of (ch_entries c) (cacheKey u org) else None)"
    by (simp add: cache_InvalidateUser_def map_of_filter_key)
  then show ?thesis unfolding user_key_match [OF assms] by simp
qed

lemma entries_InvalidateOrg:
  assumes "u \<noteq> ''''" "CHR '':'' \<notin> set org" "CHR '':'' \<notin> set org'"
  shows "map_of (ch_entries (cache_InvalidateOrg c org')) (cacheKey u org) =
     (if org = org' then None else map_of (ch_entries c) (cacheKey u org))"
proof -
  have "map_of (ch_entries (cache_InvalidateOrg c org')) (cacheKey u org) =
      (if \<not> (length ('':'' @ org') < length (cacheKey u org)
              \<and> drop (length (cacheKey u org) - length ('':'' @ org')) (cacheKey u org) = '':'' @ org')
       then map_of (ch_entries c) (cacheKey u org) else None)"
    by (simp add: cache_InvalidateOrg_def Let_def map_of_filter_key)
  then show ?thesis unfolding org_key_match [OF assms] by simp
qed

interpretation mem: permission_cache cache_lookup cache_Set cache_touch cache_InvalidateUser cache_InvalidateOrg
    cache_inv plain_id
proof (unfold_locales, goal_cases)
  case (1 u p c now now' org q)
  then show ?case
    using cacheKey_inj [of u "ep_UserID p" org "ep_OrgID p"] evictLRU_lookup [of c "cacheKey u org"]
    by (auto simp: cache_lookup_def' put_entries plain_id_def split: option.splits if_splits)
next
  case (2 c now u org now' u' org')
  show ?case
    by (auto simp: cache_lookup_def' cache_touch_def cache_Get_def Let_def update_conv' split: option.splits)
next
  case (3 u u' c now org)
  then show ?case
    by (simp add: cache_lookup_def' entries_InvalidateUser plain_id_def)
next
  case (4 u org org' c now)
  then show ?case
    by (simp add: cache_lookup_def' entries_InvalidateOrg plain_id_def)
next
  case (5 c now p)
  then show ?case
    using evictLRU_lookup [of c] by (auto simp: cache_inv_def put_entries split: if_splits)
next
  case (6 c now u org)
  then show ?case
    by (auto simp: cache_inv_def cache_touch_def cache_Get_def Let_def update_conv' split: option.splits if_splits)
next
  case (7 c u)
  then show ?case by (auto simp: cache_inv_def cache_InvalidateUser_def map_of_filter_key split: if_splits)
next
  case (8 c org)
  then show ?case by (auto simp: cache_inv_def cache_InvalidateOrg_def Let_def map_of_filter_key split: if_splits)
next
  case (9 c now u org q)
  then show ?case by (fastforce simp: cache_inv_def cache_lookup_def' split: option.splits if_splits)
qed

subsection \<open>The Redis payload\<close>

lemma permissions_roundtrip:
  assumes "permissions_ok p" "int64_ok (ep_ComputedAt p)" "int64_ok (ep_ExpiresAt p)"
  shows "permissions_of_json (permissions_json p) = Some (reread p)"
proof -
  note upd = permissions_upd_def struct_field_def json_strings
  have "access_map_of_json (access_map_json (ep_ContractAccess p)) = Some (ep_ContractAccess (reread p))"
    using assms(1) by (simp add: access_map_roundtrip permissions_ok_def reread_def)
  then show ?thesis
    using assms(2,3)
    by (cases p) (simp add: permissions_of_json_def permissions_json_def upd parse_int_itoa reread_def
        del: json_slice.simps)
qed

section \<open>Properties\<close>

text \<open>
  C34. Through any sequence of lookups, stores and invalidations (with identifiers that are non-empty
  and free of colons, as UUIDs are), the in-process cache serves for a user and organization only a
  permission set that was stored for exactly them, that no later invalidation of the user or the
  organization has covered, and that is not past its own expiry.
\<close>

theorem mem_cache_serves_fresh:
  assumes "list_all mem.op_ok ops" "plain_id u" "plain_id org"
    and "fst (cache_Get (fold mem.run_op ops (NewCache cfg)) now u org) = Some q"
  shows "(\<exists>pre t post. ops = pre @ OpPut t q # post \<and> ep_UserID q = u \<and> ep_OrgID q = org
            \<and> list_all (\<lambda>x. \<not> op_drops x u org) post)
         \<and> (ep_ExpiresAt q = 0 \<or> now \<le> ep_ExpiresAt q)"
proof -
  have l: "cache_lookup (fold mem.run_op ops (NewCache cfg)) now u org = Some q"
    using assms(4) by (simp add: cache_lookup_def)
  have "cache_inv (NewCache cfg)" by (simp add: cache_inv_def NewCache_def)
  from mem.lookup_unexpired [OF mem.inv_run [OF this] l]
  have "ep_ExpiresAt q = 0 \<or> now \<le> ep_ExpiresAt q" .
  moreover have "cache_lookup (NewCache cfg) now u org = None" by (simp add: cache_lookup_def' NewCache_def)
  with mem.served_is_fresh [OF assms(1-3) l]
  have "\<exists>pre t post. ops = pre @ OpPut t q # post \<and> ep_UserID q = u \<and> ep_OrgID q = org
            \<and> list_all (\<lambda>x. \<not> op_drops x u org) post" by simp
  ultimately show ?thesis by blast
qed

definition demo_cached :: "(string \<times> contract_access) list \<Rightarrow> effective_permissions" where
  "demo_cached m =
     \<lparr>ep_ID = ''p'', ep_UserID = ''u'', ep_OrgID = ''o'', ep_AllowedMethods = [''eth_call''],
      ep_ContractAccess = m, ep_Claims = [], ep_RPCAPIKey = ''key'', ep_ComputedAt = 1, ep_ExpiresAt = 20\<rparr>"

theorem mem_cache_serves_fresh_witness:
  "\<exists>pre t post. [OpDropOrg ''o2'', OpPut 5 (demo_cached []), OpTouch 6 ''u'' ''o''] = pre @ OpPut t (demo_cached []) # post"
proof -
  let ?ops = "[OpDropOrg ''o2'', OpPut 5 (demo_cached []), OpTouch 6 ''u'' ''o'']"
  have "list_all mem.op_ok ?ops" "plain_id ''u''" "plain_id ''o''" by (simp_all add: plain_id_def demo_cached_def)
  moreover have "fst (cache_Get (fold mem.run_op ?ops (NewCache DefaultCacheConfig)) 7 ''u'' ''o'') = Some (demo_cached [])"
    by (simp add: NewCache_def DefaultCacheConfig_def minute_def cache_InvalidateOrg_def cache_Set_def
        cache_SetWithTTL_def cache_touch_def cache_Get_def cacheKey_def demo_cached_def)
  ultimately show ?thesis
    using mem_cache_serves_fresh [of ?ops "''u''" "''o''" DefaultCacheConfig 7 "demo_cached []"] by blast
qed

text \<open>
  C35. A permission set without an empty function list that is written to the SQL cache and read back
  before it expires decides every request as before: methods, claims, contracts, function selectors
  and their parameter rules, and event rules are unchanged.
\<close>

theorem sql_cache_keeps_decisions:
  assumes "permissions_ok p" "now < ep_ExpiresAt p" "no_deny_all p"
  shows "\<exists>q. GetCachedPermissions (setCachedPermissions t p) now (ep_UserID p) (ep_OrgID p) = Inr (Some q)
     \<and> HasMethod reg q m = HasMethod reg p m \<and> ep_Claims q = ep_Claims p \<and> ep_ExpiresAt q = ep_ExpiresAt p
     \<and> IsContractRegistered q a = IsContractRegistered p a
     \<and> HasContractClaim q a c = HasContractClaim p a c
     \<and> HasFunctionSelector q a s = HasFunctionSelector p a s
     \<and> GetFunctionRule q a s = GetFunctionRule p a s
     \<and> GetEventRules q a = normal_events (GetEventRules p a)"
proof -
  obtain i where g: "GetCachedPermissions (setCachedPermissions t p) now (ep_UserID p) (ep_OrgID p) =
      Inr (Some ((reread p)\<lparr>ep_ID := i, ep_RPCAPIKey := ''''\<rparr>))"
    using sql_roundtrip [OF assms(1,2)] by blast
  let ?q = "(reread p)\<lparr>ep_ID := i, ep_RPCAPIKey := ''''\<rparr>"
  have acc: "GetContractAccess ?q a =
      (if IsContractRegistered p a then map_option normal_access (GetContractAccess p a) else GetContractAccess p a)"
    by (rule GetContractAccess_reread)
  have fs: "ca_Functions ca \<noteq> Some []" if "IsContractRegistered p a" "GetContractAccess p a = Some ca" for ca
    using registered_functions [OF assms(3) that] .
  have un: "ca = \<lparr>ca_Claims = [], ca_Functions = None, ca_EventRules = None\<rparr>"
    if "\<not> IsContractRegistered p a" "GetContractAccess p a = Some ca" for ca
    using that by (auto simp: IsContractRegistered_def GetContractAccess_def Let_def split: if_splits)
  have "IsContractRegistered ?q a = IsContractRegistered p a"
    by (simp add: IsContractRegistered_def reread_def lookup_normal)
  moreover have "HasContractClaim ?q a c = HasContractClaim p a c"
    by (simp add: HasContractClaim_def acc normal_access_def split: option.splits)
  moreover have "HasFunctionSelector ?q a s = HasFunctionSelector p a s"
    using fs by (auto simp: HasFunctionSelector_def acc normal_access_def split: option.splits)
  moreover have "GetFunctionRule ?q a s = GetFunctionRule p a s"
    using fs by (auto simp: GetFunctionRule_def acc normal_access_def split: option.splits)
  moreover have "GetEventRules ?q a = normal_events (GetEventRules p a)"
  proof (cases "GetContractAccess p a")
    case None
    then show ?thesis by (simp add: GetEventRules_def acc normal_events_def)
  next
    case (Some ca)
    show ?thesis
    proof (cases "IsContractRegistered p a")
      case True
      with Some show ?thesis by (simp add: GetEventRules_def acc normal_access_def)
    next
      case False
      from un [OF False Some] False Some show ?thesis by (simp add: GetEventRules_def acc normal_events_def)
    qed
  qed
  moreover have "HasMethod reg ?q m = HasMethod reg p m" by (simp add: HasMethod_def reread_def)
  ultimately show ?thesis using g by (simp add: reread_def)
qed

theorem sql_cache_keeps_decisions_witness:
  "\<exists>q. GetCachedPermissions
         (setCachedPermissions \<lparr>ct_rows = [], ct_generation = 0\<rparr>
            (demo_cached [(''0xabc'', \<lparr>ca_Claims = [''admin''], ca_Functions = None, ca_EventRules = None\<rparr>)])) 5 ''u'' ''o''
       = Inr (Some q) \<and> HasContractClaim q ''0xabc'' ''admin''"
proof -
  let ?p = "demo_cached [(''0xabc'', \<lparr>ca_Claims = [''admin''], ca_Functions = None, ca_EventRules = None\<rparr>)]"
  have "permissions_ok ?p" "5 < ep_ExpiresAt ?p" "no_deny_all ?p"
    by (simp_all add: permissions_ok_def contract_access_ok_def no_deny_all_def demo_cached_def)
  moreover have "HasContractClaim ?p ''0xabc'' ''admin''"
  proof -
    have "to_lower ''0xabc'' = ''0xabc''" by code_simp
    then show ?thesis by (simp add: HasContractClaim_def GetContractAccess_def demo_cached_def)
  qed
  moreover have "ep_UserID ?p = ''u''" "ep_OrgID ?p = ''o''" by (simp_all add: demo_cached_def)
  ultimately show ?thesis
    using sql_cache_keeps_decisions [of ?p 5 "\<lparr>ct_rows = [], ct_generation = 0\<rparr>" empty_registries "''eth_call''"
        "''0xabc''" "''admin''" "''s''"] by metis
qed

text \<open>
  C36. A grant that denies every function (a non-nil empty list) stops denying once it has gone
  through the SQL cache: the computed permissions refuse every selector of the contract and the
  permissions read back allow every selector.
\<close>

theorem cached_deny_all_opens:
  assumes "permissions_ok p" "now < ep_ExpiresAt p"
    and "map_of (ep_ContractAccess p) (to_lower a) = Some ca" "ca_Functions ca = Some []"
  shows "\<not> HasFunctionSelector p a s
     \<and> (\<exists>q. GetCachedPermissions (setCachedPermissions t p) now (ep_UserID p) (ep_OrgID p) = Inr (Some q)
          \<and> HasFunctionSelector q a s)"
proof -
  obtain i where g: "GetCachedPermissions (setCachedPermissions t p) now (ep_UserID p) (ep_OrgID p) =
      Inr (Some ((reread p)\<lparr>ep_ID := i, ep_RPCAPIKey := ''''\<rparr>))"
    using sql_roundtrip [OF assms(1,2)] by blast
  have acc: "GetContractAccess p a = Some ca" "IsContractRegistered p a"
    using assms(3) by (simp_all add: GetContractAccess_def IsContractRegistered_def Let_def)
  then have "\<not> HasFunctionSelector p a s" using assms(4) by (simp add: HasFunctionSelector_def)
  moreover have "HasFunctionSelector ((reread p)\<lparr>ep_ID := i, ep_RPCAPIKey := ''''\<rparr>) a s"
    using acc assms(4) by (simp add: HasFunctionSelector_def GetContractAccess_reread normal_access_def)
  ultimately show ?thesis using g by blast
qed

theorem cached_deny_all_opens_witness:
  "\<exists>q. GetCachedPermissions
         (setCachedPermissions \<lparr>ct_rows = [], ct_generation = 0\<rparr>
            (demo_cached [(''0xabc'', \<lparr>ca_Claims = [], ca_Functions = Some [], ca_EventRules = None\<rparr>)])) 5 ''u'' ''o''
       = Inr (Some q) \<and> HasFunctionSelector q ''0xabc'' ''0xa9059cbb''"
proof -
  let ?p = "demo_cached [(''0xabc'', \<lparr>ca_Claims = [], ca_Functions = Some [], ca_EventRules = None\<rparr>)]"
  have "to_lower ''0xabc'' = ''0xabc''" by code_simp
  then have "permissions_ok ?p" "5 < ep_ExpiresAt ?p"
    "map_of (ep_ContractAccess ?p) (to_lower ''0xabc'') = Some \<lparr>ca_Claims = [], ca_Functions = Some [], ca_EventRules = None\<rparr>"
    by (simp_all add: permissions_ok_def contract_access_ok_def demo_cached_def)
  from cached_deny_all_opens [OF this, of "''0xa9059cbb''"] show ?thesis by (simp add: demo_cached_def)
qed

text \<open>
  The SQL cache does not keep the upstream API key: whatever key was computed, the permissions
  read back carry none.
\<close>

theorem sql_cache_drops_api_key:
  "GetCachedPermissions t now u org = Inr (Some q) \<Longrightarrow> ep_RPCAPIKey q = ''''"
  by (auto simp: GetCachedPermissions_def split: option.splits if_splits)

theorem sql_cache_drops_api_key_witness:
  "ep_RPCAPIKey (demo_cached []) = ''key'' \<and>
   (\<exists>q. GetCachedPermissions (setCachedPermissions \<lparr>ct_rows = [], ct_generation = 0\<rparr> (demo_cached [])) 5 ''u'' ''o''
       = Inr (Some q) \<and> ep_RPCAPIKey q = '''')"
proof -
  have "permissions_ok (demo_cached [])" "5 < ep_ExpiresAt (demo_cached [])"
    by (simp_all add: permissions_ok_def demo_cached_def)
  then obtain q where
    q: "GetCachedPermissions (setCachedPermissions \<lparr>ct_rows = [], ct_generation = 0\<rparr> (demo_cached [])) 5 ''u'' ''o'' = Inr (Some q)"
    using sql_roundtrip [of "demo_cached []" 5] by (auto simp: demo_cached_def)
  from sql_cache_drops_api_key [OF q] q show ?thesis by (auto simp: demo_cached_def)
qed

text \<open>
  The Redis cache serves a permission set past the end of the membership it was computed from:
  given a server that returns a value until its time to live has passed, a set stored at one time is
  served with its decisions for the whole time to live, also after its own expiry.
\<close>

theorem redis_serves_past_expiry:
  assumes kv: "\<And>s t t' k v ttl. t' < t + ttl \<Longrightarrow> rc_get rc (rc_set rc s t k v ttl) t' k = Some v"
    and "permissions_ok p" "int64_ok (ep_ComputedAt p)" "int64_ok (ep_ExpiresAt p)"
    and "ep_ExpiresAt p < now" "now < t + ttl"
  shows "redis_Get rc (redis_SetWithTTL rc s t p ttl) now (ep_UserID p) (ep_OrgID p) = Some (reread p)
     \<and> ep_ExpiresAt (reread p) < now"
  using assms(5) by (simp add: redis_Get_def redis_SetWithTTL_def kv [OF assms(6)] permissions_roundtrip [OF assms(2-4)]
      reread_def)

text \<open>A key-value server with one slot per key, for the example.\<close>

definition demo_redis :: "(string \<rightharpoonup> json \<times> Go_Prelude.time) redis_client" where
  "demo_redis =
     \<lparr>rc_get = \<lambda>s now k. case s k of None \<Rightarrow> None | Some (v, e) \<Rightarrow> if now < e then Some v else None,
      rc_set = \<lambda>s now k v ttl. s(k \<mapsto> (v, now + ttl)),
      rc_del = \<lambda>s ks. s |` (- set ks), rc_scan = \<lambda>s pat. []\<rparr>"

theorem redis_serves_past_expiry_witness:
  "redis_Get demo_redis (redis_SetWithTTL demo_redis Map.empty 1 (demo_cached []) 300) 100 ''u'' ''o'' =
     Some (reread (demo_cached [])) \<and> ep_ExpiresAt (demo_cached []) < 100"
proof -
  have kv: "rc_get demo_redis (rc_set demo_redis s t k v ttl) t' k = Some v" if "t' < t + ttl" for s t t' k v ttl
    using that by (simp add: demo_redis_def)
  from redis_serves_past_expiry [OF kv, of "demo_cached []" 100 1 300 Map.empty] show ?thesis
    by (simp add: permissions_ok_def int64_ok_def demo_cached_def)
qed

end
