(* ===== verification/Abi_Library.thy ===== *)
theory Abi_Library
  imports Go_Prelude
begin

text \<open>
  The contract-ABI library (\<^verbatim>\<open>go-ethereum/accounts/abi\<close>, \<^verbatim>\<open>common\<close> and \<^verbatim>\<open>crypto\<close>)
  as the access and event layers use it. Its code is not part of the repository: the values it
  produces are datatypes here, and its functions are a record of parameters.
\<close>

datatype abi_type =
    AddressTy
  | BoolTy
  | UintTy
  | IntTy
  | FixedBytesTy nat
  | FunctionTy
  | StringTy
  | BytesTy
  | SliceTy
  | ArrayTy "abi_type option"
  | TupleTy "abi_type option list"

record abi_argument =
  arg_Name :: string
  arg_Type :: abi_type
  arg_TypeString :: string
  arg_Indexed :: bool

record abi_event =
  ev_Name :: string
  ev_Sig :: string
  ev_ID :: bytes
  ev_Anonymous :: bool
  ev_Inputs :: "abi_argument list"

record parsed_abi =
  abi_Events :: "abi_event list"
  abi_MethodById :: "bytes \<Rightarrow> abi_argument list res"

datatype abi_value =
    AbiAddress bytes
  | AbiBigInt int
  | AbiBool bool
  | AbiBytes32 bytes
  | AbiOther string

fun go_type_name :: "abi_value \<Rightarrow> string" where
  "go_type_name (AbiAddress _) = ''common.Address''"
| "go_type_name (AbiBigInt _) = ''*big.Int''"
| "go_type_name (AbiBool _) = ''bool''"
| "go_type_name (AbiBytes32 _) = ''[32]uint8''"
| "go_type_name (AbiOther t) = t"

text \<open>
  \<^verbatim>\<open>al_JSON\<close> parses an ABI text, \<^verbatim>\<open>al_Unpack\<close> and \<^verbatim>\<open>al_Pack\<close> decode and encode
  arguments, \<^verbatim>\<open>al_Hex\<close> prints an address with its checksum and \<^verbatim>\<open>al_Keccak256\<close> is the
  hash function.
\<close>

record abi_lib =
  al_JSON :: "string \<Rightarrow> parsed_abi res"
  al_Unpack :: "abi_argument list \<Rightarrow> bytes \<Rightarrow> abi_value list res"
  al_Pack :: "abi_argument list \<Rightarrow> abi_value list \<Rightarrow> bytes res"
  al_Hex :: "bytes \<Rightarrow> string"
  al_Keccak256 :: "string \<Rightarrow> bytes"

text \<open>A library that parses nothing, on which the examples build.\<close>

definition empty_abi_lib :: abi_lib where
  "empty_abi_lib =
     \<lparr>al_JSON = \<lambda>_. Inl ''EOF'', al_Unpack = \<lambda>_ _. Inl ''no arguments'', al_Pack = \<lambda>_ _. Inl ''no arguments'',
      al_Hex = \<lambda>b. ''0x'' @ encode_hex b, al_Keccak256 = \<lambda>_. []\<rparr>"

end
