(* ===== verification/Cache_Protocol.thy ===== *)
theory Cache_Protocol
  imports Permission_Cache Abi_Library
begin

text \<open>
  How computed permissions reach the caches: the publication under the generation guard
  (\<^verbatim>\<open>resolveCacheable\<close>, \<^verbatim>\<open>awaitEntry\<close> and \<^verbatim>\<open>computeAndPublish\<close> of
  \<^verbatim>\<open>internal/rbac/resolver.go\<close>), the two cache layers of the access controller
  (\<^verbatim>\<open>resolvePermissionsForRequest\<close> and the invalidation calls of \<^verbatim>\<open>internal/rbac/access.go\<close>),
  and the interleaving of computations, mutations and invalidations against the shared table as an
  inductive step relation. A database fault is an optional error per call.
\<close>

section \<open>One resolution\<close>

record faults =
  ft_get :: "string option"
  ft_generation :: "string option"
  ft_publish :: "string option"
  ft_invalidate :: "string option"

definition no_faults :: faults where
  "no_faults = \<lparr>ft_get = None, ft_generation = None, ft_publish = None, ft_invalidate = None\<rparr>"

record env =
  en_now :: "Go_Prelude.time"
  en_uuid :: string
  en_store :: store
  en_registries :: registries
  en_abi :: abi_lib
  en_viewscope :: "string option"
  en_faults :: faults

record in_flight_entry =
  ie_perms :: "effective_permissions res"
  ie_publishable :: bool

text \<open>
  \<^verbatim>\<open>computeAndPublish\<close>: the generation is read before the computation and compared when the
  result is written. The broadcast to waiters is the returned entry.
\<close>

definition computeAndPublish ::
  "env \<Rightarrow> resolver \<Rightarrow> cache_table \<Rightarrow> string \<Rightarrow> string \<Rightarrow>
     (effective_permissions \<times> bool) res \<times> in_flight_entry \<times> cache_table" where
  "computeAndPublish en r t userID orgID =
     (let genBefore = (case ft_generation (en_faults en) of Some e \<Rightarrow> None | None \<Rightarrow> Some (CacheGeneration t));
          perms = computePermissions r (en_store en) (en_now en) (en_uuid en) userID orgID;
          (publishable, t') =
            (case (perms, genBefore) of
               (Inr p, Some g) \<Rightarrow>
                 (case ft_publish (en_faults en) of
                    Some _ \<Rightarrow> (False, t)
                  | None \<Rightarrow> SetCachedPermissionsAtGeneration t p g)
             | _ \<Rightarrow> (False, t))
      in ((case perms of Inl e \<Rightarrow> Inl e | Inr p \<Rightarrow> Inr (p, publishable)),
          \<lparr>ie_perms = perms, ie_publishable = publishable\<rparr>, t'))"

datatype await_outcome =
    AwaitServe effective_permissions
  | AwaitError string
  | AwaitRecompute

definition awaitEntry :: "in_flight_entry \<Rightarrow> await_outcome" where
  "awaitEntry entry =
     (case ie_perms entry of
        Inl e \<Rightarrow> AwaitError e
      | Inr p \<Rightarrow> if \<not> ie_publishable entry then AwaitRecompute else AwaitServe p)"

text \<open>
  \<^verbatim>\<open>resolveCacheable\<close> for a caller that finds \<^verbatim>\<open>entry\<close> in flight (\<^verbatim>\<open>None\<close>: nothing in
  flight). A waiter that may not inherit a result retries without joining and computes on its own.
\<close>

definition resolve_alone ::
  "env \<Rightarrow> resolver \<Rightarrow> cache_table \<Rightarrow> string \<Rightarrow> string \<Rightarrow> (effective_permissions \<times> bool) res \<times> cache_table" where
  "resolve_alone en r t userID orgID =
     (case ft_get (en_faults en) of
        Some e \<Rightarrow> (Inl e, t)
      | None \<Rightarrow>
          (case GetCachedPermissions t (en_now en) userID orgID of
             Inl e \<Rightarrow> (Inl e, t)
           | Inr (Some cached) \<Rightarrow> (Inr (cached, True), t)
           | Inr None \<Rightarrow>
               (let (res, _, t') = computeAndPublish en r t userID orgID in (res, t'))))"

definition resolveCacheable ::
  "env \<Rightarrow> resolver \<Rightarrow> cache_table \<Rightarrow> in_flight_entry option \<Rightarrow> string \<Rightarrow> string \<Rightarrow>
     (effective_permissions \<times> bool) res \<times> cache_table" where
  "resolveCacheable en r t entry userID orgID =
     (case ft_get (en_faults en) of
        Some e \<Rightarrow> (Inl e, t)
      | None \<Rightarrow>
          (case GetCachedPermissions t (en_now en) userID orgID of
             Inl e \<Rightarrow> (Inl e, t)
           | Inr (Some cached) \<Rightarrow> (Inr (cached, True), t)
           | Inr None \<Rightarrow>
               (case entry of
                  Some e \<Rightarrow>
                    (case awaitEntry e of
                       AwaitServe p \<Rightarrow> (Inr (p, True), t)
                     | AwaitError err \<Rightarrow> (Inl err, t)
                     | AwaitRecompute \<Rightarrow> resolve_alone en r t userID orgID)
                | None \<Rightarrow>
                    (let (res, _, t') = computeAndPublish en r t userID orgID in (res, t')))))"

definition ResolvePermissionsCacheable ::
  "env \<Rightarrow> resolver \<Rightarrow> cache_table \<Rightarrow> in_flight_entry option \<Rightarrow> string \<Rightarrow> string \<Rightarrow>
     (effective_permissions \<times> bool) res \<times> cache_table" where
  "ResolvePermissionsCacheable en r t entry userID orgID = resolveCacheable en r t entry userID orgID"

definition ResolvePermissions ::
  "env \<Rightarrow> resolver \<Rightarrow> cache_table \<Rightarrow> in_flight_entry option \<Rightarrow> string \<Rightarrow> string \<Rightarrow>
     effective_permissions res \<times> cache_table" where
  "ResolvePermissions en r t entry userID orgID =
     (case ResolvePermissionsCacheable en r t entry userID orgID of
        (Inl e, t') \<Rightarrow> (Inl e, t')
      | (Inr (p, _), t') \<Rightarrow> (Inr p, t'))"

section \<open>The access controller and its two cache layers\<close>

record access_controller =
  ac_resolver :: resolver
  ac_cache :: Cache
  ac_table :: cache_table
  ac_anonAccess :: "group_access option"
  ac_anonAccessExpires :: "Go_Prelude.time"
  ac_anonAccessCacheTTL :: int

definition NewAccessController :: "resolver \<Rightarrow> cache_table \<Rightarrow> access_controller" where
  "NewAccessController r t =
     \<lparr>ac_resolver = r, ac_cache = NewCache \<lparr>cc_TTL = rs_cacheTTL r, cc_MaxEntries = 0\<rparr>, ac_table = t,
      ac_anonAccess = None, ac_anonAccessExpires = 0, ac_anonAccessCacheTTL = 5 * 1000000000\<rparr>"

definition resolvePermissionsForRequest ::
  "env \<Rightarrow> access_controller \<Rightarrow> access_check_request \<Rightarrow> user \<Rightarrow> organization \<Rightarrow>
     effective_permissions res \<times> access_controller" where
  "resolvePermissionsForRequest en c req usr org =
     (let (cached, cache') =
            (if acr_BypassCache req then (None, ac_cache c)
             else cache_Get (ac_cache c) (en_now en) (usr_ID usr) (org_ID org));
          c = c\<lparr>ac_cache := cache'\<rparr>
      in case cached of
           Some perms \<Rightarrow> (Inr perms, c)
         | None \<Rightarrow>
             (case ResolvePermissionsCacheable en (ac_resolver c) (ac_table c) None (usr_ID usr) (org_ID org) of
                (Inl e, t') \<Rightarrow> (Inl (''failed to resolve permissions: '' @ e), c\<lparr>ac_table := t'\<rparr>)
              | (Inr (resolved, cacheable), t') \<Rightarrow>
                  (Inr resolved,
                   c\<lparr>ac_table := t',
                     ac_cache := (if \<not> acr_BypassCache req \<and> cacheable
                                  then cache_Set (ac_cache c) (en_now en) resolved else ac_cache c)\<rparr>)))"

text \<open>
  The invalidation calls clear the process-local cache first and the shared table second; the two
  halves are separate definitions because another request can run between them.
\<close>

definition InvalidateUser_local :: "access_controller \<Rightarrow> string \<Rightarrow> access_controller" where
  "InvalidateUser_local c userID = c\<lparr>ac_cache := cache_InvalidateUser (ac_cache c) userID\<rparr>"

definition InvalidateUser_shared :: "env \<Rightarrow> access_controller \<Rightarrow> string \<Rightarrow> unit res \<times> access_controller" where
  "InvalidateUser_shared en c userID =
     (case ft_invalidate (en_faults en) of
        Some e \<Rightarrow> (Inl e, c)
      | None \<Rightarrow> (Inr (), c\<lparr>ac_table := InvalidateCacheForUser (ac_table c) userID\<rparr>))"

definition InvalidateUser :: "env \<Rightarrow> access_controller \<Rightarrow> string \<Rightarrow> unit res \<times> access_controller" where
  "InvalidateUser en c userID = InvalidateUser_shared en (InvalidateUser_local c userID) userID"

definition InvalidateOrgLocalCache :: "access_controller \<Rightarrow> string \<Rightarrow> access_controller" where
  "InvalidateOrgLocalCache c orgID = c\<lparr>ac_cache := cache_InvalidateOrg (ac_cache c) orgID\<rparr>"

definition InvalidateOrg :: "env \<Rightarrow> access_controller \<Rightarrow> string \<Rightarrow> unit res \<times> access_controller" where
  "InvalidateOrg en c orgID =
     (let c = InvalidateOrgLocalCache c orgID in
      case ft_invalidate (en_faults en) of
        Some e \<Rightarrow> (Inl e, c)
      | None \<Rightarrow> (Inr (), c\<lparr>ac_table := invalidateCacheForOrg (ac_table c) orgID\<rparr>))"

definition InvalidateGroup ::
  "env \<Rightarrow> access_controller \<Rightarrow> group option res \<Rightarrow> string list \<Rightarrow> unit res \<times> access_controller" where
  "InvalidateGroup en c grp members =
     (let c = (case grp of Inr (Some g) \<Rightarrow> InvalidateOrgLocalCache c (grp_OrgID g) | _ \<Rightarrow> c) in
      case ft_invalidate (en_faults en) of
        Some e \<Rightarrow> (Inl e, c)
      | None \<Rightarrow> (Inr (), c\<lparr>ac_table := invalidateCacheForGroup (ac_table c) members\<rparr>))"

section \<open>Interleaving\<close>

text \<open>
  What an invalidation covers, and the state of the protocol: the authoritative rows, the shared
  table, the invalidations that a mutation still owes, and the computations in flight. A computation
  reads the rows in separate queries, so it records one snapshot per query; each query of
  \<^const>\<open>computePermissions\<close> runs at most once.
\<close>

datatype scope = ScopeUser string | ScopeOrg string | ScopeMembers "string list"

fun covers :: "scope \<Rightarrow> string \<Rightarrow> string \<Rightarrow> bool" where
  "covers (ScopeUser v) u org = (u = v)"
| "covers (ScopeOrg g) u org = (org = g)"
| "covers (ScopeMembers vs) u org = (u \<in> set vs)"

fun invalidate_scope :: "scope \<Rightarrow> cache_table \<Rightarrow> cache_table" where
  "invalidate_scope (ScopeUser v) t = InvalidateCacheForUser t v"
| "invalidate_scope (ScopeOrg g) t = invalidateCacheForOrg t g"
| "invalidate_scope (ScopeMembers vs) t = invalidateCacheForGroup t vs"

datatype worker =
    WIdle
  | WReading string string int "store list"

record protocol =
  pt_db :: store
  pt_table :: cache_table
  pt_owed :: "scope list"
  pt_workers :: "nat \<Rightarrow> worker"

definition granted_contract_ids :: "string list \<Rightarrow> (string \<times> contract_grant list) list \<Rightarrow> string list" where
  "granted_contract_ids groupIDs grants =
     fold (\<lambda>groupID ids.
             fold (\<lambda>grant ids. add_member (cg_ContractID grant) ids)
                  (case map_of grants groupID of None \<Rightarrow> [] | Some gs \<Rightarrow> gs) ids)
          groupIDs []"

definition view ::
  "store \<Rightarrow> string \<Rightarrow> string \<Rightarrow>
     membership_with_details list res \<times> contract list res \<times> (string \<times> group_access) list res
     \<times> (string \<times> contract_grant list) list res \<times> (string \<times> contract) list res" where
  "view st u org =
     (let ms = st_ListUserMembershipsInOrg st u org;
          ids = (case ms of Inr ms \<Rightarrow> membershipGroupIDs ms | Inl _ \<Rightarrow> []);
          gs = st_ListContractGrantsBatch st ids;
          cids = (case gs of Inr g \<Rightarrow> granted_contract_ids ids g | Inl _ \<Rightarrow> [])
      in (ms, st_ListContracts st org, st_GetGroupAccessBatch st ids, gs, st_GetContractsByIDs st cids))"

definition mixed :: "store list \<Rightarrow> store" where
  "mixed ss =
     (ss ! 0)\<lparr>st_ListContracts := st_ListContracts (ss ! 1),
              st_GetGroupAccessBatch := st_GetGroupAccessBatch (ss ! 2),
              st_ListContractGrantsBatch := st_ListContractGrantsBatch (ss ! 3),
              st_GetContractsByIDs := st_GetContractsByIDs (ss ! 4)\<rparr>"

inductive pstep :: "resolver \<Rightarrow> protocol \<Rightarrow> protocol \<Rightarrow> bool" for r where
  begin_compute:
    "pt_workers s w = WIdle \<Longrightarrow>
       pstep r s (s\<lparr>pt_workers := (pt_workers s)(w := WReading u org (CacheGeneration (pt_table s)) [])\<rparr>)"
| query:
    "pt_workers s w = WReading u org g ss \<Longrightarrow> length ss < 5 \<Longrightarrow>
       pstep r s (s\<lparr>pt_workers := (pt_workers s)(w := WReading u org g (ss @ [pt_db s]))\<rparr>)"
| publish:
    "pt_workers s w = WReading u org g ss \<Longrightarrow> length ss = 5 \<Longrightarrow>
     computePermissions r (mixed ss) now uuid u org = Inr p \<Longrightarrow>
       pstep r s (s\<lparr>pt_table := snd (SetCachedPermissionsAtGeneration (pt_table s) p g),
                    pt_workers := (pt_workers s)(w := WIdle)\<rparr>)"
| abandon:
    "pstep r s (s\<lparr>pt_workers := (pt_workers s)(w := WIdle)\<rparr>)"
| mutate:
    "(\<And>u org. \<not> covers sc u org \<Longrightarrow> view db' u org = view (pt_db s) u org) \<Longrightarrow>
       pstep r s (s\<lparr>pt_db := db', pt_owed := sc # pt_owed s\<rparr>)"
| commit_invalidation:
    "sc \<in> set (pt_owed s) \<Longrightarrow>
       pstep r s (s\<lparr>pt_table := invalidate_scope sc (pt_table s), pt_owed := remove1 sc (pt_owed s)\<rparr>)"
| cleanup_expired:
    "pstep r s (s\<lparr>pt_table := snd (CleanupExpiredCache (pt_table s) now)\<rparr>)"

inductive reachable_state :: "resolver \<Rightarrow> protocol \<Rightarrow> bool" for r where
  initial: "ct_rows t = [] \<Longrightarrow>
     reachable_state r \<lparr>pt_db = db, pt_table = t, pt_owed = [], pt_workers = (\<lambda>_. WIdle)\<rparr>"
| step: "reachable_state r s \<Longrightarrow> pstep r s s' \<Longrightarrow> reachable_state r s'"

inductive_cases pstepE: "pstep r s s'"

section \<open>Lemmas\<close>

subsection \<open>A computation depends on the rows only through its view\<close>

lemma loadGroupPerms_cong:
  assumes "st_GetGroupAccessBatch st ids = st_GetGroupAccessBatch st' ids"
    and "full \<Longrightarrow> st_ListContractGrantsBatch st ids = st_ListContractGrantsBatch st' ids"
    and "\<And>g. full \<Longrightarrow> st_ListContractGrantsBatch st ids = Inr g \<Longrightarrow>
      st_GetContractsByIDs st (granted_contract_ids ids g) = st_GetContractsByIDs st' (granted_contract_ids ids g)"
  shows "loadGroupPerms st ids full = loadGroupPerms st' ids full"
  using assms by (auto simp: loadGroupPerms_def granted_contract_ids_def Let_def split: sum.splits)

lemma compute_view:
  assumes "view st u org = view st' u org"
  shows "computePermissions r st now uuid u org = computePermissions r st' now uuid u org"
proof -
  have ms: "st_ListUserMembershipsInOrg st u org = st_ListUserMembershipsInOrg st' u org"
    using assms by (simp add: view_def Let_def)
  show ?thesis
  proof (cases "st_ListUserMembershipsInOrg st u org")
    case (Inl e)
    from Inl ms have "st_ListUserMembershipsInOrg st' u org = Inl e" by simp
    with Inl show ?thesis by (simp add: computePermissions_def)
  next
    case (Inr l)
    let ?ids = "membershipGroupIDs l"
    from Inr ms have i': "st_ListUserMembershipsInOrg st' u org = Inr l" by simp
    have c: "st_ListContracts st org = st_ListContracts st' org"
      and a: "st_GetGroupAccessBatch st ?ids = st_GetGroupAccessBatch st' ?ids"
      and g: "st_ListContractGrantsBatch st ?ids = st_ListContractGrantsBatch st' ?ids"
      using assms by (simp_all add: view_def Let_def Inr i')
    have k: "st_GetContractsByIDs st (granted_contract_ids ?ids gs) = st_GetContractsByIDs st' (granted_contract_ids ?ids gs)"
      if "st_ListContractGrantsBatch st ?ids = Inr gs" for gs
    proof -
      from that g have "st_ListContractGrantsBatch st' ?ids = Inr gs" by simp
      with that assms show ?thesis by (simp add: view_def Let_def Inr i')
    qed
    have full: "loadGroupPerms st ?ids True = loadGroupPerms st' ?ids True"
      by (rule loadGroupPerms_cong [OF a g k])
    have part: "loadGroupPerms st ?ids False = loadGroupPerms st' ?ids False"
      by (rule loadGroupPerms_cong [OF a]) simp_all
    have adm: "computeOrgAdminPermissions r st now uuid u org l = computeOrgAdminPermissions r st' now uuid u org l"
      by (cases "st_ListContracts st' org") (simp_all add: computeOrgAdminPermissions_def c part)
    show ?thesis
      using full adm unfolding computePermissions_def Inr i' by (cases l) simp_all
  qed
qed

lemma view_mixed:
  assumes "length ss = 5" "\<forall>s \<in> set ss. view s u org = v"
  shows "view (mixed ss) u org = v"
proof -
  have n: "view (ss ! 0) u org = v" "view (ss ! 1) u org = v" "view (ss ! 2) u org = v" "view (ss ! 3) u org = v"
    "view (ss ! 4) u org = v" using assms by (auto simp: all_set_conv_all_nth)
  obtain ms cs as gs ks where v: "v = (ms, cs, as, gs, ks)" by (cases v)
  let ?ids = "case ms of Inr ms \<Rightarrow> membershipGroupIDs ms | Inl _ \<Rightarrow> []"
  let ?cids = "case gs of Inr g \<Rightarrow> granted_contract_ids ?ids g | Inl _ \<Rightarrow> []"
  have comp: "st_ListUserMembershipsInOrg s u org = ms \<and> st_ListContracts s org = cs
      \<and> st_GetGroupAccessBatch s ?ids = as \<and> st_ListContractGrantsBatch s ?ids = gs
      \<and> st_GetContractsByIDs s ?cids = ks" if "view s u org = v" for s
  proof -
    from that v have 1: "st_ListUserMembershipsInOrg s u org = ms" by (simp add: view_def Let_def)
    with that v have 2: "st_ListContractGrantsBatch s ?ids = gs" by (simp add: view_def Let_def)
    with that v 1 show ?thesis by (simp add: view_def Let_def)
  qed
  show ?thesis
    using comp [OF n(1)] comp [OF n(2)] comp [OF n(3)] comp [OF n(4)] comp [OF n(5)]
    by (simp add: v mixed_def view_def [of "_ :: store"] Let_def)
qed

subsection \<open>The invariant of the protocol\<close>

definition row_of :: "string \<Rightarrow> effective_permissions \<Rightarrow> cache_row" where
  "row_of i p =
     \<lparr>cr_id = i, cr_allowed_methods = ep_AllowedMethods p,
      cr_contract_access = access_map_json (ep_ContractAccess p), cr_claims = ep_Claims p,
      cr_computed_at = ep_ComputedAt p, cr_expires_at = ep_ExpiresAt p\<rparr>"

definition row_current :: "resolver \<Rightarrow> store \<Rightarrow> string \<times> string \<Rightarrow> cache_row \<Rightarrow> bool" where
  "row_current r db k row \<longleftrightarrow>
     (\<exists>now uuid i p. computePermissions r db now uuid (fst k) (snd k) = Inr p \<and> row = row_of i p)"

definition owed :: "protocol \<Rightarrow> string \<Rightarrow> string \<Rightarrow> bool" where
  "owed s u org \<longleftrightarrow> (\<exists>sc \<in> set (pt_owed s). covers sc u org)"

fun worker_ok :: "protocol \<Rightarrow> worker \<Rightarrow> bool" where
  "worker_ok s WIdle = True"
| "worker_ok s (WReading u org g ss) =
     (g \<le> ct_generation (pt_table s) \<and>
      (g = ct_generation (pt_table s) \<longrightarrow> owed s u org \<or> (\<forall>x \<in> set ss. view x u org = view (pt_db s) u org)))"

definition protocol_inv :: "resolver \<Rightarrow> protocol \<Rightarrow> bool" where
  "protocol_inv r s \<longleftrightarrow>
     (\<forall>w. worker_ok s (pt_workers s w))
     \<and> (\<forall>k row. (k, row) \<in> set (ct_rows (pt_table s)) \<longrightarrow> row_current r (pt_db s) k row \<or> owed s (fst k) (snd k))"

lemma compute_ids:
  "computePermissions r st now uuid u org = Inr p \<Longrightarrow> ep_UserID p = u \<and> ep_OrgID p = org"
  by (auto simp: computePermissions_def computeOrgAdminPermissions_def Let_def
      split: sum.splits list.splits if_splits prod.splits)

lemma generation_invalidate [simp]:
  "ct_generation (invalidate_scope sc t) = ct_generation t + 1"
  by (cases sc)
    (simp_all add: InvalidateCacheForUser_def invalidateCacheForOrg_def invalidateCacheForGroup_def
      bumpCacheGeneration_def Let_def)

lemma rows_invalidate:
  "((u, org), row) \<in> set (ct_rows (invalidate_scope sc t)) \<longleftrightarrow>
     ((u, org), row) \<in> set (ct_rows t) \<and> \<not> covers sc u org"
  by (cases sc)
    (auto simp: InvalidateCacheForUser_def invalidateCacheForOrg_def invalidateCacheForGroup_def
      bumpCacheGeneration_def Let_def)

lemma rows_publish:
  "(k, row) \<in> set (ct_rows (setCachedPermissions t p)) \<Longrightarrow>
     (k, row) \<in> set (ct_rows t) \<or> (\<exists>i. k = (ep_UserID p, ep_OrgID p) \<and> row = row_of i p)"
proof -
  have upd: "(k, row) \<in> set (AList.update a b m) \<Longrightarrow> (k, row) \<in> set m \<or> k = a \<and> row = b" for a b m
    by (induction m) (auto split: if_splits)
  assume "(k, row) \<in> set (ct_rows (setCachedPermissions t p))"
  then show ?thesis by (auto simp: setCachedPermissions_def Let_def row_of_def dest!: upd)
qed

lemma generation_publish [simp]: "ct_generation (setCachedPermissions t p) = ct_generation t"
  by (simp add: setCachedPermissions_def Let_def)

lemma row_current_view:
  assumes "view db' (fst k) (snd k) = view db (fst k) (snd k)"
  shows "row_current r db' k row = row_current r db k row"
  unfolding row_current_def compute_view [OF assms] ..

lemma protocol_invD:
  assumes "protocol_inv r s"
  shows "worker_ok s (pt_workers s w)"
    and "(k, row) \<in> set (ct_rows (pt_table s)) \<Longrightarrow> row_current r (pt_db s) k row \<or> owed s (fst k) (snd k)"
  using assms unfolding protocol_inv_def by blast+

lemma worker_ok_workers [simp]:
  "worker_ok (s\<lparr>pt_workers := f\<rparr>) w = worker_ok s w"
  by (cases w) (simp_all add: owed_def)

lemma owed_workers [simp]: "owed (s\<lparr>pt_workers := f\<rparr>) u org = owed s u org"
  by (simp add: owed_def)

lemma inv_workers:
  assumes "protocol_inv r s" "worker_ok s v"
  shows "protocol_inv r (s\<lparr>pt_workers := (pt_workers s)(w := v)\<rparr>)"
  using assms by (simp add: protocol_inv_def)

lemma inv_publish:
  assumes inv: "protocol_inv r s" and w: "pt_workers s w = WReading u org g ss" "length ss = 5"
    and p: "computePermissions r (mixed ss) now uuid u org = Inr p"
  shows "protocol_inv r (s\<lparr>pt_table := snd (SetCachedPermissionsAtGeneration (pt_table s) p g)\<rparr>)"
    (is "protocol_inv r ?s'")
proof -
  let ?t = "snd (SetCachedPermissionsAtGeneration (pt_table s) p g)"
  have gen: "ct_generation ?t = ct_generation (pt_table s)"
    by (simp add: SetCachedPermissionsAtGeneration_def)
  have workers: "worker_ok ?s' v = worker_ok s v" for v
    by (cases v) (simp_all add: owed_def gen)
  have ow: "owed ?s' a b = owed s a b" for a b by (simp add: owed_def)
  have "row_current r (pt_db s) k row \<or> owed s (fst k) (snd k)" if row: "(k, row) \<in> set (ct_rows ?t)" for k row
  proof (cases "(k, row) \<in> set (ct_rows (pt_table s))")
    case True
    then show ?thesis by (rule protocol_invD(2) [OF inv])
  next
    case False
    with row have g: "g = ct_generation (pt_table s)"
      by (auto simp: SetCachedPermissionsAtGeneration_def split: if_splits)
    with row have "(k, row) \<in> set (ct_rows (setCachedPermissions (pt_table s) p))"
      by (auto simp: SetCachedPermissionsAtGeneration_def split: if_splits)
    with False rows_publish obtain i where k: "k = (ep_UserID p, ep_OrgID p)" "row = row_of i p" by blast
    have ids: "ep_UserID p = u" "ep_OrgID p = org" using compute_ids [OF p] by simp_all
    from protocol_invD(1) [OF inv, of w] w g
    consider "owed s u org" | "\<forall>x \<in> set ss. view x u org = view (pt_db s) u org" by auto
    then show ?thesis
    proof cases
      case 1
      then show ?thesis by (simp add: k ids)
    next
      case 2
      from compute_view [OF view_mixed [OF w(2) 2]] p
      have "computePermissions r (pt_db s) now uuid u org = Inr p" by simp
      then show ?thesis by (auto simp: row_current_def k ids)
    qed
  qed
  with inv show ?thesis by (simp add: protocol_inv_def workers ow)
qed

lemma inv_mutate:
  assumes inv: "protocol_inv r s"
    and same: "\<And>u org. \<not> covers sc u org \<Longrightarrow> view db' u org = view (pt_db s) u org"
  shows "protocol_inv r (s\<lparr>pt_db := db', pt_owed := sc # pt_owed s\<rparr>)" (is "protocol_inv r ?s'")
proof -
  have ow: "owed ?s' a b \<longleftrightarrow> covers sc a b \<or> owed s a b" for a b by (auto simp: owed_def)
  have "worker_ok ?s' v" if "worker_ok s v" for v
    using that by (cases v) (auto simp: ow same)
  moreover have "row_current r db' k row \<or> owed ?s' (fst k) (snd k)"
    if "(k, row) \<in> set (ct_rows (pt_table s))" for k row
    using protocol_invD(2) [OF inv that] row_current_view [OF same]
    by (cases "covers sc (fst k) (snd k)") (simp_all add: ow)
  ultimately show ?thesis using inv by (simp add: protocol_inv_def)
qed

lemma inv_commit:
  assumes inv: "protocol_inv r s"
  shows "protocol_inv r (s\<lparr>pt_table := invalidate_scope sc (pt_table s), pt_owed := remove1 sc (pt_owed s)\<rparr>)"
    (is "protocol_inv r ?s'")
proof -
  have ow: "owed s a b \<Longrightarrow> covers sc a b \<or> owed ?s' a b" for a b
    by (auto simp: owed_def) (metis in_set_remove1)
  have "worker_ok ?s' v" if "worker_ok s v" for v
    using that by (cases v) auto
  moreover have "row_current r (pt_db s) k row \<or> owed ?s' (fst k) (snd k)"
    if "(k, row) \<in> set (ct_rows (invalidate_scope sc (pt_table s)))" for k row
  proof -
    obtain a b where k: "k = (a, b)" by (cases k)
    with that have "(k, row) \<in> set (ct_rows (pt_table s))" "\<not> covers sc a b" by (simp_all add: rows_invalidate)
    with protocol_invD(2) [OF inv this(1)] ow [of a b] show ?thesis by (auto simp: k)
  qed
  ultimately show ?thesis using inv by (simp add: protocol_inv_def)
qed

lemma inv_cleanup:
  assumes inv: "protocol_inv r s"
  shows "protocol_inv r (s\<lparr>pt_table := snd (CleanupExpiredCache (pt_table s) now)\<rparr>)" (is "protocol_inv r ?s'")
proof -
  have sub: "set (ct_rows (snd (CleanupExpiredCache t now))) \<subseteq> set (ct_rows t)"
    "ct_generation (snd (CleanupExpiredCache t now)) = ct_generation t" for t
    by (auto simp: CleanupExpiredCache_def Let_def)
  have ow: "owed ?s' a b = owed s a b" for a b by (simp add: owed_def)
  have "worker_ok ?s' v = worker_ok s v" for v by (cases v) (simp_all add: ow sub)
  moreover have "row_current r (pt_db s) k row \<or> owed s (fst k) (snd k)"
    if "(k, row) \<in> set (ct_rows (snd (CleanupExpiredCache (pt_table s) now)))" for k row
    using protocol_invD(2) [OF inv] subsetD [OF sub(1) that] by blast
  ultimately show ?thesis using inv by (simp add: protocol_inv_def ow)
qed

lemma pstep_inv:
  assumes "pstep r s s'" "protocol_inv r s"
  shows "protocol_inv r s'"
  using assms
proof cases
  case (begin_compute w u org)
  show ?thesis unfolding begin_compute(1)
    by (rule inv_workers [OF assms(2)]) (simp add: CacheGeneration_def)
next
  case (query w u org g ss)
  have "worker_ok s (WReading u org g (ss @ [pt_db s]))"
    using protocol_invD(1) [OF assms(2), of w] by (simp add: query(2))
  then show ?thesis unfolding query(1) by (rule inv_workers [OF assms(2)])
next
  case (publish w u org g ss now uuid p)
  have "protocol_inv r (s\<lparr>pt_table := snd (SetCachedPermissionsAtGeneration (pt_table s) p g)\<rparr>)"
    by (rule inv_publish [OF assms(2) publish(2-4)])
  from inv_workers [OF this, of WIdle w] show ?thesis unfolding publish(1) by simp
next
  case (abandon w)
  show ?thesis unfolding abandon by (rule inv_workers [OF assms(2)]) simp
next
  case (mutate sc db')
  show ?thesis unfolding mutate(1) by (rule inv_mutate [OF assms(2) mutate(2)])
next
  case (commit_invalidation sc)
  show ?thesis unfolding commit_invalidation(1) by (rule inv_commit [OF assms(2)])
next
  case (cleanup_expired now)
  show ?thesis unfolding cleanup_expired by (rule inv_cleanup [OF assms(2)])
qed

lemma reachable_inv: "reachable_state r s \<Longrightarrow> protocol_inv r s"
proof (induction rule: reachable_state.induct)
  case (initial t db)
  then show ?case by (simp add: protocol_inv_def)
next
  case (step s s')
  from step.hyps(2) step.IH show ?case by (rule pstep_inv)
qed

section \<open>Properties\<close>

text \<open>
  C32. However computations, mutations of the rows, invalidations and clean-ups interleave, and even
  though a computation reads the rows in separate queries, once no mutation owes an invalidation
  every row of the shared permission table is what the resolver computes from the current rows: a
  computation that read anything older than the last mutation never leaves its result behind.
\<close>

theorem shared_rows_current:
  assumes "reachable_state r s" "pt_owed s = []" "map_of (ct_rows (pt_table s)) (u, org) = Some row"
  shows "\<exists>now uuid i p. computePermissions r (pt_db s) now uuid u org = Inr p \<and> row = row_of i p"
proof -
  have "row_current r (pt_db s) (u, org) row"
    using protocol_invD(2) [OF reachable_inv [OF assms(1)] map_of_SomeD [OF assms(3)]] assms(2)
    by (simp add: owed_def)
  then show ?thesis by (simp add: row_current_def)
qed

definition demo_protocol :: "worker \<Rightarrow> protocol" where
  "demo_protocol w =
     \<lparr>pt_db = demo_store None, pt_table = \<lparr>ct_rows = [], ct_generation = 7\<rparr>, pt_owed = [],
      pt_workers = (\<lambda>_. WIdle)(0 := w)\<rparr>"

lemma demo_computed:
  "\<exists>p. computePermissions demo_resolver (demo_store None) now uuid ''u'' ''o'' = Inr p
       \<and> ep_AllowedMethods p = [''eth_call'', ''linea_foo'']"
proof -
  have "\<not> list_ex (\<lambda>m. grp_IsOrgAdmin (mwd_Group m)) [demo_membership ''g1'' (Some 50), demo_membership ''g2'' None]"
    by (simp add: demo_defs)
  from computePermissions_member [OF demo_memberships this demo_load [of None], where r = demo_resolver and now = now and uuid = uuid]
  obtain p where p: "computePermissions demo_resolver (demo_store None) now uuid ''u'' ''o'' = Inr p"
    "ep_AllowedMethods p = gp_AllowedMethods (merge_all
       (groupPerms demo_resolver (demo_batch None) (grp_ID (mwd_Group (demo_membership ''g1'' (Some 50)))))
       (map (\<lambda>m. groupPerms demo_resolver (demo_batch None) (grp_ID (mwd_Group m))) [demo_membership ''g2'' None]))"
    unfolding Let_def by (elim exE conjE)
  have lc: "to_lower ''eth_call'' = ''eth_call''" "to_lower ''linea_foo'' = ''linea_foo''"
    "to_lower ''linea_Foo'' = ''linea_foo''" by code_simp+
  have "ep_AllowedMethods p = [''eth_call'', ''linea_foo'']"
    by (simp add: p(2) merge_perms_def groupPerms_methods unionStrings_def index_by_def merge_into_def lc demo_defs)
  with p(1) show ?thesis by blast
qed

lemma demo_query:
  assumes "reachable_state demo_resolver (demo_protocol (WReading u org g ss))" "length ss < 5"
  shows "reachable_state demo_resolver (demo_protocol (WReading u org g (ss @ [demo_store None])))"
proof -
  have "pstep demo_resolver (demo_protocol (WReading u org g ss))
      ((demo_protocol (WReading u org g ss))
        \<lparr>pt_workers := (pt_workers (demo_protocol (WReading u org g ss)))
          (0 := WReading u org g (ss @ [pt_db (demo_protocol (WReading u org g ss))]))\<rparr>)"
    by (rule pstep.query) (simp_all add: demo_protocol_def assms(2))
  from reachable_state.step [OF assms(1) this] show ?thesis by (simp add: demo_protocol_def)
qed

lemma demo_read:
  "reachable_state demo_resolver (demo_protocol (WReading ''u'' ''o'' 7 (replicate 5 (demo_store None))))"
proof -
  have "reachable_state demo_resolver (demo_protocol WIdle)"
    using reachable_state.initial [of "\<lparr>ct_rows = [], ct_generation = 7\<rparr>" demo_resolver "demo_store None"]
    by (simp add: demo_protocol_def fun_upd_idem)
  moreover have "pstep demo_resolver (demo_protocol WIdle) (demo_protocol (WReading ''u'' ''o'' 7 []))"
    using pstep.begin_compute [of "demo_protocol WIdle" 0 demo_resolver "''u''" "''o''"]
    by (simp add: demo_protocol_def CacheGeneration_def)
  ultimately have r0: "reachable_state demo_resolver (demo_protocol (WReading ''u'' ''o'' 7 []))"
    by (rule reachable_state.step)
  have "reachable_state demo_resolver (demo_protocol (WReading ''u'' ''o'' 7 (replicate n (demo_store None))))"
    if "n \<le> 5" for n
    using that
  proof (induction n)
    case 0
    show ?case using r0 by simp
  next
    case (Suc n)
    then have "reachable_state demo_resolver (demo_protocol (WReading ''u'' ''o'' 7 (replicate n (demo_store None))))"
      by simp
    from demo_query [OF this] Suc.prems show ?case by (simp add: replicate_append_same)
  qed
  then show ?thesis by simp
qed

theorem shared_rows_current_witness:
  "\<exists>(s :: protocol) row now uuid i p. map_of (ct_rows (pt_table s)) (''u'', ''o'') = Some row
     \<and> computePermissions demo_resolver (pt_db s) now uuid ''u'' ''o'' = Inr p \<and> row = row_of i p
     \<and> ep_AllowedMethods p \<noteq> []"
proof -
  let ?s = "demo_protocol (WReading ''u'' ''o'' 7 (replicate 5 (demo_store None)))"
  obtain p where p: "computePermissions demo_resolver (demo_store None) 1 ''id'' ''u'' ''o'' = Inr p"
    "ep_AllowedMethods p \<noteq> []" "ep_UserID p = ''u''" "ep_OrgID p = ''o''"
    using demo_computed [of 1 "''id''"] compute_ids by (elim exE conjE) fastforce
  let ?s' = "?s\<lparr>pt_table := snd (SetCachedPermissionsAtGeneration (pt_table ?s) p 7), pt_workers := (pt_workers ?s)(0 := WIdle)\<rparr>"
  have "pstep demo_resolver ?s ?s'"
    by (rule pstep.publish [of _ _ "''u''" "''o''" _ "replicate 5 (demo_store None)" _ 1 "''id''"])
      (simp_all add: demo_protocol_def mixed_def p(1))
  then have s': "reachable_state demo_resolver ?s'" by (rule reachable_state.step [OF demo_read])
  have row: "map_of (ct_rows (pt_table ?s')) (''u'', ''o'') = Some (row_of (ep_ID p) p)"
    by (simp add: demo_protocol_def SetCachedPermissionsAtGeneration_def setCachedPermissions_def row_of_def p)
  have "pt_owed ?s' = []" by (simp add: demo_protocol_def)
  from shared_rows_current [OF s' this row]
  obtain now uuid i q where q: "computePermissions demo_resolver (pt_db ?s') now uuid ''u'' ''o'' = Inr q"
    "row_of (ep_ID p) p = row_of i q" by (elim exE conjE)
  from q(2) p(2) have "ep_AllowedMethods q \<noteq> []" by (simp add: row_of_def)
  show ?thesis by (rule exI [of _ ?s'], intro exI conjI, rule row, rule q(1), rule q(2), rule \<open>ep_AllowedMethods q \<noteq> []\<close>)
qed

lemma cache_Get_dropped: "cache_Get (cache_InvalidateUser c u) now u org = (None, cache_InvalidateUser c u)"
  by (simp add: cache_Get_def cache_InvalidateUser_def cacheKey_def map_of_filter_key)

lemma cache_Get_set:
  assumes "ep_UserID p = u" "ep_OrgID p = org" "now \<le> set_at + ch_ttl c" "now \<le> ep_ExpiresAt p"
  shows "fst (cache_Get (cache_Set c set_at p) now u org) = Some p"
  using assms by (simp add: cache_Get_def cache_Set_def cache_SetWithTTL_def Let_def update_conv')

lemma resolve_local_hit:
  assumes "\<not> acr_BypassCache req" "fst (cache_Get (ac_cache c) (en_now en) (usr_ID usr) (org_ID org)) = Some p"
  shows "fst (resolvePermissionsForRequest en c req usr org) = Inr p"
  using assms by (cases "cache_Get (ac_cache c) (en_now en) (usr_ID usr) (org_ID org)")
    (simp add: resolvePermissionsForRequest_def)

lemma GetCachedPermissions_ids:
  "GetCachedPermissions t now u org = Inr (Some p) \<Longrightarrow> ep_UserID p = u \<and> ep_OrgID p = org"
  by (auto simp: GetCachedPermissions_def split: option.splits if_splits)

text \<open>
  C40. An invalidation of a user clears the process-local cache before the shared table. A request of
  that user that runs between the two reads the old row from the shared table and stores it in the
  local cache again, and the second half of the invalidation does not remove it: the controller
  serves the revoked permissions afterwards, until their lifetime in the cache ends.
\<close>

theorem invalidation_leaves_stale_local_entry:
  fixes usr :: user and org :: organization
  defines "u \<equiv> usr_ID usr"
  assumes "\<not> acr_BypassCache req" "ft_get (en_faults en) = None"
    and old: "GetCachedPermissions (ac_table c) (en_now en) u (org_ID org) = Inr (Some old)"
    and "en_now later \<le> en_now en + ch_ttl (ac_cache c)" "en_now later \<le> ep_ExpiresAt old"
  shows "let c1 = InvalidateUser_local c u;
             c2 = snd (resolvePermissionsForRequest en c1 req usr org);
             c3 = snd (InvalidateUser_shared en c2 u)
         in fst (resolvePermissionsForRequest later c3 req usr org) = Inr old"
proof -
  let ?c1 = "InvalidateUser_local c u"
  have "resolvePermissionsForRequest en ?c1 req usr org =
      (Inr old, ?c1\<lparr>ac_cache := cache_Set (ac_cache ?c1) (en_now en) old\<rparr>)"
    using assms by (simp add: resolvePermissionsForRequest_def InvalidateUser_local_def cache_Get_dropped
        ResolvePermissionsCacheable_def resolveCacheable_def)
  moreover have "ac_cache (snd (InvalidateUser_shared en d u)) = ac_cache d" for d
    by (simp add: InvalidateUser_shared_def split: option.split)
  moreover have "fst (cache_Get (cache_Set (ac_cache ?c1) (en_now en) old) (en_now later) u (org_ID org)) = Some old"
    using assms GetCachedPermissions_ids [OF old]
    by (intro cache_Get_set) (simp_all add: InvalidateUser_local_def cache_InvalidateUser_def)
  ultimately show ?thesis
    unfolding Let_def by (intro resolve_local_hit [OF assms(2)]) (simp add: u_def)
qed

definition demo_env :: "Go_Prelude.time \<Rightarrow> env" where
  "demo_env now =
     \<lparr>en_now = now, en_uuid = ''id'', en_store = empty_store, en_registries = empty_registries,
      en_abi = empty_abi_lib, en_viewscope = None, en_faults = no_faults\<rparr>"

definition demo_user :: user where
  "demo_user =
     \<lparr>usr_ID = ''u'', usr_ExternalID = ''ext'', usr_KYC = False, usr_Banned = False, usr_Note = '''',
      usr_AuthTenantID = None, usr_Metadata = [], usr_CreatedAt = 1, usr_UpdatedAt = 1\<rparr>"

definition demo_org :: organization where
  "demo_org =
     \<lparr>org_ID = ''o'', org_Slug = ''o'', org_Name = ''o'', org_Settings = [], org_IsSystem = False,
      org_CreatedAt = 1, org_UpdatedAt = 1\<rparr>"

definition demo_request :: access_check_request where
  "demo_request =
     \<lparr>acr_UserExternalID = ''ext'', acr_OrgSlug = '''', acr_OrgID = '''', acr_Method = ''eth_call'',
      acr_AccessMethod = '''', acr_Params = [], acr_TargetAddress = '''', acr_FunctionSelector = '''',
      acr_Calldata = None, acr_RequiredClaims = [], acr_BypassCache = False\<rparr>"

definition demo_table :: cache_table where
  "demo_table = setCachedPermissions \<lparr>ct_rows = [], ct_generation = 1\<rparr> (demo_cached [])"

theorem invalidation_leaves_stale_local_entry_witness:
  "let c1 = InvalidateUser_local (NewAccessController demo_resolver demo_table) ''u'';
       c2 = snd (resolvePermissionsForRequest (demo_env 5) c1 demo_request demo_user demo_org);
       c3 = snd (InvalidateUser_shared (demo_env 5) c2 ''u'')
   in ct_rows (ac_table c3) = []
      \<and> fst (resolvePermissionsForRequest (demo_env 10) c3 demo_request demo_user demo_org)
          = Inr ((demo_cached [])\<lparr>ep_RPCAPIKey := ''''\<rparr>)"
proof -
  let ?c = "NewAccessController demo_resolver demo_table"
  let ?old = "(demo_cached [])\<lparr>ep_RPCAPIKey := ''''\<rparr>"
  have "GetCachedPermissions (ac_table ?c) (en_now (demo_env 5)) (usr_ID demo_user) (org_ID demo_org) = Inr (Some ?old)"
    by (simp add: NewAccessController_def demo_table_def GetCachedPermissions_def setCachedPermissions_def
        demo_cached_def demo_env_def demo_user_def demo_org_def access_map_json_def)
  moreover have "ft_get (en_faults (demo_env 5)) = None" "\<not> acr_BypassCache demo_request"
    "en_now (demo_env 10) \<le> en_now (demo_env 5) + ch_ttl (ac_cache ?c)" "en_now (demo_env 10) \<le> ep_ExpiresAt ?old"
    by (simp_all add: demo_env_def no_faults_def demo_request_def NewAccessController_def NewCache_def
        demo_resolver_def demo_cached_def)
  ultimately have "let c1 = InvalidateUser_local ?c (usr_ID demo_user);
       c2 = snd (resolvePermissionsForRequest (demo_env 5) c1 demo_request demo_user demo_org);
       c3 = snd (InvalidateUser_shared (demo_env 5) c2 (usr_ID demo_user))
     in fst (resolvePermissionsForRequest (demo_env 10) c3 demo_request demo_user demo_org) = Inr ?old"
    by (intro invalidation_leaves_stale_local_entry)
  moreover have "ct_rows (ac_table (snd (InvalidateUser_shared (demo_env 5)
      (snd (resolvePermissionsForRequest (demo_env 5) (InvalidateUser_local ?c ''u'') demo_request demo_user demo_org)) ''u''))) = []"
    by (simp add: InvalidateUser_shared_def demo_env_def no_faults_def resolvePermissionsForRequest_def
        InvalidateUser_local_def demo_request_def cache_Get_dropped demo_user_def demo_org_def
        ResolvePermissionsCacheable_def resolveCacheable_def GetCachedPermissions_def NewAccessController_def
        demo_table_def setCachedPermissions_def demo_cached_def access_map_json_def InvalidateCacheForUser_def
        bumpCacheGeneration_def)
  moreover have "usr_ID demo_user = ''u''" by (simp add: demo_user_def)
  ultimately show ?thesis by (simp only: Let_def conj_absorb simp_thms)
qed

end
