(* ===== verification/Org_Context.thy ===== *)
theory Org_Context
  imports Cache_Protocol
begin

text \<open>
  Organization-scoped decisions: \<^verbatim>\<open>internal/rbac/org_context.go\<close> with the view scope of
  \<^verbatim>\<open>internal/viewscope\<close> (the optional organization of the request context). The memo of contract
  owners is part of the context, so looking up an owner returns the context as well.
\<close>

definition ErrContractAccessDenied :: string where
  "ErrContractAccessDenied = ''contract access denied''"

record org_context =
  oc_org :: "organization option"
  oc_user :: user
  oc_userOrgIDs :: "string list"
  oc_ownerOrgCache :: "(string \<times> string) list"

definition GetUserOrgIDs :: "store \<Rightarrow> string \<Rightarrow> string list res" where
  "GetUserOrgIDs st userID =
     (case st_ListActiveUserMembershipsWithDetails st userID of
        Inl e \<Rightarrow> Inl e
      | Inr memberships \<Rightarrow> Inr (fold (\<lambda>m. add_member (grp_OrgID (mwd_Group m))) memberships []))"

definition scopeUserOrgIDs :: "string option \<Rightarrow> string list \<Rightarrow> string list" where
  "scopeUserOrgIDs scope orgIDs =
     (case scope of
        None \<Rightarrow> orgIDs
      | Some orgID \<Rightarrow> if orgID \<noteq> '''' \<and> orgID \<in> set orgIDs then [orgID] else [])"

definition NewOrgContext :: "env \<Rightarrow> user \<Rightarrow> string \<Rightarrow> org_context res" where
  "NewOrgContext en usr targetAddress =
     (case GetUserOrgIDs (en_store en) (usr_ID usr) of
        Inl e \<Rightarrow> Inl (''failed to get user organizations: '' @ e)
      | Inr orgIDs \<Rightarrow>
          let userOrgIDs = scopeUserOrgIDs (en_viewscope en) orgIDs;
              oc = \<lparr>oc_org = None, oc_user = usr, oc_userOrgIDs = userOrgIDs, oc_ownerOrgCache = []\<rparr>
          in if targetAddress = '''' then Inr oc
             else let addr = norm_addr targetAddress in
               (case st_GetContractOwnerOrgID (en_store en) addr of
                  Inl e \<Rightarrow> Inl (''failed to get contract owner: '' @ e)
                | Inr ownerOrgID \<Rightarrow>
                    let oc = oc\<lparr>oc_ownerOrgCache := [(addr, ownerOrgID)]\<rparr> in
                    if ownerOrgID = '''' then Inr oc
                    else if ownerOrgID \<notin> set userOrgIDs then Inl ErrContractAccessDenied
                    else (case st_GetOrganization (en_store en) ownerOrgID of
                            Inl e \<Rightarrow> Inl (''failed to get organization: '' @ e)
                          | Inr org \<Rightarrow> Inr (oc\<lparr>oc_org := org\<rparr>))))"

definition NewOrgContextForOrg :: "env \<Rightarrow> user \<Rightarrow> string \<Rightarrow> org_context res" where
  "NewOrgContextForOrg en usr orgID =
     (case GetUserOrgIDs (en_store en) (usr_ID usr) of
        Inl e \<Rightarrow> Inl (''failed to get user organizations: '' @ e)
      | Inr orgIDs \<Rightarrow>
          let userOrgIDs = scopeUserOrgIDs (en_viewscope en) orgIDs in
          if orgID \<notin> set userOrgIDs then Inl (''user is not a member of organization '' @ orgID)
          else (case st_GetOrganization (en_store en) orgID of
                  Inl e \<Rightarrow> Inl (''failed to get organization: '' @ e)
                | Inr org \<Rightarrow>
                    Inr \<lparr>oc_org = org, oc_user = usr, oc_userOrgIDs = userOrgIDs, oc_ownerOrgCache = []\<rparr>))"

definition OrgID :: "org_context \<Rightarrow> string" where
  "OrgID oc = (case oc_org oc of None \<Rightarrow> '''' | Some org \<Rightarrow> org_ID org)"

definition OwnerOrgID :: "env \<Rightarrow> org_context \<Rightarrow> string \<Rightarrow> string res \<times> org_context" where
  "OwnerOrgID en oc addr =
     (let key = norm_addr addr in
      case map_of (oc_ownerOrgCache oc) key of
        Some v \<Rightarrow> (Inr v, oc)
      | None \<Rightarrow>
          (case st_GetContractOwnerOrgID (en_store en) key of
             Inl e \<Rightarrow> (Inl e, oc)
           | Inr v \<Rightarrow> (Inr v, oc\<lparr>oc_ownerOrgCache := AList.update key v (oc_ownerOrgCache oc)\<rparr>)))"

definition IsPublicContext :: "org_context \<Rightarrow> bool" where
  "IsPublicContext oc = (oc_org oc = None)"

definition UserBelongsToOrg :: "org_context \<Rightarrow> bool" where
  "UserBelongsToOrg oc = (case oc_org oc of None \<Rightarrow> True | Some org \<Rightarrow> org_ID org \<in> set (oc_userOrgIDs oc))"

definition CheckAddressInScope :: "env \<Rightarrow> org_context \<Rightarrow> string \<Rightarrow> unit res" where
  "CheckAddressInScope en oc address =
     (let addr = norm_addr address in
      if addr = '''' then Inr ()
      else case st_GetContractOwnerOrgID (en_store en) addr of
        Inl e \<Rightarrow> Inl (''failed to check contract owner: '' @ e)
      | Inr ownerOrgID \<Rightarrow>
          if ownerOrgID = '''' then (if IsPrecompileAddress addr then Inr () else Inl ErrContractAccessDenied)
          else if ownerOrgID \<notin> set (oc_userOrgIDs oc) then Inl ErrContractAccessDenied
          else Inr ())"

fun CheckMultiAddressesInScope :: "env \<Rightarrow> org_context \<Rightarrow> string list \<Rightarrow> unit res" where
  "CheckMultiAddressesInScope en oc [] = Inr ()"
| "CheckMultiAddressesInScope en oc (addr # addrs) =
     (case CheckAddressInScope en oc addr of
        Inl e \<Rightarrow> Inl e
      | Inr _ \<Rightarrow> CheckMultiAddressesInScope en oc addrs)"

definition CheckDefaultClaimsAllowed :: "env \<Rightarrow> org_context \<Rightarrow> string \<Rightarrow> bool \<Rightarrow> unit res" where
  "CheckDefaultClaimsAllowed en oc address hasExplicitAccess =
     (if hasExplicitAccess then Inr ()
      else let addr = norm_addr address in
        if addr = '''' then Inr ()
        else case st_GetContractOwnerOrgID (en_store en) addr of
          Inl e \<Rightarrow> Inl (''failed to check contract ownership: '' @ e)
        | Inr ownerOrgID \<Rightarrow>
            if ownerOrgID = '''' \<and> IsPrecompileAddress addr then Inr ()
            else Inl ErrContractAccessDenied)"

section \<open>Lemmas\<close>

text \<open>A memo is coherent when every entry is what the store would answer.\<close>

definition memo_ok :: "env \<Rightarrow> org_context \<Rightarrow> bool" where
  "memo_ok en oc \<longleftrightarrow>
     (\<forall>k v. map_of (oc_ownerOrgCache oc) k = Some v \<longrightarrow> st_GetContractOwnerOrgID (en_store en) k = Inr v)"

lemma NewOrgContext_memo: "NewOrgContext en usr t = Inr oc \<Longrightarrow> memo_ok en oc"
  by (auto simp: NewOrgContext_def memo_ok_def Let_def split: sum.splits if_splits)

lemma OwnerOrgID_memo: "memo_ok en oc \<Longrightarrow> memo_ok en (snd (OwnerOrgID en oc a))"
  by (auto simp: OwnerOrgID_def memo_ok_def Let_def update_conv' split: option.splits sum.splits if_splits)

lemma OwnerOrgID_store: "memo_ok en oc \<Longrightarrow> fst (OwnerOrgID en oc a) = st_GetContractOwnerOrgID (en_store en) (norm_addr a)"
  by (auto simp: OwnerOrgID_def memo_ok_def Let_def split: option.splits sum.splits)

lemma OwnerOrgID_orgs [simp]: "oc_userOrgIDs (snd (OwnerOrgID en oc a)) = oc_userOrgIDs oc"
  by (auto simp: OwnerOrgID_def Let_def split: option.splits sum.splits)

lemma CheckAddressInScope_eq:
  "CheckAddressInScope en oc a = Inr () \<longleftrightarrow>
     norm_addr a = ''''
     \<or> (\<exists>owner. st_GetContractOwnerOrgID (en_store en) (norm_addr a) = Inr owner
          \<and> (if owner = '''' then IsPrecompileAddress (norm_addr a) else owner \<in> set (oc_userOrgIDs oc)))"
  by (auto simp: CheckAddressInScope_def Let_def split: sum.splits if_splits)

lemma CheckMulti_all:
  "CheckMultiAddressesInScope en oc as = Inr () \<longleftrightarrow> (\<forall>a \<in> set as. CheckAddressInScope en oc a = Inr ())"
  by (induction as) (auto split: sum.splits)

lemma NewOrgContext_orgs:
  "NewOrgContext en usr t = Inr oc \<Longrightarrow>
     \<exists>ids. GetUserOrgIDs (en_store en) (usr_ID usr) = Inr ids \<and> oc_userOrgIDs oc = scopeUserOrgIDs (en_viewscope en) ids"
  by (auto simp: NewOrgContext_def Let_def split: sum.splits if_splits)

lemma scopeUserOrgIDs_subset: "set (scopeUserOrgIDs scope ids) \<subseteq> set ids"
  by (auto simp: scopeUserOrgIDs_def split: option.splits)

lemma NewOrgContext_owner:
  assumes "NewOrgContext en usr t = Inr oc" "t \<noteq> ''''"
  shows "\<exists>owner. st_GetContractOwnerOrgID (en_store en) (norm_addr t) = Inr owner
    \<and> (owner = '''' \<or> owner \<in> set (oc_userOrgIDs oc))"
  using assms by (auto simp: NewOrgContext_def Let_def split: sum.splits if_splits)

end
