(* ===== verification/Abi_Registry.thy ===== *)
theory Abi_Registry
  imports Rbac_Models
begin

text \<open>
  Which ABI applies to a contract (\<^verbatim>\<open>internal/rbac/abi_registry.go\<close>): an uploaded ABI, or the built-in
  text of a known token type. The texts are the source's, character by character.
\<close>

text \<open>
  \<^verbatim>\<open>strings.ToUpper\<close> on ASCII. The registry's keys are ASCII letters and digits that no other
  character maps to, so other characters can be left as they are.
\<close>

definition ascii_upper :: "string \<Rightarrow> string" where
  "ascii_upper s = map (\<lambda>c. if is_lower_char c then char_of (of_char c - (32 :: nat)) else c) s"

definition erc20ABI :: string where
  \<open>erc20ABI =
     ''[
	{
		"anonymous": false,
		"inputs": [
			{"indexed": true, "name": "from", "type": "address"},
			{"indexed": true, "name": "to", "type": "address"},
			{"indexed": false, "name": "value", "type": "uint256"}
		],
		"name": "Transfer",
		"type": "event"
	},
	{
		"anonymous": false,
		"inputs": [
			{"indexed": true, "name": "owner", "type": "address"},
			{"indexed": true, "name": "spender", "type": "address"},
			{"indexed": false, "name": "value", "type": "uint256"}
		],
		"name": "Approval",
		"type": "event"
	},
	{
		"inputs": [],
		"name": "name",
		"outputs": [{"name": "", "type": "string"}],
		"stateMutability": "view",
		"type": "function"
	},
	{
		"inputs": [],
		"name": "symbol",
		"outputs": [{"name": "", "type": "string"}],
		"stateMutability": "view",
		"type": "function"
	},
	{
		"inputs": [],
		"name": "decimals",
		"outputs": [{"name": "", "type": "uint8"}],
		"stateMutability": "view",
		"type": "function"
	},
	{
		"inputs": [],
		"name": "totalSupply",
		"outputs": [{"name": "", "type": "uint256"}],
		"stateMutability": "view",
		"type": "function"
	},
	{
		"inputs": [{"name": "account", "type": "address"}],
		"name": "balanceOf",
		"outputs": [{"name": "", "type": "uint256"}],
		"stateMutability": "view",
		"type": "function"
	},
	{
		"inputs": [
			{"name": "to", "type": "address"},
			{"name": "amount", "type": "uint256"}
		],
		"name": "transfer",
		"outputs": [{"name": "", "type": "bool"}],
		"stateMutability": "nonpayable",
		"type": "function"
	},
	{
		"inputs": [
			{"name": "spender", "type": "address"},
			{"name": "amount", "type": "uint256"}
		],
		"name": "approve",
		"outputs": [{"name": "", "type": "bool"}],
		"stateMutability": "nonpayable",
		"type": "function"
	},
	{
		"inputs": [
			{"name": "owner", "type": "address"},
			{"name": "spender", "type": "address"}
		],
		"name": "allowance",
		"outputs": [{"name": "", "type": "uint256"}],
		"stateMutability": "view",
		"type": "function"
	}
]''\<close>

definition erc721ABI :: string where
  \<open>erc721ABI =
     ''[
	{
		"anonymous": false,
		"inputs": [
			{"indexed": true, "name": "from", "type": "address"},
			{"indexed": true, "name": "to", "type": "address"},
			{"indexed": true, "name": "tokenId", "type": "uint256"}
		],
		"name": "Transfer",
		"type": "event"
	},
	{
		"anonymous": false,
		"inputs": [
			{"indexed": true, "name": "owner", "type": "address"},
			{"indexed": true, "name": "approved", "type": "address"},
			{"indexed": true, "name": "tokenId", "type": "uint256"}
		],
		"name": "Approval",
		"type": "event"
	},
	{
		"anonymous": false,
		"inputs": [
			{"indexed": true, "name": "owner", "type": "address"},
			{"indexed": true, "name": "operator", "type": "address"},
			{"indexed": false, "name": "approved", "type": "bool"}
		],
		"name": "ApprovalForAll",
		"type": "event"
	},
	{
		"inputs": [{"name": "tokenId", "type": "uint256"}],
		"name": "ownerOf",
		"outputs": [{"name": "", "type": "address"}],
		"stateMutability": "view",
		"type": "function"
	},
	{
		"inputs": [{"name": "owner", "type": "address"}],
		"name": "balanceOf",
		"outputs": [{"name": "", "type": "uint256"}],
		"stateMutability": "view",
		"type": "function"
	},
	{
		"inputs": [
			{"name": "from", "type": "address"},
			{"name": "to", "type": "address"},
			{"name": "tokenId", "type": "uint256"}
		],
		"name": "transferFrom",
		"outputs": [],
		"stateMutability": "nonpayable",
		"type": "function"
	},
	{
		"inputs": [
			{"name": "to", "type": "address"},
			{"name": "tokenId", "type": "uint256"}
		],
		"name": "approve",
		"outputs": [],
		"stateMutability": "nonpayable",
		"type": "function"
	},
	{
		"inputs": [
			{"name": "operator", "type": "address"},
			{"name": "approved", "type": "bool"}
		],
		"name": "setApprovalForAll",
		"outputs": [],
		"stateMutability": "nonpayable",
		"type": "function"
	},
	{
		"inputs": [{"name": "tokenId", "type": "uint256"}],
		"name": "getApproved",
		"outputs": [{"name": "", "type": "address"}],
		"stateMutability": "view",
		"type": "function"
	},
	{
		"inputs": [
			{"name": "owner", "type": "address"},
			{"name": "operator", "type": "address"}
		],
		"name": "isApprovedForAll",
		"outputs": [{"name": "", "type": "bool"}],
		"stateMutability": "view",
		"type": "function"
	}
]''\<close>

definition builtInABIs :: "(string \<times> string) list" where
  "builtInABIs = [(''ERC20'', erc20ABI), (''ERC721'', erc721ABI)]"

definition GetBuiltInABI :: "string \<Rightarrow> string" where
  "GetBuiltInABI tokenType =
     (case map_of builtInABIs (ascii_upper (trim_space tokenType)) of Some t \<Rightarrow> t | None \<Rightarrow> '''')"

definition ResolveContractABI :: "contract option \<Rightarrow> string" where
  "ResolveContractABI c =
     (case c of
        None \<Rightarrow> ''''
      | Some c \<Rightarrow>
          if con_ABI c \<noteq> '''' then con_ABI c
          else (case map_of (con_Metadata c) ''token_type'' of
                  Some (JStr tokenType) \<Rightarrow> GetBuiltInABI tokenType
                | _ \<Rightarrow> ''''))"

end
