(* ===== verification/Log_Decision.thy ===== *)
theory Log_Decision
  imports Go_Prelude
begin

text \<open>
  The shared read decisions of \<^verbatim>\<open>internal/rbac/read_profile.go\<close>, \<^verbatim>\<open>log_decision.go\<close> and
  \<^verbatim>\<open>tx_decision.go\<close>: which read profile is in force, whether a viewer may see a log and with which
  payload, and whether a viewer may receive a transaction, a receipt or a block entry.
\<close>

section \<open>Read profiles\<close>

type_synonym read_profile = "8 word"

definition ReadProfileUnset :: read_profile where
  "ReadProfileUnset = 0"

definition ReadProfileStandard :: read_profile where
  "ReadProfileStandard = 1"

definition ReadProfileStrict :: read_profile where
  "ReadProfileStrict = 2"

definition ParseReadProfile :: "string \<Rightarrow> read_profile res" where
  "ParseReadProfile s =
     (if norm_addr s = ''standard'' then Inr ReadProfileStandard
      else if norm_addr s = ''strict'' then Inr ReadProfileStrict
      else Inl (''invalid read profile '' @ fmt_q s @ '': must be \"standard\" or \"strict\"''))"

definition Strict :: "read_profile \<Rightarrow> bool" where
  "Strict p = (p \<noteq> ReadProfileStandard)"

definition profile_String :: "read_profile \<Rightarrow> string" where
  "profile_String p = (if Strict p then ''strict'' else ''standard'')"

section \<open>Logs\<close>

datatype log_event_rule_mode = LogEventRulesDeny | LogEventRulesWildcard | LogEventRulesAllowlist

record log_emitter_facts =
  lef_IsAdmin :: bool
  lef_Unlocked :: bool
  lef_HasGrant :: bool
  lef_ABIResolvable :: bool
  lef_DynamicPayloadDropped :: bool
  lef_IsParticipant :: bool
  lef_InVisibleTo :: bool
  lef_Rules :: log_event_rule_mode
  lef_HasTopic0 :: bool
  lef_EventAllowed :: bool
  lef_Topic0Allowlisted :: bool
  lef_IndexedSelf :: bool

datatype log_payload_policy = LogPayloadMasked | LogPayloadFull

record log_decision =
  ld_Admit :: bool
  ld_Payload :: log_payload_policy

text \<open>The zero value of \<^verbatim>\<open>LogDecision\<close> drops the log.\<close>

definition drop_log :: log_decision where
  "drop_log = \<lparr>ld_Admit = False, ld_Payload = LogPayloadMasked\<rparr>"

definition admitMasked :: log_decision where
  "admitMasked = \<lparr>ld_Admit = True, ld_Payload = LogPayloadMasked\<rparr>"

definition decideLogEmitterStrict :: "log_emitter_facts \<Rightarrow> log_decision" where
  "decideLogEmitterStrict f =
     (if \<not> lef_IndexedSelf f \<or> \<not> lef_ABIResolvable f \<or> lef_DynamicPayloadDropped f \<or> \<not> lef_HasGrant f then drop_log
      else if lef_IsAdmin f then admitMasked
      else case lef_Rules f of
             LogEventRulesWildcard \<Rightarrow> admitMasked
           | LogEventRulesAllowlist \<Rightarrow> if lef_HasTopic0 f \<and> lef_EventAllowed f then admitMasked else drop_log
           | LogEventRulesDeny \<Rightarrow> drop_log)"

definition DecideLogEmitter :: "read_profile \<Rightarrow> log_emitter_facts \<Rightarrow> log_decision" where
  "DecideLogEmitter profile f =
     (if Strict profile then decideLogEmitterStrict f
      else if lef_Unlocked f then \<lparr>ld_Admit = True, ld_Payload = LogPayloadFull\<rparr>
      else if lef_IsAdmin f then \<lparr>ld_Admit = True, ld_Payload = LogPayloadMasked\<rparr>
      else if \<not> lef_ABIResolvable f then drop_log
      else if lef_DynamicPayloadDropped f then drop_log
      else if lef_IsParticipant f \<and> lef_HasGrant f then admitMasked
      else if \<not> lef_HasGrant f then drop_log
      else case lef_Rules f of
             LogEventRulesWildcard \<Rightarrow> admitMasked
           | LogEventRulesAllowlist \<Rightarrow>
               if \<not> lef_HasTopic0 f then drop_log
               else if lef_EventAllowed f \<or> (lef_Topic0Allowlisted f \<and> lef_InVisibleTo f) then admitMasked
               else drop_log
           | LogEventRulesDeny \<Rightarrow> drop_log)"

definition DecideLogEmitterAccess :: "read_profile \<Rightarrow> log_emitter_facts \<Rightarrow> bool" where
  "DecideLogEmitterAccess profile f = ld_Admit (DecideLogEmitter profile f)"

section \<open>Transactions, receipts and block entries\<close>

type_synonym tx_surface = "8 word"

definition TxSurfaceTransaction :: tx_surface where
  "TxSurfaceTransaction = 1"

definition TxSurfaceReceipt :: tx_surface where
  "TxSurfaceReceipt = 2"

definition TxSurfaceBlockEntry :: tx_surface where
  "TxSurfaceBlockEntry = 3"

record tx_envelope_facts =
  tef_Surface :: tx_surface
  tef_IsParticipant :: bool
  tef_IsAdminOnTo :: bool
  tef_InVisibleTo :: bool
  tef_EntitledLogs :: int
  tef_IsDeployment :: bool

definition DecideTxEnvelope :: "read_profile \<Rightarrow> tx_envelope_facts \<Rightarrow> bool" where
  "DecideTxEnvelope profile f =
     (if tef_IsParticipant f then True
      else if Strict profile then False
      else if tef_Surface f = TxSurfaceTransaction then tef_IsAdminOnTo f \<or> tef_InVisibleTo f
      else if tef_Surface f = TxSurfaceReceipt
      then tef_IsAdminOnTo f \<or> tef_InVisibleTo f \<or> (\<not> tef_IsDeployment f \<and> 0 < tef_EntitledLogs f)
      else False)"

section \<open>Lemmas\<close>

lemma Strict_simps [simp]:
  "Strict ReadProfileUnset" "Strict ReadProfileStrict" "\<not> Strict ReadProfileStandard"
  by (simp_all add: Strict_def ReadProfileUnset_def ReadProfileStrict_def ReadProfileStandard_def)

lemma decision_simps [simp]:
  "\<not> ld_Admit drop_log" "ld_Admit admitMasked" "ld_Payload admitMasked = LogPayloadMasked"
  "ld_Payload drop_log = LogPayloadMasked"
  by (simp_all add: drop_log_def admitMasked_def)

text \<open>What the event rules alone allow, and the whole decision as a conjunction of its gates.\<close>

definition rules_admit :: "log_emitter_facts \<Rightarrow> bool \<Rightarrow> bool" where
  "rules_admit f visible \<longleftrightarrow>
     lef_Rules f = LogEventRulesWildcard
     \<or> lef_Rules f = LogEventRulesAllowlist \<and> lef_HasTopic0 f
       \<and> (lef_EventAllowed f \<or> visible \<and> lef_Topic0Allowlisted f \<and> lef_InVisibleTo f)"

lemma strict_admit_iff:
  "ld_Admit (decideLogEmitterStrict f) \<longleftrightarrow>
     lef_IndexedSelf f \<and> lef_ABIResolvable f \<and> \<not> lef_DynamicPayloadDropped f \<and> lef_HasGrant f
     \<and> (lef_IsAdmin f \<or> rules_admit f False)"
  by (auto simp: decideLogEmitterStrict_def rules_admit_def split: log_event_rule_mode.splits)

lemma standard_admit_iff:
  "\<not> Strict p \<Longrightarrow> ld_Admit (DecideLogEmitter p f) \<longleftrightarrow>
     lef_Unlocked f \<or> lef_IsAdmin f
     \<or> lef_ABIResolvable f \<and> \<not> lef_DynamicPayloadDropped f \<and> lef_HasGrant f \<and> (lef_IsParticipant f \<or> rules_admit f True)"
  by (auto simp: DecideLogEmitter_def rules_admit_def split: log_event_rule_mode.splits)

lemma full_payload_iff:
  "ld_Payload (DecideLogEmitter p f) = LogPayloadFull \<longleftrightarrow> \<not> Strict p \<and> lef_Unlocked f"
  by (auto simp: DecideLogEmitter_def decideLogEmitterStrict_def split: log_event_rule_mode.splits)

lemma strict_implies_standard:
  "ld_Admit (decideLogEmitterStrict f) \<Longrightarrow> ld_Admit (DecideLogEmitter ReadProfileStandard f)"
  by (auto simp: strict_admit_iff standard_admit_iff rules_admit_def)

end
