(* ===== verification/Event_Filter.thy ===== *)
theory Event_Filter
  imports Abi_Registry Abi_Library Log_Decision
begin

text \<open>
  Event visibility on the JSON-RPC side: event signatures
  (\<^verbatim>\<open>internal/rbac/event_signatures.go\<close>), parameter rules on events (\<^verbatim>\<open>event_param_rules.go\<close>), the
  strict profile's indexed-self test (\<^verbatim>\<open>indexed_self.go\<close>) and the log filter
  (\<^verbatim>\<open>event_filter.go\<close>). The ABI decoder is the parameter of theory \<^verbatim>\<open>Abi_Library\<close>. A function
  whose source can panic on a bad index returns \<^verbatim>\<open>Inl\<close> there.
\<close>

section \<open>Event signatures\<close>

record event_input =
  ei_Name :: string
  ei_Type :: string
  ei_Indexed :: bool

record event_signature =
  es_Name :: string
  es_Signature :: string
  es_Topic0 :: string
  es_Inputs :: "event_input list"
  es_DefaultParamRules :: "param_rule list"

definition ExtractEventSignatures :: "abi_lib \<Rightarrow> string \<Rightarrow> event_signature list res" where
  "ExtractEventSignatures al abiJSON =
     (if abiJSON = '''' then Inl ''empty ABI''
      else case al_JSON al abiJSON of
        Inl e \<Rightarrow> Inl (''failed to parse ABI: '' @ e)
      | Inr parsedABI \<Rightarrow>
          Inr (map (\<lambda>event.
            \<lparr>es_Name = ev_Name event, es_Signature = ev_Sig event,
             es_Topic0 = ''0x'' @ encode_hex (al_Keccak256 al (ev_Sig event)),
             es_Inputs = map (\<lambda>inp. \<lparr>ei_Name = arg_Name inp, ei_Type = arg_TypeString inp, ei_Indexed = arg_Indexed inp\<rparr>)
                             (ev_Inputs event),
             es_DefaultParamRules =
               List.map_filter (\<lambda>(i, inp). if arg_TypeString inp = ''address''
                                           then Some \<lparr>pr_Index = int i, pr_MustBe = ''self''\<rparr> else None)
                 (enumerate 0 (ev_Inputs event))\<rparr>) (abi_Events parsedABI)))"

definition IsValidTopic0 :: "string \<Rightarrow> bool" where
  "IsValidTopic0 topic0 = (length topic0 = 66 \<and> has_prefix topic0 ''0x'' \<and> decode_hex (drop 2 topic0) \<noteq> None)"

definition ValidateParamRuleMustBe :: "string \<Rightarrow> string" where
  "ValidateParamRuleMustBe mustBe =
     (if mustBe = ''self'' then ''''
      else if \<not> has_prefix mustBe ''0x'' then ''must_be must be \"self\" or a 0x-prefixed hex value''
      else let hexPart = drop 2 mustBe in
        if hexPart = '''' then ''must_be hex value cannot be empty (just \"0x\")''
        else if odd (length hexPart) then ''must_be hex value must have even number of hex characters''
        else if 64 < length hexPart then ''must_be hex value too long (max 32 bytes / 64 hex chars)''
        else if decode_hex hexPart = None then ''must_be contains invalid hex characters''
        else '''')"

section \<open>Parameter rules on events\<close>

definition findEventByTopic0 :: "abi_lib \<Rightarrow> string \<Rightarrow> string \<Rightarrow> abi_event option" where
  "findEventByTopic0 al contractABI topic0 =
     (case al_JSON al contractABI of
        Inl _ \<Rightarrow> None
      | Inr parsed \<Rightarrow> find (\<lambda>ev. to_lower (''0x'' @ encode_hex (ev_ID ev)) = to_lower topic0) (abi_Events parsed))"

definition isHexValue :: "string \<Rightarrow> bool" where
  "isHexValue s = (4 \<le> length s \<and> has_prefix s ''0x'' \<and> decode_hex (drop 2 s) \<noteq> None)"

text \<open>\<^verbatim>\<open>(*big.Int).SetString(s, 16)\<close>: an optional sign and one or more hexadecimal digits.\<close>

fun hex_digits_val :: "nat \<Rightarrow> string \<Rightarrow> nat option" where
  "hex_digits_val acc [] = Some acc"
| "hex_digits_val acc (c # cs) =
     (case hex_val c of None \<Rightarrow> None | Some d \<Rightarrow> hex_digits_val (16 * acc + d) cs)"

definition big_hex :: "string \<Rightarrow> int option" where
  "big_hex s =
     (let (neg, ds) = (case s of [] \<Rightarrow> (False, []) | c # cs \<Rightarrow>
             if c = CHR ''-'' then (True, cs) else if c = CHR ''+'' then (False, cs) else (False, s))
      in if ds = [] then None
         else map_option (\<lambda>n. if neg then - int n else int n) (hex_digits_val 0 ds))"

text \<open>An \<^verbatim>\<open>int\<close> of the source is 64 bits wide and wraps.\<close>

definition go_int :: "int \<Rightarrow> int" where
  "go_int i = signed_take_bit 63 i"

record log_entry =
  le_Address :: string
  le_Topics :: "string list"
  le_Data :: string

definition topicMatchesAddr :: "string \<Rightarrow> string list \<Rightarrow> bool" where
  "topicMatchesAddr topic addrSet =
     (let t = to_lower topic in
      if length t \<noteq> 66 \<or> \<not> has_prefix t ''0x'' then False
      else if trim_zeros (take 24 (drop 2 t)) \<noteq> '''' then False
      else ''0x'' @ drop 26 t \<in> set addrSet)"

definition topicMatchesHexTyped :: "string \<Rightarrow> string \<Rightarrow> string \<Rightarrow> bool" where
  "topicMatchesHexTyped topic mustBe abiType =
     (let t = to_lower (trim_prefix topic ''0x''); m = to_lower (trim_prefix mustBe ''0x'') in
      if length t \<noteq> 64 then False
      else if abiType = ''address''
      then (if length m = 40 then trim_zeros (take 24 t) = '''' \<and> drop 24 t = m
            else if length m = 64 then t = m
            else False)
      else if has_prefix abiType ''uint''
      then (case (big_hex t, big_hex m) of
              (Some topicInt, Some mustBeInt) \<Rightarrow> topicInt = mustBeInt
            | _ \<Rightarrow> False)
      else if abiType = ''bool''
      then (let topicStripped = trim_left_zeros t; mustStripped = trim_left_zeros m in
            topicStripped = ''1'' \<and> mustStripped = ''1'' \<or> topicStripped = '''' \<and> mustStripped = '''')
      else if 64 < length m then False
      else t = replicate (64 - length m) CHR ''0'' @ m)"

definition topicMatchesHex :: "string \<Rightarrow> string \<Rightarrow> bool" where
  "topicMatchesHex topic mustBe = topicMatchesHexTyped topic mustBe ''''"

definition indexedTopicSlot :: "abi_event \<Rightarrow> nat \<Rightarrow> nat" where
  "indexedTopicSlot ev paramIndex = length (filter arg_Indexed (take paramIndex (ev_Inputs ev))) + 1"

definition compareDecodedValue :: "abi_lib \<Rightarrow> abi_value \<Rightarrow> string \<Rightarrow> bool" where
  "compareDecodedValue al decoded mustBe =
     (let m = to_lower (trim_prefix mustBe ''0x'') in
      case decoded of
        AbiAddress v \<Rightarrow>
          to_lower (drop 2 (al_Hex al v)) = m \<or> length m = 64 \<and> drop 24 m = to_lower (drop 2 (al_Hex al v))
      | AbiBigInt v \<Rightarrow> (case big_hex m of None \<Rightarrow> False | Some mustBeInt \<Rightarrow> v = mustBeInt)
      | AbiBool v \<Rightarrow>
          (let stripped = trim_left_zeros m in
           if stripped = ''1'' then v else if stripped = '''' then \<not> v else False)
      | AbiBytes32 v \<Rightarrow> encode_hex v = m
      | AbiOther _ \<Rightarrow> False)"

text \<open>
  The decoded value of a non-indexed parameter, which both data comparisons look up first: its
  position among the non-indexed parameters, after the data decodes against them.
\<close>

definition data_param :: "abi_lib \<Rightarrow> string \<Rightarrow> abi_event \<Rightarrow> nat \<Rightarrow> abi_value option" where
  "data_param al data ev paramIndex =
     (if data = '''' \<or> data = ''0x'' then None
      else case decode_hex (trim_prefix data ''0x'') of
        None \<Rightarrow> None
      | Some dataBytes \<Rightarrow>
          let nonIndexed = filter (\<lambda>i. \<not> arg_Indexed i) (ev_Inputs ev) in
          if length (ev_Inputs ev) \<le> paramIndex \<or> arg_Indexed (ev_Inputs ev ! paramIndex) then None
          else let nonIndexedABIIdx = length (filter (\<lambda>i. \<not> arg_Indexed i) (take paramIndex (ev_Inputs ev))) in
            (case al_Unpack al nonIndexed dataBytes of
               Inl _ \<Rightarrow> None
             | Inr values \<Rightarrow>
                 if length values \<le> nonIndexedABIIdx then None else Some (values ! nonIndexedABIIdx)))"

definition dataParamMatchesAddr :: "abi_lib \<Rightarrow> string \<Rightarrow> abi_event \<Rightarrow> nat \<Rightarrow> string list \<Rightarrow> bool" where
  "dataParamMatchesAddr al data ev paramIndex addrSet =
     (case data_param al data ev paramIndex of
        Some (AbiAddress addr) \<Rightarrow> to_lower (al_Hex al addr) \<in> set addrSet
      | _ \<Rightarrow> False)"

definition dataParamMatchesCustom :: "abi_lib \<Rightarrow> string \<Rightarrow> abi_event \<Rightarrow> nat \<Rightarrow> string \<Rightarrow> bool" where
  "dataParamMatchesCustom al data ev paramIndex mustBe =
     (case data_param al data ev paramIndex of
        Some v \<Rightarrow> compareDecodedValue al v mustBe
      | None \<Rightarrow> False)"

text \<open>
  Without a declaration for the event, a parameter is looked for at the topic after its index; the
  source checks only the upper bound, so a negative position is a panic.
\<close>

definition guessed_topic :: "log_entry \<Rightarrow> int \<Rightarrow> (string \<Rightarrow> bool) \<Rightarrow> bool res" where
  "guessed_topic entry paramIndex matches =
     (let topicIdx = go_int (paramIndex + 1) in
      if topicIdx < int (length (le_Topics entry))
      then (if topicIdx < 0 then Inl ''panic: index out of range''
            else Inr (matches (le_Topics entry ! nat topicIdx)))
      else Inr False)"

definition matchesParamSelf :: "abi_lib \<Rightarrow> log_entry \<Rightarrow> int \<Rightarrow> string list \<Rightarrow> abi_event option \<Rightarrow> bool res" where
  "matchesParamSelf al entry paramIndex addrSet parsedEvent =
     (case parsedEvent of
        None \<Rightarrow> guessed_topic entry paramIndex (\<lambda>topic. topicMatchesAddr topic addrSet)
      | Some ev \<Rightarrow>
          if paramIndex < 0 \<or> int (length (ev_Inputs ev)) \<le> paramIndex then Inr False
          else let i = nat paramIndex in
            if arg_Indexed (ev_Inputs ev ! i)
            then (let topicSlot = length (filter arg_Indexed (take i (ev_Inputs ev))) + 1 in
                  Inr (topicSlot < length (le_Topics entry) \<and> topicMatchesAddr (le_Topics entry ! topicSlot) addrSet))
            else Inr (dataParamMatchesAddr al (le_Data entry) ev i addrSet))"

definition matchesParamCustom :: "abi_lib \<Rightarrow> log_entry \<Rightarrow> int \<Rightarrow> string \<Rightarrow> abi_event option \<Rightarrow> bool res" where
  "matchesParamCustom al entry paramIndex mustBe parsedEvent =
     (case parsedEvent of
        None \<Rightarrow> guessed_topic entry paramIndex (\<lambda>topic. topicMatchesHex topic mustBe)
      | Some ev \<Rightarrow>
          if paramIndex < 0 \<or> int (length (ev_Inputs ev)) \<le> paramIndex then Inr False
          else let i = nat paramIndex in
            if arg_Indexed (ev_Inputs ev ! i)
            then (let topicSlot = indexedTopicSlot ev i in
                  Inr (topicSlot < length (le_Topics entry)
                       \<and> topicMatchesHexTyped (le_Topics entry ! topicSlot) mustBe (arg_TypeString (ev_Inputs ev ! i))))
            else Inr (dataParamMatchesCustom al (le_Data entry) ev i mustBe))"

fun match_param_rules ::
  "abi_lib \<Rightarrow> log_entry \<Rightarrow> string list \<Rightarrow> abi_event option \<Rightarrow> param_rule list \<Rightarrow> bool res" where
  "match_param_rules al entry viewerAddrs parsedEvent [] = Inr False"
| "match_param_rules al entry viewerAddrs parsedEvent (pr # prs) =
     (case (if pr_MustBe pr = ''self'' then matchesParamSelf al entry (pr_Index pr) viewerAddrs parsedEvent
            else if isHexValue (pr_MustBe pr) then matchesParamCustom al entry (pr_Index pr) (pr_MustBe pr) parsedEvent
            else Inr False) of
        Inl e \<Rightarrow> Inl e
      | Inr True \<Rightarrow> Inr True
      | Inr False \<Rightarrow> match_param_rules al entry viewerAddrs parsedEvent prs)"

definition MatchesEventParamRules ::
  "abi_lib \<Rightarrow> log_entry \<Rightarrow> param_rule list \<Rightarrow> string list \<Rightarrow> string \<Rightarrow> bool res" where
  "MatchesEventParamRules al log paramRules viewerAddrs abiJSON =
     (if paramRules = [] then Inr True
      else case le_Topics log of
        [] \<Rightarrow> Inr False
      | topic0 # _ \<Rightarrow>
          match_param_rules al log viewerAddrs
            (if abiJSON \<noteq> '''' then findEventByTopic0 al abiJSON topic0 else None) paramRules)"

section \<open>The strict profile's indexed-self test\<close>

text \<open>
  The matcher memoises parsed ABIs: per ABI text, nothing (unparseable) or the declared events grouped
  by topic0.
\<close>

record indexed_self_matcher =
  ism_parsed :: "(string \<times> (string \<times> abi_event list) list option) list"

definition NewIndexedSelfMatcher :: indexed_self_matcher where
  "NewIndexedSelfMatcher = \<lparr>ism_parsed = []\<rparr>"

definition dataDecodes :: "abi_lib \<Rightarrow> abi_argument list \<Rightarrow> string \<Rightarrow> bool" where
  "dataDecodes al nonIndexed data =
     (case decode_hex (trim_prefix (trim_prefix data ''0x'') ''0X'') of
        None \<Rightarrow> False
      | Some b \<Rightarrow>
          if nonIndexed = [] then b = []
          else (case al_Unpack al nonIndexed b of
                  Inl _ \<Rightarrow> False
                | Inr values \<Rightarrow>
                    (case al_Pack al nonIndexed values of Inl _ \<Rightarrow> False | Inr canonical \<Rightarrow> canonical = b)))"

fun indexed_topics :: "string list \<Rightarrow> (abi_argument \<times> string) list \<Rightarrow> bool \<Rightarrow> bool \<times> bool" where
  "indexed_topics linked [] named = (True, named)"
| "indexed_topics linked ((inp, raw) # rest) named =
     (let topic = to_lower raw in
      if length topic \<noteq> 66 \<or> \<not> has_prefix topic ''0x'' then (False, False)
      else if decode_hex (drop 2 topic) = None then (False, False)
      else if arg_Type inp \<noteq> AddressTy then indexed_topics linked rest named
      else if trim_zeros (take 24 (drop 2 topic)) \<noteq> '''' then (False, False)
      else indexed_topics linked rest (named \<or> ''0x'' @ drop 26 topic \<in> set linked))"

definition eventNamesLinked :: "abi_lib \<Rightarrow> abi_event \<Rightarrow> string list \<Rightarrow> string \<Rightarrow> string list \<Rightarrow> bool \<times> bool" where
  "eventNamesLinked al event topics data linked =
     (if ev_Anonymous event then (False, False)
      else let indexed = filter arg_Indexed (ev_Inputs event); nonIndexed = filter (\<lambda>i. \<not> arg_Indexed i) (ev_Inputs event) in
        if length topics \<noteq> 1 + length indexed then (False, False)
        else if \<not> dataDecodes al nonIndexed data then (False, False)
        else indexed_topics linked (zip indexed (tl topics)) False)"

definition group_events :: "abi_event list \<Rightarrow> (string \<times> abi_event list) list" where
  "group_events evs =
     fold (\<lambda>ev out. let i = ''0x'' @ encode_hex (ev_ID ev) in
             AList.update i ((case map_of out i of Some l \<Rightarrow> l | None \<Rightarrow> []) @ [ev]) out) evs []"

definition ism_parse ::
  "abi_lib \<Rightarrow> indexed_self_matcher \<Rightarrow> string \<Rightarrow> (string \<times> abi_event list) list option \<times> indexed_self_matcher" where
  "ism_parse al m contractABI =
     (case map_of (ism_parsed m) contractABI of
        Some p \<Rightarrow> (p, m)
      | None \<Rightarrow>
          let out = (case al_JSON al contractABI of Inl _ \<Rightarrow> None | Inr p \<Rightarrow> Some (group_events (abi_Events p)))
          in (out, m\<lparr>ism_parsed := AList.update contractABI out (ism_parsed m)\<rparr>))"

fun match_layouts ::
  "abi_lib \<Rightarrow> string list \<Rightarrow> string \<Rightarrow> string list \<Rightarrow> abi_event list \<Rightarrow> bool \<Rightarrow> bool" where
  "match_layouts al topics data linked [] foundLayout = foundLayout"
| "match_layouts al topics data linked (event # events) foundLayout =
     (let (fits, named) = eventNamesLinked al event topics data linked in
      if \<not> fits then match_layouts al topics data linked events foundLayout
      else if foundLayout \<or> \<not> named then False
      else match_layouts al topics data linked events True)"

definition ism_Match ::
  "abi_lib \<Rightarrow> indexed_self_matcher option \<Rightarrow> string \<Rightarrow> string list \<Rightarrow> string \<Rightarrow> string list
     \<Rightarrow> bool \<times> indexed_self_matcher option" where
  "ism_Match al m contractABI topics data linked =
     (case m of
        None \<Rightarrow> (False, None)
      | Some m \<Rightarrow>
          if contractABI = '''' \<or> topics = [] \<or> linked = [] then (False, Some m)
          else (case ism_parse al m contractABI of
                  (None, m') \<Rightarrow> (False, Some m')
                | (Some byTopic0, m') \<Rightarrow>
                    (match_layouts al topics data linked
                       (case map_of byTopic0 (to_lower (hd topics)) of Some l \<Rightarrow> l | None \<Rightarrow> []) False,
                     Some m')))"

section \<open>The log filter\<close>

text \<open>
  The ABI provider interface; \<^verbatim>\<open>ap_IsEventsAllowDynamicPayload\<close> is present when the provider also
  implements the optional interface.
\<close>

record abi_provider =
  ap_GetContractABI :: "string \<Rightarrow> string"
  ap_IsEventsAllowDynamicPayload :: "(string \<Rightarrow> bool) option"

record tx_visibility_context =
  tvc_ViewerDID :: string
  tvc_TxVisibility :: "(string \<times> string list) list"
  tvc_UnlockableContracts :: "(string \<times> bool) list"
  tvc_ParticipantTxHashes :: "(string \<times> bool) list"

text \<open>Reading a \<^verbatim>\<open>map[string]bool\<close>: absent keys read as false.\<close>

definition flag :: "(string \<times> bool) list \<Rightarrow> string \<Rightarrow> bool" where
  "flag m k = (map_of m k = Some True)"

definition log_entry_upd :: "string \<times> json \<Rightarrow> log_entry \<Rightarrow> log_entry option" where
  "log_entry_upd kv r =
     (case struct_field [''address'', ''topics'', ''data''] (fst kv) of
        None \<Rightarrow> Some r
      | Some f \<Rightarrow>
          if f = ''address'' then map_option (\<lambda>s. r\<lparr>le_Address := s\<rparr>) (json_string (le_Address r) (snd kv))
          else if f = ''topics'' then map_option (\<lambda>ts. r\<lparr>le_Topics := ts\<rparr>) (json_slice (json_string '''') (snd kv))
          else map_option (\<lambda>s. r\<lparr>le_Data := s\<rparr>) (json_string (le_Data r) (snd kv)))"

definition log_entry_of_json :: "json \<Rightarrow> log_entry option" where
  "log_entry_of_json = json_struct log_entry_upd \<lparr>le_Address = '''', le_Topics = [], le_Data = ''''\<rparr>"

definition log_tx_hash :: "json \<Rightarrow> string option" where
  "log_tx_hash =
     json_struct (\<lambda>kv h. if struct_field [''transactionHash''] (fst kv) = None then Some h else json_string h (snd kv)) ''''"

definition isViewerInVisibleTo :: "tx_visibility_context option \<Rightarrow> json \<Rightarrow> bool" where
  "isViewerInVisibleTo visCtx rawLog =
     (case visCtx of
        None \<Rightarrow> False
      | Some v \<Rightarrow>
          if tvc_ViewerDID v = '''' \<or> tvc_TxVisibility v = [] then False
          else (case log_tx_hash rawLog of
                  None \<Rightarrow> False
                | Some h \<Rightarrow>
                    if h = '''' then False
                    else (case map_of (tvc_TxVisibility v) (to_lower h) of
                            None \<Rightarrow> False
                          | Some dids \<Rightarrow> tvc_ViewerDID v \<in> set dids)))"

definition logTxIsParticipant :: "tx_visibility_context option \<Rightarrow> json \<Rightarrow> bool" where
  "logTxIsParticipant visCtx rawLog =
     (case visCtx of
        None \<Rightarrow> False
      | Some v \<Rightarrow>
          if tvc_ParticipantTxHashes v = [] then False
          else (case log_tx_hash rawLog of
                  None \<Rightarrow> False
                | Some h \<Rightarrow> if h = '''' then False else flag (tvc_ParticipantTxHashes v) (to_lower h)))"

definition eventTopic0Matches :: "string \<Rightarrow> event_rule list \<Rightarrow> bool" where
  "eventTopic0Matches topic0 rules = list_ex (\<lambda>rule. equal_fold (er_Topic0 rule) topic0) rules"

definition checkEventParamRules ::
  "abi_lib \<Rightarrow> log_entry \<Rightarrow> param_rule list \<Rightarrow> string list \<Rightarrow> string \<Rightarrow> abi_provider option \<Rightarrow> bool res" where
  "checkEventParamRules al entry paramRules addrSet contractAddr abiProvider =
     MatchesEventParamRules al entry paramRules addrSet
       (case abiProvider of None \<Rightarrow> '''' | Some p \<Rightarrow> ap_GetContractABI p contractAddr)"

fun eventAllowed ::
  "abi_lib \<Rightarrow> string \<Rightarrow> log_entry \<Rightarrow> event_rule list \<Rightarrow> string list \<Rightarrow> string \<Rightarrow> abi_provider option \<Rightarrow> bool res" where
  "eventAllowed al topic0 entry [] addrSet contractAddr abiProvider = Inr False"
| "eventAllowed al topic0 entry (rule # rules) addrSet contractAddr abiProvider =
     (if \<not> equal_fold (er_Topic0 rule) topic0 then eventAllowed al topic0 entry rules addrSet contractAddr abiProvider
      else if er_ParamRules rule = [] then Inr True
      else case checkEventParamRules al entry (er_ParamRules rule) addrSet contractAddr abiProvider of
             Inl e \<Rightarrow> Inl e
           | Inr True \<Rightarrow> Inr True
           | Inr False \<Rightarrow> eventAllowed al topic0 entry rules addrSet contractAddr abiProvider)"

fun isDynamicABIType :: "abi_type \<Rightarrow> bool" where
  "isDynamicABIType StringTy = True"
| "isDynamicABIType BytesTy = True"
| "isDynamicABIType SliceTy = True"
| "isDynamicABIType (ArrayTy el) = (case el of None \<Rightarrow> False | Some t \<Rightarrow> isDynamicABIType t)"
| "isDynamicABIType (TupleTy els) = list_ex (\<lambda>ft. case ft of None \<Rightarrow> False | Some t \<Rightarrow> isDynamicABIType t) els"
| "isDynamicABIType _ = False"

definition eventHasDynamicNonIndexedParam :: "abi_lib \<Rightarrow> string \<Rightarrow> string \<Rightarrow> bool" where
  "eventHasDynamicNonIndexedParam al contractABI topic0 =
     (if contractABI = '''' \<or> topic0 = '''' then False
      else case findEventByTopic0 al contractABI topic0 of
        None \<Rightarrow> False
      | Some ev \<Rightarrow> list_ex (\<lambda>inp. \<not> arg_Indexed inp \<and> isDynamicABIType (arg_Type inp)) (ev_Inputs ev))"

definition eventRulesGetRules :: "event_rules_field option \<Rightarrow> event_rule list" where
  "eventRulesGetRules f = (case f of None \<Rightarrow> [] | Some f \<Rightarrow> GetRules f)"

record admitted_log =
  al_Raw :: json
  al_Payload :: log_payload_policy

text \<open>
  The facts of one log, in the order the source resolves them; the indexed-self memo is threaded and a
  panic of a parameter rule ends the pass.
\<close>

definition rule_facts ::
  "abi_lib \<Rightarrow> contract_access option \<Rightarrow> log_entry \<Rightarrow> string list \<Rightarrow> string \<Rightarrow> abi_provider option
     \<Rightarrow> log_emitter_facts \<Rightarrow> log_emitter_facts res" where
  "rule_facts al access entry addrSet contractAddr abiProvider facts =
     (case access of
        None \<Rightarrow> Inr facts
      | Some a \<Rightarrow>
          if (case ca_EventRules a of None \<Rightarrow> False | Some f \<Rightarrow> IsWildcard f)
          then Inr (facts\<lparr>lef_Rules := LogEventRulesWildcard\<rparr>)
          else let rules = eventRulesGetRules (ca_EventRules a) in
            if rules = [] then Inr (facts\<lparr>lef_Rules := LogEventRulesDeny\<rparr>)
            else case le_Topics entry of
              [] \<Rightarrow> Inr (facts\<lparr>lef_Rules := LogEventRulesAllowlist\<rparr>)
            | topic # _ \<Rightarrow>
                let topic0 = to_lower topic in
                (case eventAllowed al topic0 entry rules addrSet contractAddr abiProvider of
                   Inl e \<Rightarrow> Inl e
                 | Inr ok \<Rightarrow>
                     Inr (facts\<lparr>lef_Rules := LogEventRulesAllowlist, lef_EventAllowed := ok,
                                lef_Topic0Allowlisted := eventTopic0Matches topic0 rules\<rparr>)))"

definition log_facts ::
  "abi_lib \<Rightarrow> read_profile \<Rightarrow> effective_permissions \<Rightarrow> string list \<Rightarrow> abi_provider option
     \<Rightarrow> tx_visibility_context option \<Rightarrow> (string \<times> bool) list \<Rightarrow> indexed_self_matcher option \<Rightarrow> json \<Rightarrow> log_entry
     \<Rightarrow> log_emitter_facts res \<times> indexed_self_matcher option" where
  "log_facts al profile perms addrSet abiProvider visCtx isAdminByContract selfMatcher rawLog entry =
     (let contractAddr = to_lower (le_Address entry);
          access = GetContractAccess perms contractAddr;
          contractABI = (case abiProvider of None \<Rightarrow> '''' | Some p \<Rightarrow> ap_GetContractABI p contractAddr);
          allowDynamic = (case abiProvider of
                            None \<Rightarrow> False
                          | Some p \<Rightarrow> (case ap_IsEventsAllowDynamicPayload p of None \<Rightarrow> False | Some f \<Rightarrow> f contractAddr));
          (indexedSelf, selfMatcher) =
            (if Strict profile then ism_Match al selfMatcher contractABI (le_Topics entry) (le_Data entry) addrSet
             else (False, selfMatcher));
          facts = \<lparr>lef_IsAdmin = flag isAdminByContract contractAddr,
                   lef_Unlocked = (case visCtx of None \<Rightarrow> False | Some v \<Rightarrow> flag (tvc_UnlockableContracts v) contractAddr)
                                  \<and> isViewerInVisibleTo visCtx rawLog,
                   lef_HasGrant = access \<noteq> None,
                   lef_ABIResolvable = (case abiProvider of None \<Rightarrow> True | Some _ \<Rightarrow> contractABI \<noteq> ''''),
                   lef_DynamicPayloadDropped =
                     contractABI \<noteq> '''' \<and> le_Topics entry \<noteq> [] \<and> \<not> allowDynamic
                     \<and> eventHasDynamicNonIndexedParam al contractABI (hd (le_Topics entry)),
                   lef_IsParticipant = logTxIsParticipant visCtx rawLog,
                   lef_InVisibleTo = isViewerInVisibleTo visCtx rawLog,
                   lef_Rules = LogEventRulesDeny,
                   lef_HasTopic0 = le_Topics entry \<noteq> [],
                   lef_EventAllowed = False,
                   lef_Topic0Allowlisted = False,
                   lef_IndexedSelf = indexedSelf\<rparr>
      in (rule_facts al access entry addrSet contractAddr abiProvider facts, selfMatcher))"

fun filter_logs ::
  "abi_lib \<Rightarrow> read_profile \<Rightarrow> effective_permissions \<Rightarrow> string list \<Rightarrow> abi_provider option
     \<Rightarrow> tx_visibility_context option \<Rightarrow> (string \<times> bool) list \<Rightarrow> indexed_self_matcher option \<Rightarrow> json list
     \<Rightarrow> admitted_log list res" where
  "filter_logs al profile perms addrSet abiProvider visCtx isAdminByContract selfMatcher [] = Inr []"
| "filter_logs al profile perms addrSet abiProvider visCtx isAdminByContract selfMatcher (rawLog # logs) =
     (case log_entry_of_json rawLog of
        None \<Rightarrow> filter_logs al profile perms addrSet abiProvider visCtx isAdminByContract selfMatcher logs
      | Some entry \<Rightarrow>
          (case log_facts al profile perms addrSet abiProvider visCtx isAdminByContract selfMatcher rawLog entry of
             (Inl e, _) \<Rightarrow> Inl e
           | (Inr facts, selfMatcher') \<Rightarrow>
               (case filter_logs al profile perms addrSet abiProvider visCtx isAdminByContract selfMatcher' logs of
                  Inl e \<Rightarrow> Inl e
                | Inr filtered \<Rightarrow>
                    let d = DecideLogEmitter profile facts in
                    Inr (if ld_Admit d then \<lparr>al_Raw = rawLog, al_Payload = ld_Payload d\<rparr> # filtered else filtered))))"

definition FilterEventLogsDetailed ::
  "abi_lib \<Rightarrow> read_profile \<Rightarrow> json list \<Rightarrow> effective_permissions option \<Rightarrow> string list \<Rightarrow> abi_provider option
     \<Rightarrow> tx_visibility_context option \<Rightarrow> (string \<times> bool) list \<Rightarrow> admitted_log list res" where
  "FilterEventLogsDetailed al profile logs perms userAddresses abiProvider visCtx isAdminByContract =
     (case perms of
        None \<Rightarrow> Inr []
      | Some perms \<Rightarrow>
          if logs = [] then Inr []
          else filter_logs al profile perms (map to_lower userAddresses) abiProvider visCtx isAdminByContract
                 (if Strict profile then Some NewIndexedSelfMatcher else None) logs)"

definition FilterEventLogs ::
  "abi_lib \<Rightarrow> read_profile \<Rightarrow> json list \<Rightarrow> effective_permissions option \<Rightarrow> string list \<Rightarrow> abi_provider option
     \<Rightarrow> tx_visibility_context option \<Rightarrow> (string \<times> bool) list \<Rightarrow> json list res" where
  "FilterEventLogs al profile logs perms userAddresses abiProvider visCtx isAdminByContract =
     (if logs = [] then Inr logs
      else map_sum id (map al_Raw)
             (FilterEventLogsDetailed al profile logs perms userAddresses abiProvider visCtx isAdminByContract))"

section \<open>Lemmas\<close>

subsection \<open>The indexed-self test\<close>

lemma match_layouts_iff:
  "match_layouts al topics data linked evs found \<longleftrightarrow>
     (let fit = filter (\<lambda>e. fst (eventNamesLinked al e topics data linked)) evs in
      (\<forall>e \<in> set fit. snd (eventNamesLinked al e topics data linked)) \<and> length fit + (if found then 1 else 0) = 1)"
proof (induction evs arbitrary: found)
  case (Cons e evs)
  show ?case
    by (cases "eventNamesLinked al e topics data linked") (auto simp: Cons.IH Let_def)
qed auto

lemma indexed_topics_fits:
  "fst (indexed_topics linked ps named) \<Longrightarrow>
     snd (indexed_topics linked ps named) \<longleftrightarrow>
       named \<or> (\<exists>(inp, raw) \<in> set ps. arg_Type inp = AddressTy \<and> topicMatchesAddr raw linked)"
proof (induction linked ps named rule: indexed_topics.induct)
  case (2 linked inp raw rest named)
  then show ?case by (auto simp: Let_def topicMatchesAddr_def split: if_splits)
qed simp

lemma lookup_group_events:
  "map_of (group_events evs) i =
     (let l = filter (\<lambda>ev. ''0x'' @ encode_hex (ev_ID ev) = i) evs in if l = [] then None else Some l)"
proof -
  let ?id = "\<lambda>ev. ''0x'' @ encode_hex (ev_ID ev)"
  have "(case map_of (fold (\<lambda>ev out. let i = ?id ev in
             AList.update i ((case map_of out i of Some l \<Rightarrow> l | None \<Rightarrow> []) @ [ev]) out) evs out) i of Some l \<Rightarrow> l | None \<Rightarrow> [])
      = (case map_of out i of Some l \<Rightarrow> l | None \<Rightarrow> []) @ filter (\<lambda>ev. ?id ev = i) evs" for out
    by (induction evs arbitrary: out) (auto simp: Let_def update_conv' split: option.splits)
  note this [of "[]"]
  moreover have "map_of (fold (\<lambda>ev out. let i = ?id ev in
             AList.update i ((case map_of out i of Some l \<Rightarrow> l | None \<Rightarrow> []) @ [ev]) out) evs out) i \<noteq> Some []"
    if "map_of out i \<noteq> Some []" for out
    using that by (induction evs arbitrary: out) (auto simp: Let_def update_conv')
  note this [of "[]"]
  ultimately show ?thesis by (auto simp: group_events_def Let_def split: option.splits)
qed

end
