(* ===== verification/Visible_To.thy ===== *)
theory Visible_To
  imports Org_Context Event_Filter
begin

text \<open>
  The per-contract visibleTo unlock (\<^verbatim>\<open>internal/rbac/visibleto_unlock.go\<close>) and the store-backed ABI
  provider of the JSON-RPC layer (\<^verbatim>\<open>internal/server/event_log_filter.go\<close>).
\<close>

section \<open>Unlock eligibility\<close>

record unlock_eligibility =
  ue_orgAdmin :: bool
  ue_grantedContractIDs :: "string list"

definition not_eligible :: unlock_eligibility where
  "not_eligible = \<lparr>ue_orgAdmin = False, ue_grantedContractIDs = []\<rparr>"

definition ue_covers :: "unlock_eligibility \<Rightarrow> contract \<Rightarrow> bool" where
  "ue_covers e c = (ue_orgAdmin e \<or> con_ID c \<in> set (ue_grantedContractIDs e))"

text \<open>The loop over the memberships: an org-admin group of the organization ends it.\<close>

fun eligible_groups :: "string \<Rightarrow> membership_with_details list \<Rightarrow> string list option" where
  "eligible_groups orgID [] = Some []"
| "eligible_groups orgID (m # ms) =
     (let g = mwd_Group m in
      if grp_OrgID g \<noteq> orgID then eligible_groups orgID ms
      else if grp_IsOrgAdmin g then None
      else if grp_IsSystem g \<or> grp_ID g = DefaultGroupID then eligible_groups orgID ms
      else map_option (\<lambda>ids. grp_ID g # ids) (eligible_groups orgID ms))"

definition loadUnlockEligibility :: "store \<Rightarrow> string \<Rightarrow> string \<Rightarrow> unlock_eligibility" where
  "loadUnlockEligibility st userID orgID =
     (case st_ListUserMembershipsInOrg st userID orgID of
        Inl _ \<Rightarrow> not_eligible
      | Inr memberships \<Rightarrow>
          (case eligible_groups orgID memberships of
             None \<Rightarrow> \<lparr>ue_orgAdmin = True, ue_grantedContractIDs = []\<rparr>
           | Some groupIDs \<Rightarrow>
               if groupIDs = [] then not_eligible
               else (case st_ListContractGrantsBatch st groupIDs of
                       Inl _ \<Rightarrow> not_eligible
                     | Inr grants \<Rightarrow>
                         \<lparr>ue_orgAdmin = False,
                          ue_grantedContractIDs =
                            filter (\<lambda>i. i \<noteq> '''')
                              (concat (map (\<lambda>gid. case map_of grants gid of None \<Rightarrow> [] | Some gs \<Rightarrow> map cg_ContractID gs)
                                           groupIDs))\<rparr>)))"

text \<open>
  A nil access controller and a controller without a store behave alike; both are \<^verbatim>\<open>None\<close> here.
\<close>

definition IsViewerEligibleForVisibleToUnlock :: "string option \<Rightarrow> store option \<Rightarrow> string \<Rightarrow> string \<Rightarrow> bool" where
  "IsViewerEligibleForVisibleToUnlock viewscope access viewerDID contractAddress =
     (case access of
        None \<Rightarrow> False
      | Some st \<Rightarrow>
          if viewerDID = '''' \<or> contractAddress = '''' then False
          else if viewscope = Some '''' then False
          else (case st_GetContractByAddressGlobal st (to_lower contractAddress) of
                  Inr (Some c) \<Rightarrow>
                    if con_OrgID c = '''' then False
                    else if (case viewscope of None \<Rightarrow> False | Some scope \<Rightarrow> con_OrgID c \<noteq> scope) then False
                    else (case st_GetUserByExternalID st viewerDID of
                            Inr (Some usr) \<Rightarrow> ue_covers (loadUnlockEligibility st (usr_ID usr) (con_OrgID c)) c
                          | _ \<Rightarrow> False)
                | _ \<Rightarrow> False))"

fun flagged_contracts ::
  "string option \<Rightarrow> store \<Rightarrow> string list \<Rightarrow> string list \<Rightarrow> (string \<times> contract) list \<Rightarrow> (string \<times> contract) list" where
  "flagged_contracts viewscope st [] seen flagged = flagged"
| "flagged_contracts viewscope st (a # as) seen flagged =
     (let addr = to_lower a in
      if addr = '''' then flagged_contracts viewscope st as seen flagged
      else if addr \<in> set seen then flagged_contracts viewscope st as seen flagged
      else flagged_contracts viewscope st as (addr # seen)
             (case st_GetContractByAddressGlobal st addr of
                Inr (Some c) \<Rightarrow>
                  if \<not> con_AllowVisibleToUnlock c \<or> con_OrgID c = '''' then flagged
                  else if (case viewscope of None \<Rightarrow> False | Some scope \<Rightarrow> con_OrgID c \<noteq> scope) then flagged
                  else AList.update addr c flagged
              | _ \<Rightarrow> flagged))"

fun covered_contracts ::
  "store \<Rightarrow> string \<Rightarrow> (string \<times> contract) list \<Rightarrow> (string \<times> unlock_eligibility) list \<Rightarrow> (string \<times> bool) list
     \<Rightarrow> (string \<times> bool) list" where
  "covered_contracts st userID [] byOrg out = out"
| "covered_contracts st userID ((addr, c) # rest) byOrg out =
     (let (e, byOrg) = (case map_of byOrg (con_OrgID c) of
                          Some e \<Rightarrow> (e, byOrg)
                        | None \<Rightarrow> (let e = loadUnlockEligibility st userID (con_OrgID c)
                                  in (e, AList.update (con_OrgID c) e byOrg)))
      in covered_contracts st userID rest byOrg (if ue_covers e c then AList.update addr True out else out))"

definition UnlockableContracts ::
  "string option \<Rightarrow> store option \<Rightarrow> string \<Rightarrow> string list \<Rightarrow> (string \<times> bool) list" where
  "UnlockableContracts viewscope access viewerDID contractAddrs =
     (case access of
        None \<Rightarrow> []
      | Some st \<Rightarrow>
          if viewerDID = '''' \<or> contractAddrs = [] then []
          else if viewscope = Some '''' then []
          else let flagged = flagged_contracts viewscope st contractAddrs [] [] in
            if flagged = [] then []
            else (case st_GetUserByExternalID st viewerDID of
                    Inr (Some usr) \<Rightarrow> covered_contracts st (usr_ID usr) flagged [] []
                  | _ \<Rightarrow> []))"

section \<open>The store-backed ABI provider\<close>

record store_abi_provider =
  sap_cache :: "(string \<times> string) list"
  sap_dynamicPayloadCache :: "(string \<times> bool) list"

definition newStoreABIProvider :: store_abi_provider where
  "newStoreABIProvider = \<lparr>sap_cache = [], sap_dynamicPayloadCache = []\<rparr>"

definition sap_GetContractABI :: "store \<Rightarrow> store_abi_provider \<Rightarrow> string \<Rightarrow> string \<times> store_abi_provider" where
  "sap_GetContractABI st p address =
     (let addr = to_lower address in
      case map_of (sap_cache p) addr of
        Some abi \<Rightarrow> (abi, p)
      | None \<Rightarrow>
          (case st_GetContractByAddressGlobal st addr of
             Inr (Some c) \<Rightarrow>
               (let abi = ResolveContractABI (Some c) in
                (abi, p\<lparr>sap_cache := AList.update addr abi (sap_cache p),
                        sap_dynamicPayloadCache := AList.update addr (con_EventsAllowDynamicPayload c) (sap_dynamicPayloadCache p)\<rparr>))
           | _ \<Rightarrow> ('''', p\<lparr>sap_cache := AList.update addr '''' (sap_cache p),
                           sap_dynamicPayloadCache := AList.update addr False (sap_dynamicPayloadCache p)\<rparr>)))"

definition sap_IsEventsAllowDynamicPayload :: "store \<Rightarrow> store_abi_provider \<Rightarrow> string \<Rightarrow> bool \<times> store_abi_provider" where
  "sap_IsEventsAllowDynamicPayload st p address =
     (let addr = to_lower address;
          p = (if map_of (sap_cache p) addr = None then snd (sap_GetContractABI st p addr) else p)
      in (flag (sap_dynamicPayloadCache p) addr, p))"

text \<open>The contract an address unlocks, before the viewer is considered.\<close>

definition unlock_candidate :: "string option \<Rightarrow> store \<Rightarrow> string \<Rightarrow> contract option" where
  "unlock_candidate viewscope st addr =
     (case st_GetContractByAddressGlobal st addr of
        Inr (Some c) \<Rightarrow>
          if con_AllowVisibleToUnlock c \<and> con_OrgID c \<noteq> '''' \<and> (viewscope = None \<or> viewscope = Some (con_OrgID c))
          then Some c else None
      | _ \<Rightarrow> None)"

lemma flagged_step:
  "(case st_GetContractByAddressGlobal st addr of
      Inr (Some c) \<Rightarrow>
        if \<not> con_AllowVisibleToUnlock c \<or> con_OrgID c = '''' then fl
        else if (case viewscope of None \<Rightarrow> False | Some scope \<Rightarrow> con_OrgID c \<noteq> scope) then fl
        else AList.update addr c fl
    | _ \<Rightarrow> fl) =
   (case unlock_candidate viewscope st addr of None \<Rightarrow> fl | Some c \<Rightarrow> AList.update addr c fl)"
  by (auto simp: unlock_candidate_def split: sum.splits option.splits)

lemma flagged_contracts_lookup:
  assumes "map_of fl = (\<lambda>a. if a \<in> set seen then unlock_candidate viewscope st a else None)"
    and "'''' \<notin> set seen"
  shows "map_of (flagged_contracts viewscope st as seen fl) a =
           (if a \<noteq> '''' \<and> a \<in> set seen \<union> to_lower ` set as then unlock_candidate viewscope st a else None)"
  using assms
proof (induction as arbitrary: seen fl)
  case Nil
  then show ?case by auto
next
  case (Cons b as)
  show ?case
  proof (cases "to_lower b = '''' \<or> to_lower b \<in> set seen")
    case True
    then show ?thesis using Cons by (auto simp: Let_def)
  next
    case False
    let ?fl = "case unlock_candidate viewscope st (to_lower b) of None \<Rightarrow> fl | Some c \<Rightarrow> AList.update (to_lower b) c fl"
    have "map_of ?fl = (\<lambda>a. if a \<in> set (to_lower b # seen) then unlock_candidate viewscope st a else None)"
      using False Cons.prems(1) by (cases "unlock_candidate viewscope st (to_lower b)") (auto simp: update_conv' fun_eq_iff)
    moreover have "'''' \<notin> set (to_lower b # seen)"
      using False Cons.prems(2) by auto
    ultimately have "map_of (flagged_contracts viewscope st as (to_lower b # seen) ?fl) a =
        (if a \<noteq> '''' \<and> a \<in> set (to_lower b # seen) \<union> to_lower ` set as then unlock_candidate viewscope st a else None)"
      by (rule Cons.IH)
    then show ?thesis using False by (simp add: Let_def flagged_step)
  qed
qed

lemma flagged_contracts_distinct:
  "distinct (map fst fl) \<Longrightarrow> distinct (map fst (flagged_contracts viewscope st as seen fl))"
proof (induction as arbitrary: seen fl)
  case (Cons b as)
  then show ?case
    by (cases "unlock_candidate viewscope st (to_lower b)") (simp_all add: Let_def flagged_step distinct_update)
qed simp

lemma flag_update [simp]: "flag (AList.update k True m) a = (a = k \<or> flag m a)"
  by (auto simp: flag_def update_conv' split: option.splits)

definition org_cache_ok :: "store \<Rightarrow> string \<Rightarrow> (string \<times> unlock_eligibility) list \<Rightarrow> bool" where
  "org_cache_ok st uid byOrg = (\<forall>oid. map_of byOrg oid \<in> {None, Some (loadUnlockEligibility st uid oid)})"

lemma covered_contracts_flag:
  assumes "distinct (map fst fl)"
    and "org_cache_ok st uid byOrg"
  shows "flag (covered_contracts st uid fl byOrg out) a =
           (flag out a \<or> (\<exists>c. map_of fl a = Some c \<and> ue_covers (loadUnlockEligibility st uid (con_OrgID c)) c))"
  using assms
proof (induction fl arbitrary: byOrg out)
  case (Cons p fl)
  obtain b c where p: "p = (b, c)" by (cases p)
  have b: "map_of fl b = None"
    using Cons.prems(1) p by (auto simp: map_of_eq_None_iff)
  let ?e = "loadUnlockEligibility st uid (con_OrgID c)"
  let ?out = "if ue_covers ?e c then AList.update b True out else out"
  obtain byOrg' where step: "covered_contracts st uid (p # fl) byOrg out = covered_contracts st uid fl byOrg' ?out"
    and inv: "org_cache_ok st uid byOrg'"
  proof (cases "map_of byOrg (con_OrgID c)")
    case None
    have "org_cache_ok st uid (AList.update (con_OrgID c) ?e byOrg)"
      using Cons.prems(2) by (simp add: org_cache_ok_def update_conv')
    with None p show ?thesis by (intro that [of "AList.update (con_OrgID c) ?e byOrg"]) (simp_all add: Let_def)
  next
    case (Some e)
    then have "e = ?e" using Cons.prems(2) by (force simp: org_cache_ok_def dest: spec [of _ "con_OrgID c"])
    with Some p Cons.prems(2) show ?thesis by (intro that [of byOrg]) simp_all
  qed
  have "distinct (map fst fl)" using Cons.prems(1) by simp
  from Cons.IH [OF this inv, of ?out]
  have "flag (covered_contracts st uid (p # fl) byOrg out) a =
     (flag ?out a \<or> (\<exists>c. map_of fl a = Some c \<and> ue_covers (loadUnlockEligibility st uid (con_OrgID c)) c))"
    unfolding step .
  then show ?case using b by (cases "a = b") (simp_all add: p)
qed simp

text \<open>The candidate map names exactly the listed addresses whose contract can be unlocked.\<close>

lemma flagged_contracts_candidates:
  "map_of (flagged_contracts viewscope st as [] []) a =
     (if a \<noteq> '''' \<and> a \<in> to_lower ` set as then unlock_candidate viewscope st a else None)"
  using flagged_contracts_lookup [of "[]" "[]" viewscope st as a] by simp

lemma eligible_by_candidate:
  assumes "st_GetContractByAddressGlobal st (to_lower a) = Inr (Some c)" "con_AllowVisibleToUnlock c"
  shows "IsViewerEligibleForVisibleToUnlock viewscope (Some st) did a =
     (did \<noteq> '''' \<and> a \<noteq> '''' \<and> viewscope \<noteq> Some '''' \<and> unlock_candidate viewscope st (to_lower a) = Some c \<and>
      (\<exists>usr. st_GetUserByExternalID st did = Inr (Some usr) \<and> ue_covers (loadUnlockEligibility st (usr_ID usr) (con_OrgID c)) c))"
  using assms
  by (auto simp: IsViewerEligibleForVisibleToUnlock_def unlock_candidate_def split: sum.splits option.splits if_splits)

lemma UnlockableContracts_flag:
  "flag (UnlockableContracts viewscope (Some st) did addrs) a \<longleftrightarrow>
     did \<noteq> '''' \<and> addrs \<noteq> [] \<and> viewscope \<noteq> Some '''' \<and>
     (\<exists>usr. st_GetUserByExternalID st did = Inr (Some usr) \<and>
        (\<exists>c. map_of (flagged_contracts viewscope st addrs [] []) a = Some c \<and>
             ue_covers (loadUnlockEligibility st (usr_ID usr) (con_OrgID c)) c))"
proof -
  have empty: "\<not> flag [] a" by (simp add: flag_def)
  have cov: "flag (covered_contracts st uid (flagged_contracts viewscope st addrs [] []) [] []) a \<longleftrightarrow>
      (\<exists>c. map_of (flagged_contracts viewscope st addrs [] []) a = Some c \<and>
           ue_covers (loadUnlockEligibility st uid (con_OrgID c)) c)" for uid
    using empty by (subst covered_contracts_flag) (simp_all add: flagged_contracts_distinct org_cache_ok_def)
  show ?thesis
    using empty cov by (auto simp: UnlockableContracts_def Let_def split: sum.splits option.splits)
qed

text \<open>
  C25. The batch that both the RPC and the explorer use to find the contracts a visibleTo entry unlocks for a
  viewer agrees, address by address, with the single-contract eligibility check: a lower-case address is in
  the batch exactly when it was asked for, its contract carries the unlock flag, and the viewer is eligible
  on it on its own, whatever the other addresses of the batch, their order and the per-organization cache.
\<close>

theorem unlock_batch_pointwise:
  "flag (UnlockableContracts viewscope access did addrs) a \<longleftrightarrow>
     a \<in> to_lower ` set addrs \<and> IsViewerEligibleForVisibleToUnlock viewscope access did a \<and>
     (\<exists>st c. access = Some st \<and> st_GetContractByAddressGlobal st a = Inr (Some c) \<and> con_AllowVisibleToUnlock c)"
proof (cases "\<exists>st c. access = Some st \<and> st_GetContractByAddressGlobal st a = Inr (Some c) \<and> con_AllowVisibleToUnlock c
                  \<and> a \<in> to_lower ` set addrs")
  case False
  have "\<not> flag (UnlockableContracts viewscope access did addrs) a"
  proof (cases access)
    case (Some st)
    with False have "map_of (flagged_contracts viewscope st addrs [] []) a = None"
      by (auto simp: flagged_contracts_candidates unlock_candidate_def split: sum.splits option.splits)
    with Some show ?thesis by (simp add: UnlockableContracts_flag)
  qed (simp add: UnlockableContracts_def flag_def)
  with False show ?thesis by blast
next
  case True
  then obtain st c where st: "access = Some st" "st_GetContractByAddressGlobal st a = Inr (Some c)"
    "con_AllowVisibleToUnlock c" "a \<in> to_lower ` set addrs" by blast
  then have low: "to_lower a = a" and ne: "addrs \<noteq> []" by auto
  have cand: "map_of (flagged_contracts viewscope st addrs [] []) a = (if a \<noteq> '''' then unlock_candidate viewscope st a else None)"
    using st(4) by (simp add: flagged_contracts_candidates)
  have uc: "unlock_candidate viewscope st a = None \<or> unlock_candidate viewscope st a = Some c"
    using st(2) by (simp add: unlock_candidate_def)
  have "flag (UnlockableContracts viewscope (Some st) did addrs) a \<longleftrightarrow>
          IsViewerEligibleForVisibleToUnlock viewscope (Some st) did a"
    unfolding UnlockableContracts_flag eligible_by_candidate [of st a c viewscope did, unfolded low, OF st(2,3)] cand
    using uc ne by auto
  then show ?thesis using st by simp
qed

section \<open>The provider refines a pure lookup\<close>

definition stored_abi :: "store \<Rightarrow> string \<Rightarrow> string" where
  "stored_abi st address =
     (case st_GetContractByAddressGlobal st (to_lower address) of Inr (Some c) \<Rightarrow> ResolveContractABI (Some c) | _ \<Rightarrow> '''')"

definition stored_opt_out :: "store \<Rightarrow> string \<Rightarrow> bool" where
  "stored_opt_out st address =
     (case st_GetContractByAddressGlobal st (to_lower address) of Inr (Some c) \<Rightarrow> con_EventsAllowDynamicPayload c | _ \<Rightarrow> False)"

text \<open>
  The contract of a request-scoped provider: its answers are those of fixed functions, whatever was asked
  before, and the two reads agree on the row.
\<close>

locale request_provider =
  fixes get_abi :: "'p \<Rightarrow> string \<Rightarrow> string \<times> 'p"
    and get_opt_out :: "'p \<Rightarrow> string \<Rightarrow> bool \<times> 'p"
    and coherent :: "'p \<Rightarrow> bool"
    and abi_of :: "string \<Rightarrow> string"
    and opt_out_of :: "string \<Rightarrow> bool"
  assumes get_abi: "coherent p \<Longrightarrow> fst (get_abi p a) = abi_of a \<and> coherent (snd (get_abi p a))"
    and get_opt_out: "coherent p \<Longrightarrow> fst (get_opt_out p a) = opt_out_of a \<and> coherent (snd (get_opt_out p a))"
begin

fun answers :: "'p \<Rightarrow> (bool \<times> string) list \<Rightarrow> (string + bool) list" where
  "answers p [] = []"
| "answers p ((True, a) # qs) = Inl (fst (get_abi p a)) # answers (snd (get_abi p a)) qs"
| "answers p ((False, a) # qs) = Inr (fst (get_opt_out p a)) # answers (snd (get_opt_out p a)) qs"

lemma answers_pure:
  "coherent p \<Longrightarrow> answers p qs = map (\<lambda>(b, a). if b then Inl (abi_of a) else Inr (opt_out_of a)) qs"
  by (induction p qs rule: answers.induct) (simp_all add: get_abi get_opt_out)

end

definition provider_coherent :: "store \<Rightarrow> store_abi_provider \<Rightarrow> bool" where
  "provider_coherent st p \<longleftrightarrow>
     (\<forall>a. map_of (sap_cache p) a \<noteq> None \<longrightarrow>
        to_lower a = a \<and> map_of (sap_cache p) a = Some (stored_abi st a) \<and>
        flag (sap_dynamicPayloadCache p) a = stored_opt_out st a)"

lemma flag_update_val: "flag (AList.update k v m) a = (if a = k then v else flag m a)"
  by (auto simp: flag_def update_conv' split: option.splits)

lemma stored_to_lower [simp]: "stored_abi st (to_lower a) = stored_abi st a" "stored_opt_out st (to_lower a) = stored_opt_out st a"
  by (simp_all add: stored_abi_def stored_opt_out_def)

lemma sap_GetContractABI_eq:
  "sap_GetContractABI st p a =
     (case map_of (sap_cache p) (to_lower a) of
        Some abi \<Rightarrow> (abi, p)
      | None \<Rightarrow> (stored_abi st a,
                 p\<lparr>sap_cache := AList.update (to_lower a) (stored_abi st a) (sap_cache p),
                   sap_dynamicPayloadCache := AList.update (to_lower a) (stored_opt_out st a) (sap_dynamicPayloadCache p)\<rparr>))"
  by (auto simp: sap_GetContractABI_def stored_abi_def stored_opt_out_def Let_def split: option.splits sum.splits)

lemma sap_GetContractABI_step:
  assumes "provider_coherent st p"
  shows "fst (sap_GetContractABI st p a) = stored_abi st a" "provider_coherent st (snd (sap_GetContractABI st p a))"
    "map_of (sap_cache (snd (sap_GetContractABI st p a))) (to_lower a) = Some (stored_abi st a)"
proof -
  have hit: "map_of (sap_cache p) (to_lower a) = Some (stored_abi st a)" if "map_of (sap_cache p) (to_lower a) \<noteq> None"
    using assms that unfolding provider_coherent_def by force
  show "fst (sap_GetContractABI st p a) = stored_abi st a"
    "map_of (sap_cache (snd (sap_GetContractABI st p a))) (to_lower a) = Some (stored_abi st a)"
    using hit by (auto simp: sap_GetContractABI_eq update_conv' split: option.splits)
  show "provider_coherent st (snd (sap_GetContractABI st p a))"
    using assms by (cases "map_of (sap_cache p) (to_lower a)")
      (simp_all add: sap_GetContractABI_eq provider_coherent_def update_conv' flag_update_val)
qed

lemma sap_IsEventsAllowDynamicPayload_step:
  assumes "provider_coherent st p"
  shows "fst (sap_IsEventsAllowDynamicPayload st p a) = stored_opt_out st a"
    "provider_coherent st (snd (sap_IsEventsAllowDynamicPayload st p a))"
proof -
  let ?q = "if map_of (sap_cache p) (to_lower a) = None then snd (sap_GetContractABI st p (to_lower a)) else p"
  have q: "provider_coherent st ?q" "map_of (sap_cache ?q) (to_lower a) \<noteq> None"
    using assms sap_GetContractABI_step [OF assms, of "to_lower a"] by auto
  then have "flag (sap_dynamicPayloadCache ?q) (to_lower a) = stored_opt_out st a"
    unfolding provider_coherent_def by (metis stored_to_lower(2))
  then show "fst (sap_IsEventsAllowDynamicPayload st p a) = stored_opt_out st a"
    by (simp add: sap_IsEventsAllowDynamicPayload_def Let_def)
  show "provider_coherent st (snd (sap_IsEventsAllowDynamicPayload st p a))"
    using q(1) by (simp add: sap_IsEventsAllowDynamicPayload_def Let_def)
qed

interpretation sap: request_provider "sap_GetContractABI st" "sap_IsEventsAllowDynamicPayload st" "provider_coherent st"
  "stored_abi st" "stored_opt_out st" for st
  by unfold_locales (simp_all add: sap_GetContractABI_step sap_IsEventsAllowDynamicPayload_step)

lemma new_provider_coherent: "provider_coherent st newStoreABIProvider"
  by (simp add: provider_coherent_def newStoreABIProvider_def)

text \<open>The value of the interface the log filter reads, as the pure lookups the provider refines.\<close>

definition store_provider :: "store \<Rightarrow> abi_provider" where
  "store_provider st = \<lparr>ap_GetContractABI = stored_abi st, ap_IsEventsAllowDynamicPayload = Some (stored_opt_out st)\<rparr>"

text \<open>
  A request's ABI provider answers every sequence of ABI and dynamic-payload questions, in any order and
  with any repetition, exactly as direct reads of the contract store would: its two request caches are
  transparent, and the opt-out flag it reports always belongs to the row the ABI came from.
\<close>

theorem provider_caches_transparent:
  "sap.answers st newStoreABIProvider qs =
     map (\<lambda>(abi, a). if abi then Inl (ap_GetContractABI (store_provider st) a)
                      else Inr (the (ap_IsEventsAllowDynamicPayload (store_provider st)) a)) qs"
  by (auto simp: sap.answers_pure new_provider_coherent store_provider_def)

end
