(* ===== verification/Log_Redaction.thy ===== *)
theory Log_Redaction
  imports Visible_To
begin

text \<open>
  Field-level redaction of admitted logs: visibility levels (\<^verbatim>\<open>internal/explorer/visibility.go\<close>), the
  primitives that find and zero the addresses embedded in topics and ABI-encoded data
  (\<^verbatim>\<open>internal/explorer/redactor.go\<close>), and the renderer of the JSON-RPC log responses
  (\<^verbatim>\<open>internal/server/rpc_log_field_redaction.go\<close>). The HMAC and the visibility database are parameters.
\<close>

section \<open>Visibility levels\<close>

type_synonym visibility_level = string

definition VisibilityFull :: visibility_level where "VisibilityFull = ''full''"
definition VisibilityPseudonymous :: visibility_level where "VisibilityPseudonymous = ''pseudonymous''"
definition VisibilityRedacted :: visibility_level where "VisibilityRedacted = ''redacted''"
definition VisibilityHidden :: visibility_level where "VisibilityHidden = ''hidden''"

definition ReasonOwnAddress :: string where "ReasonOwnAddress = ''own_address''"

record address_visibility =
  av_Address :: string
  av_Visible :: bool
  av_Level :: visibility_level
  av_Reason :: string

type_synonym visibility_map = "(string \<times> visibility_level) list"

text \<open>A missing address reads as the empty level, which is none of the four.\<close>

definition vis_level :: "visibility_map \<Rightarrow> string \<Rightarrow> visibility_level" where
  "vis_level m a = (case map_of m a of Some l \<Rightarrow> l | None \<Rightarrow> '''')"

definition GeneratePseudonym :: "(bytes \<Rightarrow> string \<Rightarrow> bytes) \<Rightarrow> string \<Rightarrow> bytes \<Rightarrow> string" where
  "GeneratePseudonym hmac address key =
     (let addr = to_lower (trim_prefix (to_lower address) ''0x'') in
      if length addr < 4 then ''Address-Unknown''
      else let sum = hmac key addr in
        ''Address-'' @ map (\<lambda>i. char_of (65 + unat (and (sum ! i) 0x0f))) [0..<4])"

definition StrictAllowlist :: "(string \<times> address_visibility) list \<Rightarrow> string list" where
  "StrictAllowlist detailed =
     sort (map (\<lambda>(addr, meta). to_lower addr) (filter (\<lambda>(addr, meta). av_Reason meta = ReasonOwnAddress) detailed))"

definition GenerateAddressIDKeyed ::
  "(string \<Rightarrow> bytes) \<Rightarrow> (bytes \<Rightarrow> string \<Rightarrow> bytes) \<Rightarrow> string \<Rightarrow> string \<Rightarrow> bytes \<Rightarrow> string" where
  "GenerateAddressIDKeyed sha256 hmac address grantID key =
     (let data = to_lower address @ '':'' @ grantID in
      if key = [] then encode_hex (take 8 (sha256 data))
      else encode_hex (take 8 (hmac key data)))"

definition GenerateAddressID :: "(string \<Rightarrow> bytes) \<Rightarrow> (bytes \<Rightarrow> string \<Rightarrow> bytes) \<Rightarrow> string \<Rightarrow> string \<Rightarrow> string" where
  "GenerateAddressID sha256 hmac address grantID = GenerateAddressIDKeyed sha256 hmac address grantID []"

section \<open>Addresses embedded in a log\<close>

definition extractTopicAddress :: "string \<Rightarrow> string option" where
  "extractTopicAddress topic =
     (let t = to_lower topic in
      if length t \<noteq> 66 \<or> \<not> has_prefix t ''0x'' then None
      else if trim_zeros (take 24 (drop 2 t)) \<noteq> '''' then None
      else Some (''0x'' @ drop 26 t))"

definition redactTopicAddress :: "string \<Rightarrow> visibility_level \<Rightarrow> string" where
  "redactTopicAddress addr level =
     (if level = VisibilityFull then ''0x'' @ replicate 24 CHR ''0'' @ to_lower (trim_prefix addr ''0x'')
      else ''0x'' @ replicate 64 CHR ''0'')"

definition redactTopicField :: "string option \<Rightarrow> visibility_map \<Rightarrow> string option" where
  "redactTopicField topic visMap =
     (case topic of
        None \<Rightarrow> None
      | Some t \<Rightarrow>
          (case extractTopicAddress t of
             None \<Rightarrow> topic
           | Some addr \<Rightarrow>
               let level = vis_level visMap addr in
               if level = VisibilityFull then topic else Some (redactTopicAddress addr level)))"

text \<open>The event of an ABI text whose hashed signature is the first topic.\<close>

definition matched_event :: "abi_lib \<Rightarrow> string \<Rightarrow> string \<Rightarrow> abi_event option" where
  "matched_event al contractABI topic0 =
     (case al_JSON al contractABI of
        Inl _ \<Rightarrow> None
      | Inr parsed \<Rightarrow>
          find (\<lambda>ev. to_lower (''0x'' @ encode_hex (al_Keccak256 al (ev_Sig ev))) = to_lower topic0) (abi_Events parsed))"

definition nonIndexed :: "abi_event \<Rightarrow> abi_argument list" where
  "nonIndexed ev = filter (\<lambda>inp. \<not> arg_Indexed inp) (ev_Inputs ev)"

definition explorer_eventHasDynamicNonIndexedParam :: "abi_lib \<Rightarrow> string \<Rightarrow> string \<Rightarrow> bool" where
  "explorer_eventHasDynamicNonIndexedParam al contractABI topic0 =
     (if contractABI = '''' \<or> topic0 = '''' then False
      else case matched_event al contractABI topic0 of
        None \<Rightarrow> False
      | Some ev \<Rightarrow> list_ex (\<lambda>inp. \<not> arg_Indexed inp \<and> isDynamicABIType (arg_Type inp)) (ev_Inputs ev))"

text \<open>
  The data scan shared by the extraction and the redaction: the non-indexed arguments and the decoded bytes,
  when the event is known, has non-indexed arguments, and the data is long enough for one word each.
\<close>

definition data_scan :: "abi_lib \<Rightarrow> string \<Rightarrow> string \<Rightarrow> string option \<Rightarrow> (abi_argument list \<times> bytes) option" where
  "data_scan al data contractABI topic0 =
     (case topic0 of
        None \<Rightarrow> None
      | Some t0 \<Rightarrow>
          if data = '''' \<or> contractABI = '''' then None
          else (case matched_event al contractABI t0 of
                  None \<Rightarrow> None
                | Some ev \<Rightarrow>
                    if nonIndexed ev = [] then None
                    else (case decode_hex (trim_prefix data ''0x'') of
                            None \<Rightarrow> None
                          | Some dataBytes \<Rightarrow>
                              if length dataBytes < length (nonIndexed ev) * 32 then None
                              else Some (nonIndexed ev, dataBytes))))"

definition slot_at :: "nat \<Rightarrow> bytes \<Rightarrow> bytes" where
  "slot_at i dataBytes = take 32 (drop (i * 32) dataBytes)"

definition slot_address :: "abi_lib \<Rightarrow> bytes \<Rightarrow> string option" where
  "slot_address al slot =
     (if list_all (\<lambda>b. b = 0) (take 12 slot) then Some (to_lower (al_Hex al (drop 12 slot))) else None)"

definition extractDataAddresses :: "abi_lib \<Rightarrow> string \<Rightarrow> string \<Rightarrow> string option \<Rightarrow> string list" where
  "extractDataAddresses al data contractABI topic0 =
     (case data_scan al data contractABI topic0 of
        None \<Rightarrow> []
      | Some (args, dataBytes) \<Rightarrow>
          List.map_filter (\<lambda>(i, inp). if arg_Type inp \<noteq> AddressTy then None else slot_address al (slot_at i dataBytes))
            (enumerate 0 args))"

definition ExtractLogAddresses :: "abi_lib \<Rightarrow> string option list \<Rightarrow> string \<Rightarrow> string \<Rightarrow> string option \<Rightarrow> string list" where
  "ExtractLogAddresses al topics data contractABI topic0 =
     (let found = List.map_filter (\<lambda>t. case t of None \<Rightarrow> None | Some s \<Rightarrow> extractTopicAddress s) topics
                  @ (if data \<noteq> '''' \<and> topic0 \<noteq> None \<and> contractABI \<noteq> ''''
                     then extractDataAddresses al data contractABI topic0 else [])
      in rev (remdups (rev found)))"

section \<open>Zeroing\<close>

fun redact_eligible :: "abi_type \<Rightarrow> bool" where
  "redact_eligible AddressTy = True"
| "redact_eligible (FixedBytesTy n) = (n = 32)"
| "redact_eligible _ = False"

fun redact_slots :: "abi_lib \<Rightarrow> visibility_map \<Rightarrow> nat \<Rightarrow> abi_argument list \<Rightarrow> bytes \<Rightarrow> bool \<Rightarrow> bytes \<times> bool" where
  "redact_slots al visMap i [] dataBytes modified = (dataBytes, modified)"
| "redact_slots al visMap i (inp # args) dataBytes modified =
     (if \<not> redact_eligible (arg_Type inp) then redact_slots al visMap (Suc i) args dataBytes modified
      else case slot_address al (slot_at i dataBytes) of
        None \<Rightarrow> redact_slots al visMap (Suc i) args dataBytes modified
      | Some addr \<Rightarrow>
          if vis_level visMap addr = VisibilityFull then redact_slots al visMap (Suc i) args dataBytes modified
          else redact_slots al visMap (Suc i) args
                 (take (i * 32) dataBytes @ replicate 32 0 @ drop (Suc i * 32) dataBytes) True)"

definition redactLogData :: "abi_lib \<Rightarrow> string \<Rightarrow> string \<Rightarrow> string option \<Rightarrow> visibility_map \<Rightarrow> string" where
  "redactLogData al data contractABI topic0 visMap =
     (case data_scan al data contractABI topic0 of
        None \<Rightarrow> data
      | Some (args, dataBytes) \<Rightarrow>
          let (dataBytes, modified) = redact_slots al visMap 0 args dataBytes False in
          if \<not> modified then data
          else (if has_prefix data ''0x'' \<or> has_prefix data ''0X'' then ''0x'' else '''') @ encode_hex dataBytes)"

definition RedactLogAddressFields ::
  "abi_lib \<Rightarrow> string option list \<Rightarrow> string \<Rightarrow> string \<Rightarrow> string option \<Rightarrow> visibility_map \<Rightarrow> string option list \<times> string" where
  "RedactLogAddressFields al topics data contractABI topic0 visMap =
     (map (\<lambda>t. redactTopicField t visMap) topics, redactLogData al data contractABI topic0 visMap)"

definition isNonIdentifiable :: "visibility_level \<Rightarrow> bool" where
  "isNonIdentifiable level = (level = VisibilityHidden \<or> level = VisibilityRedacted)"

definition isZeroEVMAddress :: "string \<Rightarrow> bool" where
  "isZeroEVMAddress addr =
     (let normalized = trim_prefix (to_lower addr) ''0x'' in length normalized = 40 \<and> trim_zeros normalized = '''')"

definition applyRedaction :: "(bytes \<Rightarrow> string \<Rightarrow> bytes) \<Rightarrow> bytes \<Rightarrow> string \<Rightarrow> visibility_level \<Rightarrow> string" where
  "applyRedaction hmac pseudonymKey address level =
     (if level = VisibilityFull then address
      else if level = VisibilityPseudonymous then GeneratePseudonym hmac address pseudonymKey
      else ''[PRIVATE]'')"

section \<open>The zeroing loop as one pass over the words\<close>

definition hides :: "abi_lib \<Rightarrow> visibility_map \<Rightarrow> abi_argument \<Rightarrow> bytes \<Rightarrow> bool" where
  "hides al visMap inp slot =
     (redact_eligible (arg_Type inp) \<and>
      (case slot_address al slot of None \<Rightarrow> False | Some a \<Rightarrow> vis_level visMap a \<noteq> VisibilityFull))"

definition redact_word :: "abi_lib \<Rightarrow> visibility_map \<Rightarrow> bytes \<Rightarrow> nat \<times> abi_argument \<Rightarrow> bytes" where
  "redact_word al visMap bs = (\<lambda>(k, inp). if hides al visMap inp (slot_at k bs) then replicate 32 0 else slot_at k bs)"

definition redact_words :: "abi_lib \<Rightarrow> visibility_map \<Rightarrow> nat \<Rightarrow> abi_argument list \<Rightarrow> bytes \<Rightarrow> bytes" where
  "redact_words al visMap i args bs =
     take (i * 32) bs @ concat (map (redact_word al visMap bs) (enumerate i args)) @ drop ((i + length args) * 32) bs"

definition some_hidden :: "abi_lib \<Rightarrow> visibility_map \<Rightarrow> nat \<Rightarrow> abi_argument list \<Rightarrow> bytes \<Rightarrow> bool" where
  "some_hidden al visMap i args bs = (\<exists>(k, inp) \<in> set (enumerate i args). hides al visMap inp (slot_at k bs))"

lemma length_slot_at: "Suc i * 32 \<le> length bs \<Longrightarrow> length (slot_at i bs) = 32"
  by (simp add: slot_at_def)

lemma take_slot: "take (i * 32) bs @ slot_at i bs = take (Suc i * 32) bs"
proof -
  have "Suc i * 32 = i * 32 + 32" by simp
  then show ?thesis by (metis slot_at_def take_add)
qed

lemma slot_at_append:
  assumes "length xs = i * 32" "length w = 32"
  shows "slot_at j (xs @ w @ ys) =
           (if j < i then slot_at j xs else if j = i then w else slot_at (j - Suc i) ys)"
proof -
  consider "j < i" | "j = i" | "i < j" by linarith
  then show ?thesis
  proof cases
    case 1
    then have "j * 32 + 32 \<le> i * 32" by simp
    then show ?thesis using 1 assms by (simp add: slot_at_def)
  next
    case 2
    then show ?thesis using assms by (simp add: slot_at_def)
  next
    case 3
    then have "i * 32 \<le> j * 32" "32 \<le> j * 32 - i * 32" "j * 32 - i * 32 - 32 = (j - Suc i) * 32"
      by (simp_all add: diff_mult_distrib)
    then show ?thesis using 3 assms by (simp add: slot_at_def)
  qed
qed

lemma slot_at_replaced:
  assumes "Suc i * 32 \<le> length bs" "length w = 32" "j \<noteq> i"
  shows "slot_at j (take (i * 32) bs @ w @ drop (Suc i * 32) bs) = slot_at j bs"
proof -
  have len: "length (take (i * 32) bs) = i * 32" "length (slot_at i bs) = 32"
    using assms(1) by (simp_all add: length_slot_at)
  have "bs = take (i * 32) bs @ slot_at i bs @ drop (Suc i * 32) bs"
    by (metis append.assoc append_take_drop_id take_slot)
  then have "slot_at j bs = slot_at j (take (i * 32) bs @ slot_at i bs @ drop (Suc i * 32) bs)" by simp
  then show ?thesis using assms(3) len(2) by (simp only: slot_at_append [OF len(1) assms(2)] slot_at_append [OF len] if_False)
qed

lemma redact_words_Cons:
  assumes "Suc i * 32 \<le> length bs"
  shows "redact_words al visMap i (inp # args) bs =
           (let w = (if hides al visMap inp (slot_at i bs) then replicate 32 0 else slot_at i bs)
            in redact_words al visMap (Suc i) args (take (i * 32) bs @ w @ drop (Suc i * 32) bs))"
proof -
  let ?w = "if hides al visMap inp (slot_at i bs) then replicate 32 0 else slot_at i bs"
  let ?bs = "take (i * 32) bs @ ?w @ drop (Suc i * 32) bs"
  have len: "length ?w = 32" "length (take (i * 32) bs) = i * 32" using assms by (simp_all add: length_slot_at)
  have word: "map (redact_word al visMap ?bs) (enumerate (Suc i) args) = map (redact_word al visMap bs) (enumerate (Suc i) args)"
  proof (intro map_cong refl, clarify)
    fix k inp' assume "(k, inp') \<in> set (enumerate (Suc i) args)"
    then have "k \<noteq> i" by (auto simp: in_set_enumerate_eq)
    then show "redact_word al visMap ?bs (k, inp') = redact_word al visMap bs (k, inp')"
      using slot_at_replaced [OF assms len(1)] by (simp add: redact_word_def)
  qed
  have t: "take (Suc i * 32) ?bs = take (i * 32) bs @ ?w" using len by simp
  have d: "drop ((Suc i + length args) * 32) ?bs = drop ((i + length (inp # args)) * 32) bs"
    using len by (simp add: ac_simps)
  show ?thesis
    unfolding Let_def redact_words_def t d word by (simp add: redact_word_def)
qed

lemma replaced_same:
  "take (i * 32) bs @ slot_at i bs @ drop (Suc i * 32) bs = bs"
  by (metis append.assoc append_take_drop_id take_slot)

lemma redact_slots_words:
  assumes "(i + length args) * 32 \<le> length bs"
  shows "redact_slots al visMap i args bs modified =
           (redact_words al visMap i args bs, modified \<or> some_hidden al visMap i args bs)"
  using assms
proof (induction args arbitrary: i bs modified)
  case Nil
  then show ?case by (simp add: redact_words_def some_hidden_def)
next
  case (Cons inp args)
  have i: "Suc i * 32 \<le> length bs" using Cons.prems by simp
  let ?w = "if hides al visMap inp (slot_at i bs) then replicate 32 0 else slot_at i bs"
  let ?bs = "take (i * 32) bs @ ?w @ drop (Suc i * 32) bs"
  have w: "length ?w = 32" using i by (simp add: length_slot_at)
  have len: "length ?bs = length bs" using i w by simp
  have step: "redact_slots al visMap i (inp # args) bs modified =
                redact_slots al visMap (Suc i) args ?bs (modified \<or> hides al visMap inp (slot_at i bs))"
    by (auto simp: hides_def replaced_same [simplified] split: option.splits)
  have "(k, inp') \<in> set (enumerate (Suc i) args) \<Longrightarrow> slot_at k ?bs = slot_at k bs" for k inp'
    by (rule slot_at_replaced [OF i w]) (auto simp: in_set_enumerate_eq)
  then have "some_hidden al visMap (Suc i) args ?bs = some_hidden al visMap (Suc i) args bs"
    unfolding some_hidden_def by (intro bex_cong refl) auto
  moreover have "some_hidden al visMap i (inp # args) bs =
                   (hides al visMap inp (slot_at i bs) \<or> some_hidden al visMap (Suc i) args bs)"
    by (simp add: some_hidden_def)
  moreover have "(Suc i + length args) * 32 \<le> length ?bs" using Cons.prems len by simp
  ultimately show ?case
    unfolding step redact_words_Cons [OF i] Let_def by (subst Cons.IH) simp_all
qed

lemma redact_words_length:
  assumes "(i + length args) * 32 \<le> length bs"
  shows "length (redact_words al visMap i args bs) = length bs"
  using assms
proof (induction args arbitrary: i bs)
  case (Cons inp args)
  then have "Suc i * 32 \<le> length bs" by simp
  then show ?case using Cons.prems
    by (subst redact_words_Cons) (auto simp: Let_def Cons.IH length_slot_at)
qed (simp add: redact_words_def)

lemma slot_at_redact_words:
  assumes "(i + length args) * 32 \<le> length bs" "k < length args"
  shows "slot_at (i + k) (redact_words al visMap i args bs) = redact_word al visMap bs (i + k, args ! k)"
  using assms
proof (induction args arbitrary: i bs k)
  case (Cons inp args)
  have i: "Suc i * 32 \<le> length bs" using Cons.prems by simp
  let ?w = "if hides al visMap inp (slot_at i bs) then replicate 32 0 else slot_at i bs"
  let ?bs = "take (i * 32) bs @ ?w @ drop (Suc i * 32) bs"
  have w: "length ?w = 32" using i by (simp add: length_slot_at)
  have len: "length ?bs = length bs" using i w by simp
  have ge: "(Suc i + length args) * 32 \<le> length ?bs" using Cons.prems len by simp
  show ?case
  proof (cases k)
    case 0
    have "slot_at i (redact_words al visMap (Suc i) args ?bs) = slot_at i (take (Suc i * 32) ?bs)"
      unfolding redact_words_def using ge i w by (simp add: slot_at_def)
    also have "\<dots> = ?w" using i w by (simp add: slot_at_def)
    finally show ?thesis using 0 by (simp add: redact_words_Cons [OF i] Let_def redact_word_def del: mult_Suc)
  next
    case (Suc k')
    then have "slot_at (Suc i + k') (redact_words al visMap (Suc i) args ?bs) = redact_word al visMap ?bs (Suc i + k', args ! k')"
      using Cons.prems ge by (intro Cons.IH) simp_all
    then show ?thesis using Suc slot_at_replaced [OF i w, of "Suc i + k'"]
      by (simp add: redact_words_Cons [OF i] Let_def redact_word_def del: mult_Suc)
  qed
qed simp

section \<open>What a redacted log still shows\<close>

lemma encode_hex_no_0x: "\<not> has_prefix (encode_hex bs) ''0x''"
proof (cases bs)
  case (Cons b bs)
  have "hex_digit (unat b mod 16) \<noteq> CHR ''x''"
  proof
    assume "hex_digit (unat b mod 16) = CHR ''x''"
    then have "hex_val (CHR ''x'') = Some (unat b mod 16)" by (metis hex_val_digit mod_less_divisor zero_less_numeral)
    then show False by (simp add: hex_val_def)
  qed
  then show ?thesis using Cons by (simp add: has_prefix_def)
qed (simp add: has_prefix_def)

lemma trim_encoded: "trim_prefix (''0x'' @ encode_hex bs) ''0x'' = encode_hex bs" "trim_prefix (encode_hex bs) ''0x'' = encode_hex bs"
  using encode_hex_no_0x by (simp_all add: trim_prefix_def has_prefix_def)

lemma data_scan_long: "data_scan al data contractABI topic0 = Some (args, bs) \<Longrightarrow> length args * 32 \<le> length bs \<and> args \<noteq> []"
  by (auto simp: data_scan_def split: option.splits if_splits)

lemma data_scan_cong:
  assumes "data_scan al data contractABI topic0 = Some (args, bs)" "decode_hex (trim_prefix data' ''0x'') = Some bs'"
    "length bs' = length bs" "data' \<noteq> ''''"
  shows "data_scan al data' contractABI topic0 = Some (args, bs')"
  using assms by (auto simp: data_scan_def split: option.splits if_splits)

lemma redactLogData_scanned:
  assumes "data_scan al data contractABI topic0 = Some (args, bs)"
  shows "redactLogData al data contractABI topic0 visMap =
           (if some_hidden al visMap 0 args bs
            then (if has_prefix data ''0x'' \<or> has_prefix data ''0X'' then ''0x'' else '''') @ encode_hex (redact_words al visMap 0 args bs)
            else data)"
  using assms data_scan_long [OF assms] by (simp add: redactLogData_def redact_slots_words)

lemma redact_words_unchanged:
  assumes "\<not> some_hidden al visMap i args bs" "(i + length args) * 32 \<le> length bs"
  shows "redact_words al visMap i args bs = bs"
  using assms
proof (induction args arbitrary: i)
  case (Cons inp args)
  then have "Suc i * 32 \<le> length bs" "\<not> hides al visMap inp (slot_at i bs)" "\<not> some_hidden al visMap (Suc i) args bs"
    by (auto simp: some_hidden_def)
  moreover from this Cons have "redact_words al visMap (Suc i) args bs = bs" by (intro Cons.IH) simp_all
  ultimately show ?case by (simp add: redact_words_Cons Let_def replaced_same del: mult_Suc)
qed (simp add: redact_words_def)

text \<open>Scanning the redacted data again finds the zeroed words.\<close>

lemma data_scan_redacted:
  assumes "data_scan al data contractABI topic0 = Some (args, bs)"
  shows "data_scan al (redactLogData al data contractABI topic0 visMap) contractABI topic0 =
           Some (args, redact_words al visMap 0 args bs)"
proof (cases "some_hidden al visMap 0 args bs")
  case False
  then show ?thesis using assms data_scan_long [OF assms] by (simp add: redactLogData_scanned redact_words_unchanged)
next
  case True
  have len: "length (redact_words al visMap 0 args bs) = length bs" and long: "32 \<le> length bs"
    using data_scan_long [OF assms] by (auto simp: redact_words_length Suc_le_eq neq_Nil_conv)
  then have "encode_hex (redact_words al visMap 0 args bs) \<noteq> ''''"
    by (metis length_encode_hex length_0_conv mult_eq_0_iff not_numeral_le_zero zero_neq_numeral)
  then show ?thesis
    using True len by (intro data_scan_cong [OF assms]) (auto simp: redactLogData_scanned [OF assms] trim_encoded [simplified])
qed

lemma zero_topic_address:
  "extractTopicAddress (''0x'' @ replicate 64 CHR ''0'') = Some (''0x'' @ replicate 40 CHR ''0'')"
  by code_simp

lemma in_map_filter: "y \<in> set (List.map_filter f xs) \<longleftrightarrow> (\<exists>x \<in> set xs. f x = Some y)"
  by (induction xs) (auto simp: List.map_filter_simps split: option.splits)

lemma redactTopicField_shows:
  assumes "redactTopicField t visMap = Some t'" "extractTopicAddress t' = Some a"
  shows "vis_level visMap a = VisibilityFull \<or> a = ''0x'' @ replicate 40 CHR ''0''"
proof -
  have z: "redactTopicAddress b l = ''0x'' @ replicate 64 CHR ''0''" if "l \<noteq> VisibilityFull" for b l
    using that by (simp add: redactTopicAddress_def)
  from assms zero_topic_address show ?thesis
    by (auto simp: redactTopicField_def Let_def z split: option.splits if_splits)
qed

lemma slot_address_zero: "slot_address al (replicate 32 0) = Some (to_lower (al_Hex al (replicate 20 0)))"
  by (simp add: slot_address_def list_all_iff)

lemma redactLogData_shows:
  assumes "a \<in> set (extractDataAddresses al (redactLogData al data contractABI topic0 visMap) contractABI topic0)"
  shows "vis_level visMap a = VisibilityFull \<or> a = to_lower (al_Hex al (replicate 20 0))"
proof (cases "data_scan al data contractABI topic0")
  case None
  then show ?thesis using assms by (simp add: redactLogData_def extractDataAddresses_def)
next
  case (Some p)
  obtain args bs where p: "p = (args, bs)" by (cases p)
  from Some p have scan: "data_scan al data contractABI topic0 = Some (args, bs)" by simp
  from assms obtain k where k: "k < length args" "arg_Type (args ! k) = AddressTy"
    "slot_address al (slot_at k (redact_words al visMap 0 args bs)) = Some a"
    by (auto simp: extractDataAddresses_def data_scan_redacted [OF scan] in_map_filter in_set_enumerate_eq split: if_splits)
  have "slot_at k (redact_words al visMap 0 args bs) = redact_word al visMap bs (k, args ! k)"
    using slot_at_redact_words [of 0 args bs k al visMap] data_scan_long [OF scan] k(1) by simp
  with k show ?thesis
    by (auto simp: redact_word_def hides_def slot_address_zero split: if_splits option.splits)
qed

lemma redacted_fields_show:
  assumes "RedactLogAddressFields al topics data contractABI topic0 visMap = (topics', data')"
    and "a \<in> set (ExtractLogAddresses al topics' data' contractABI topic0)"
  shows "vis_level visMap a = VisibilityFull \<or> a = ''0x'' @ replicate 40 CHR ''0'' \<or> a = to_lower (al_Hex al (replicate 20 0))"
proof -
  have red: "topics' = map (\<lambda>t. redactTopicField t visMap) topics" "data' = redactLogData al data contractABI topic0 visMap"
    using assms(1) by (simp_all add: RedactLogAddressFields_def)
  consider t where "t \<in> set topics'" "(case t of None \<Rightarrow> None | Some s \<Rightarrow> extractTopicAddress s) = Some a"
    | "a \<in> set (extractDataAddresses al data' contractABI topic0)"
    using assms(2) by (auto simp: ExtractLogAddresses_def Let_def in_map_filter split: if_splits)
  then show ?thesis
  proof cases
    case 1
    then obtain u s where "Some s = redactTopicField u visMap" "extractTopicAddress s = Some a"
      unfolding red(1) by (auto split: option.splits)
    from redactTopicField_shows [OF this(1) [symmetric] this(2)] show ?thesis by blast
  next
    case 2
    then show ?thesis using redactLogData_shows unfolding red(2) by blast
  qed
qed


definition demo_arg :: "abi_type \<Rightarrow> abi_argument" where
  "demo_arg ty = \<lparr>arg_Name = '''', arg_Type = ty, arg_TypeString = '''', arg_Indexed = False\<rparr>"

definition demo_redact_event :: "abi_type list \<Rightarrow> abi_event" where
  "demo_redact_event tys =
     \<lparr>ev_Name = ''Paid'', ev_Sig = ''Paid()'', ev_ID = replicate 32 1, ev_Anonymous = False, ev_Inputs = map demo_arg tys\<rparr>"

definition demo_redact_lib :: "abi_type list \<Rightarrow> abi_lib" where
  "demo_redact_lib tys = empty_abi_lib
     \<lparr>al_JSON := \<lambda>_. Inr \<lparr>abi_Events = [demo_redact_event tys], abi_MethodById = \<lambda>_. Inl ''no method''\<rparr>,
      al_Keccak256 := \<lambda>_. replicate 32 1\<rparr>"

definition demo_topic0 :: string where
  "demo_topic0 = ''0x'' @ encode_hex (replicate 32 1)"

definition demo_word :: "8 word \<Rightarrow> bytes" where
  "demo_word b = replicate 12 0 @ replicate 20 b"


text \<open>
  C23. What a viewer reads in a redacted log does not depend on the private addresses in it: two logs of the
  same event whose topics and data words differ only where both carry an address that is not fully visible
  are redacted to the same topics and the same data.
\<close>

theorem hidden_addresses_do_not_show:
  assumes "data_scan al (''0x'' @ encode_hex bs) contractABI topic0 = Some (args, bs)"
    and "data_scan al (''0x'' @ encode_hex bs') contractABI topic0 = Some (args, bs')"
    and "list_all2 (\<lambda>t t'. t = t' \<or>
           (\<exists>a a'. extractTopicAddress t = Some a \<and> extractTopicAddress t' = Some a' \<and>
                   vis_level visMap a \<noteq> VisibilityFull \<and> vis_level visMap a' \<noteq> VisibilityFull)) topics topics'"
    and "\<And>k. k < length args \<Longrightarrow> slot_at k bs = slot_at k bs' \<or>
           hides al visMap (args ! k) (slot_at k bs) \<and> hides al visMap (args ! k) (slot_at k bs')"
    and "drop (length args * 32) bs = drop (length args * 32) bs'"
  shows "RedactLogAddressFields al (map Some topics) (''0x'' @ encode_hex bs) contractABI topic0 visMap =
         RedactLogAddressFields al (map Some topics') (''0x'' @ encode_hex bs') contractABI topic0 visMap"
proof -
  have topic: "redactTopicField (Some t) visMap = redactTopicField (Some t') visMap"
    if "t = t' \<or> (\<exists>a a'. extractTopicAddress t = Some a \<and> extractTopicAddress t' = Some a' \<and>
                   vis_level visMap a \<noteq> VisibilityFull \<and> vis_level visMap a' \<noteq> VisibilityFull)" for t t'
    using that by (auto simp: redactTopicField_def redactTopicAddress_def Let_def)
  have topics: "map (\<lambda>t. redactTopicField t visMap) (map Some topics) = map (\<lambda>t. redactTopicField t visMap) (map Some topics')"
    using assms(3) by (induction rule: list_all2_induct) (simp_all add: topic)
  have word: "redact_word al visMap bs (k, inp) = redact_word al visMap bs' (k, inp)"
    and hid: "hides al visMap inp (slot_at k bs) = hides al visMap inp (slot_at k bs')"
    if "(k, inp) \<in> set (enumerate 0 args)" for k inp
    using assms(4) [of k] that by (auto simp: redact_word_def in_set_enumerate_eq)
  have "map (redact_word al visMap bs) (enumerate 0 args) = map (redact_word al visMap bs') (enumerate 0 args)"
    using word by (intro map_cong refl) auto
  then have words: "redact_words al visMap 0 args bs = redact_words al visMap 0 args bs'"
    using assms(5) by (simp only: redact_words_def add_0 mult_zero_left take_0)
  have some: "some_hidden al visMap 0 args bs = some_hidden al visMap 0 args bs'"
    unfolding some_hidden_def using hid by (intro bex_cong refl) auto
  have "bs = bs'" if "\<not> some_hidden al visMap 0 args bs"
    using that some words data_scan_long [OF assms(1)] data_scan_long [OF assms(2)]
    by (simp add: redact_words_unchanged)
  then have "redactLogData al (''0x'' @ encode_hex bs) contractABI topic0 visMap =
             redactLogData al (''0x'' @ encode_hex bs') contractABI topic0 visMap"
    unfolding redactLogData_scanned [OF assms(1)] redactLogData_scanned [OF assms(2)]
    using some words by (auto simp: has_prefix_def)
  then show ?thesis using topics by (simp add: RedactLogAddressFields_def)
qed

theorem hidden_addresses_do_not_show_witness:
  "RedactLogAddressFields (demo_redact_lib [AddressTy]) (map Some [demo_topic0, ''0x'' @ encode_hex (demo_word 5)])
     (''0x'' @ encode_hex (demo_word 7)) ''abi'' (Some demo_topic0) [] =
   RedactLogAddressFields (demo_redact_lib [AddressTy]) (map Some [demo_topic0, ''0x'' @ encode_hex (demo_word 6)])
     (''0x'' @ encode_hex (demo_word 8)) ''abi'' (Some demo_topic0) []"
proof (rule hidden_addresses_do_not_show [where args = "[demo_arg AddressTy]"])
  show "data_scan (demo_redact_lib [AddressTy]) (''0x'' @ encode_hex (demo_word 7)) ''abi'' (Some demo_topic0) =
          Some ([demo_arg AddressTy], demo_word 7)" by code_simp
  show "data_scan (demo_redact_lib [AddressTy]) (''0x'' @ encode_hex (demo_word 8)) ''abi'' (Some demo_topic0) =
          Some ([demo_arg AddressTy], demo_word 8)" by code_simp
  have "extractTopicAddress (''0x'' @ encode_hex (demo_word 5)) = Some (''0x'' @ encode_hex (replicate 20 5))"
    "extractTopicAddress (''0x'' @ encode_hex (demo_word 6)) = Some (''0x'' @ encode_hex (replicate 20 6))"
    by code_simp+
  then show "list_all2 (\<lambda>t t'. t = t' \<or>
           (\<exists>a a'. extractTopicAddress t = Some a \<and> extractTopicAddress t' = Some a' \<and>
                   vis_level [] a \<noteq> VisibilityFull \<and> vis_level [] a' \<noteq> VisibilityFull))
         [demo_topic0, ''0x'' @ encode_hex (demo_word 5)] [demo_topic0, ''0x'' @ encode_hex (demo_word 6)]"
    by (simp add: vis_level_def VisibilityFull_def)
  show "slot_at k (demo_word 7) = slot_at k (demo_word 8) \<or>
           hides (demo_redact_lib [AddressTy]) [] ([demo_arg AddressTy] ! k) (slot_at k (demo_word 7)) \<and>
           hides (demo_redact_lib [AddressTy]) [] ([demo_arg AddressTy] ! k) (slot_at k (demo_word 8))"
    if "k < length [demo_arg AddressTy]" for k
  proof -
    have "k = 0" using that by simp
    moreover have "hides (demo_redact_lib [AddressTy]) [] ([demo_arg AddressTy] ! 0) (slot_at 0 (demo_word 7))"
      "hides (demo_redact_lib [AddressTy]) [] ([demo_arg AddressTy] ! 0) (slot_at 0 (demo_word 8))"
      by code_simp+
    ultimately show ?thesis by simp
  qed
  show "drop (length [demo_arg AddressTy] * 32) (demo_word 7) = drop (length [demo_arg AddressTy] * 32) (demo_word 8)"
    by (simp add: demo_word_def)
qed

text \<open>
  The data scan counts one 32-byte word per non-indexed argument, but a fixed-size array of a static type
  takes one word per element. For an event with a static array of two numbers followed by an address, the
  word that holds the address is never examined: the dynamic-payload gate does not drop the log, and the
  data leaves the redaction unchanged with the address in it, whatever its visibility.
\<close>

theorem static_array_address_unmasked:
  assumes "matched_event al contractABI t0 = Some ev" "contractABI \<noteq> ''''"
    and "map arg_Type (nonIndexed ev) = [ArrayTy (Some UintTy), AddressTy]"
    and "length w1 = 32" "length w2 = 32" "\<not> list_all (\<lambda>b. b = 0) (take 12 w2)" "length addr = 20"
  shows "redactLogData al (''0x'' @ encode_hex (w1 @ w2 @ replicate 12 0 @ addr)) contractABI (Some t0) visMap =
           ''0x'' @ encode_hex (w1 @ w2 @ replicate 12 0 @ addr) \<and>
         \<not> explorer_eventHasDynamicNonIndexedParam al contractABI t0"
proof
  let ?bs = "w1 @ w2 @ replicate 12 0 @ addr"
  obtain x y where xy: "nonIndexed ev = [x, y]" "arg_Type x = ArrayTy (Some UintTy)" "arg_Type y = AddressTy"
    using assms(3) by auto
  have scan: "data_scan al (''0x'' @ encode_hex ?bs) contractABI (Some t0) = Some (nonIndexed ev, ?bs)"
    using assms xy(1) trim_encoded(1) [of ?bs] by (simp add: data_scan_def)
  have "slot_at 1 ?bs = w2" using assms(4,5) by (simp add: slot_at_def)
  then have "\<not> some_hidden al visMap 0 (nonIndexed ev) ?bs"
    using assms(6) xy by (simp add: some_hidden_def hides_def slot_address_def)
  then show "redactLogData al (''0x'' @ encode_hex ?bs) contractABI (Some t0) visMap = ''0x'' @ encode_hex ?bs"
    by (simp only: redactLogData_scanned [OF scan] if_False)
  have "\<not> isDynamicABIType (arg_Type inp)" if "\<not> arg_Indexed inp" "inp \<in> set (ev_Inputs ev)" for inp
  proof -
    have "inp \<in> set (nonIndexed ev)" using that by (simp add: nonIndexed_def)
    then show ?thesis using xy by auto
  qed
  then show "\<not> explorer_eventHasDynamicNonIndexedParam al contractABI t0"
    using assms(1) by (auto simp: explorer_eventHasDynamicNonIndexedParam_def list_ex_iff)
qed

theorem static_array_address_unmasked_witness:
  "redactLogData (demo_redact_lib [ArrayTy (Some UintTy), AddressTy])
     (''0x'' @ encode_hex (replicate 32 3 @ replicate 32 4 @ replicate 12 0 @ replicate 20 5)) ''abi'' (Some demo_topic0) [] =
     ''0x'' @ encode_hex (replicate 32 3 @ replicate 32 4 @ replicate 12 0 @ replicate 20 5) \<and>
   \<not> explorer_eventHasDynamicNonIndexedParam (demo_redact_lib [ArrayTy (Some UintTy), AddressTy]) ''abi'' demo_topic0"
proof (rule static_array_address_unmasked [where ev = "demo_redact_event [ArrayTy (Some UintTy), AddressTy]"])
  show "matched_event (demo_redact_lib [ArrayTy (Some UintTy), AddressTy]) ''abi'' demo_topic0 =
          Some (demo_redact_event [ArrayTy (Some UintTy), AddressTy])" by code_simp
  show "map arg_Type (nonIndexed (demo_redact_event [ArrayTy (Some UintTy), AddressTy])) = [ArrayTy (Some UintTy), AddressTy]"
    by code_simp
qed (simp_all add: list_all_iff)

end
