(* ===== verification/Upgrade_Validator.thy ===== *)
theory Upgrade_Validator
  imports Rbac_Store
begin

text \<open>
  Proxy upgrades: \<^verbatim>\<open>internal/rbac/upgrade_validator.go\<close>. Calldata is a byte list; slices are
  \<^verbatim>\<open>take\<close> and \<^verbatim>\<open>drop\<close> under the length guards of the source.
\<close>

definition SelectorUpgradeTo :: string where
  "SelectorUpgradeTo = ''3659cfe6''"

definition SelectorUpgradeToAndCall :: string where
  "SelectorUpgradeToAndCall = ''4f1ef286''"

definition SelectorSetImplementation :: string where
  "SelectorSetImplementation = ''d784d426''"

definition SelectorBeaconUpgradeTo :: string where
  "SelectorBeaconUpgradeTo = ''3659cfe6''"

definition SelectorProxyAdminUpgrade :: string where
  "SelectorProxyAdminUpgrade = ''99a88ec4''"

definition SelectorProxyAdminUpgradeAndCall :: string where
  "SelectorProxyAdminUpgradeAndCall = ''9623609d''"

definition UpgradeSelectors :: "(string \<times> string) list" where
  "UpgradeSelectors =
     [(SelectorUpgradeTo, ''upgradeTo(address)''),
      (SelectorUpgradeToAndCall, ''upgradeToAndCall(address,bytes)''),
      (SelectorSetImplementation, ''setImplementation(address)''),
      (SelectorProxyAdminUpgrade, ''upgrade(address,address)''),
      (SelectorProxyAdminUpgradeAndCall, ''upgradeAndCall(address,address,bytes)'')]"

lemmas selector_defs =
  SelectorUpgradeTo_def SelectorUpgradeToAndCall_def SelectorSetImplementation_def
  SelectorProxyAdminUpgrade_def SelectorProxyAdminUpgradeAndCall_def

record upgrade_validation_result =
  uvr_IsUpgradeCall :: bool
  uvr_Allowed :: bool
  uvr_Reason :: string
  uvr_NewImplementation :: string
  uvr_FunctionName :: string

definition slice :: "nat \<Rightarrow> nat \<Rightarrow> 'a list \<Rightarrow> 'a list" where
  "slice i j xs = take (j - i) (drop i xs)"

definition GetUpgradeFunctionName :: "string \<Rightarrow> string" where
  "GetUpgradeFunctionName selector =
     (case map_of UpgradeSelectors (trim_prefix (to_lower selector) ''0x'') of Some n \<Rightarrow> n | None \<Rightarrow> '''')"

definition IsUpgradeSelector :: "string \<Rightarrow> bool" where
  "IsUpgradeSelector selector = (map_of UpgradeSelectors (trim_prefix (to_lower selector) ''0x'') \<noteq> None)"

definition extractImplementationAddress :: "string \<Rightarrow> bytes \<Rightarrow> string res" where
  "extractImplementationAddress selector calldata =
     (if selector \<in> {SelectorUpgradeTo, SelectorUpgradeToAndCall, SelectorSetImplementation}
      then (if length calldata < 36
            then Inl (''calldata too short for '' @ the (map_of UpgradeSelectors selector))
            else Inr (''0x'' @ encode_hex (slice 16 36 calldata)))
      else if selector \<in> {SelectorProxyAdminUpgrade, SelectorProxyAdminUpgradeAndCall}
      then (if length calldata < 68
            then Inl (''calldata too short for '' @ the (map_of UpgradeSelectors selector))
            else Inr (''0x'' @ encode_hex (slice 48 68 calldata)))
      else Inl (''unknown upgrade selector: '' @ selector))"

definition ValidateUpgrade :: "store \<Rightarrow> string \<Rightarrow> string \<Rightarrow> bytes \<Rightarrow> upgrade_validation_result res" where
  "ValidateUpgrade st orgID proxyAddress calldata =
     (let result = \<lparr>uvr_IsUpgradeCall = False, uvr_Allowed = False, uvr_Reason = '''',
                    uvr_NewImplementation = '''', uvr_FunctionName = ''''\<rparr> in
      if length calldata < 4 then Inr (result\<lparr>uvr_Allowed := True\<rparr>)
      else let selector = encode_hex (take 4 calldata) in
        case map_of UpgradeSelectors selector of
          None \<Rightarrow> Inr (result\<lparr>uvr_Allowed := True\<rparr>)
        | Some funcName \<Rightarrow>
            let result = result\<lparr>uvr_IsUpgradeCall := True, uvr_FunctionName := funcName\<rparr> in
            (case extractImplementationAddress selector calldata of
               Inl e \<Rightarrow> Inr (result\<lparr>uvr_Reason := ''failed to extract implementation address: '' @ e\<rparr>)
             | Inr newImpl \<Rightarrow>
                 let result = result\<lparr>uvr_NewImplementation := newImpl\<rparr> in
                 (case st_IsAddressOwnedByOrg st newImpl orgID of
                    Inl e \<Rightarrow> Inl (''failed to check implementation ownership: '' @ e)
                  | Inr owned \<Rightarrow>
                      if \<not> owned
                      then Inr (result\<lparr>uvr_Reason := ''new implementation '' @ newImpl @ '' is not owned by the organization''\<rparr>)
                      else Inr (result\<lparr>uvr_Allowed := True\<rparr>))))"

section \<open>Lemmas\<close>

text \<open>The position of the implementation address in the calldata of each upgrade function.\<close>

definition implementation_offset :: "string \<Rightarrow> nat" where
  "implementation_offset selector =
     (if selector \<in> {SelectorProxyAdminUpgrade, SelectorProxyAdminUpgradeAndCall} then 48 else 16)"

lemma ValidateUpgrade_allowed:
  assumes "ValidateUpgrade st orgID proxy cd = Inr r" "uvr_Allowed r" "4 \<le> length cd"
    and "map_of UpgradeSelectors (encode_hex (take 4 cd)) \<noteq> None"
  shows "implementation_offset (encode_hex (take 4 cd)) + 20 \<le> length cd
    \<and> st_IsAddressOwnedByOrg st
        (''0x'' @ encode_hex (take 20 (drop (implementation_offset (encode_hex (take 4 cd))) cd))) orgID = Inr True"
proof -
  let ?sel = "encode_hex (take 4 cd)"
  obtain f where f: "map_of UpgradeSelectors ?sel = Some f" using assms(4) by auto
  from assms f obtain impl where impl: "extractImplementationAddress ?sel cd = Inr impl"
    "st_IsAddressOwnedByOrg st impl orgID = Inr True"
    by (auto simp: ValidateUpgrade_def Let_def split: sum.splits if_splits)
  from impl(1) have "impl = ''0x'' @ encode_hex (take 20 (drop (implementation_offset ?sel) cd))
      \<and> implementation_offset ?sel + 20 \<le> length cd"
    by (auto simp: extractImplementationAddress_def implementation_offset_def slice_def selector_defs
        split: if_splits)
  with impl(2) show ?thesis by simp
qed

end
