(* ===== verification/Param_Validator.thy ===== *)
theory Param_Validator
  imports Rbac_Models Abi_Library
begin

text \<open>
  Parameter constraints of function rules: \<^verbatim>\<open>internal/rbac/param_validator.go\<close>. The ABI library
  is a parameter.
\<close>

definition addressMatchesAny :: "abi_lib \<Rightarrow> bytes \<Rightarrow> string list \<Rightarrow> bool" where
  "addressMatchesAny al addr userAddresses =
     list_ex (\<lambda>ua. to_lower ua = to_lower (al_Hex al addr)) userAddresses"

fun check_param_rules :: "abi_lib \<Rightarrow> string list \<Rightarrow> abi_value list \<Rightarrow> param_rule list \<Rightarrow> unit res" where
  "check_param_rules al userAddresses args [] = Inr ()"
| "check_param_rules al userAddresses args (pr # prs) =
     (if pr_Index pr < 0 \<or> int (length args) \<le> pr_Index pr
      then Inl (''parameter index '' @ itoa (pr_Index pr) @ '' out of range (function has ''
                @ itoa (int (length args)) @ '' parameters)'')
      else if pr_MustBe pr = ''self''
      then (case args ! nat (pr_Index pr) of
              AbiAddress addr \<Rightarrow>
                if \<not> addressMatchesAny al addr userAddresses
                then Inl (''parameter '' @ itoa (pr_Index pr) @ '': address '' @ al_Hex al addr
                          @ '' is not a linked address'')
                else check_param_rules al userAddresses args prs
            | v \<Rightarrow> Inl (''parameter '' @ itoa (pr_Index pr) @ '': expected address type, got '' @ go_type_name v))
      else Inl (''unknown constraint type: '' @ pr_MustBe pr))"

definition ValidateParamRules ::
  "abi_lib \<Rightarrow> function_rule option \<Rightarrow> bytes \<Rightarrow> string \<Rightarrow> string list \<Rightarrow> unit res" where
  "ValidateParamRules al rule calldata contractABI userAddresses =
     (case rule of
        None \<Rightarrow> Inr ()
      | Some rule \<Rightarrow>
          if fr_ParamRules rule = [] then Inr ()
          else if contractABI = '''' then Inl ''contract ABI required for parameter constraints''
          else if userAddresses = [] then Inl ''ETH address linking required for parameter constraints''
          else (case al_JSON al contractABI of
                  Inl e \<Rightarrow> Inl (''failed to parse contract ABI: '' @ e)
                | Inr parsed \<Rightarrow>
                    if length calldata < 4
                    then Inl ''calldata too short: need at least 4 bytes for function selector''
                    else (case abi_MethodById parsed (take 4 calldata) of
                            Inl e \<Rightarrow> Inl (''failed to find method by selector: '' @ e)
                          | Inr inputs \<Rightarrow>
                              let calldataSelector = ''0x'' @ encode_hex (take 4 calldata) in
                              if \<not> equal_fold calldataSelector (fr_Selector rule)
                              then Inl (''calldata selector '' @ calldataSelector
                                        @ '' does not match rule selector '' @ fr_Selector rule)
                              else (case al_Unpack al inputs (drop 4 calldata) of
                                      Inl e \<Rightarrow> Inl (''failed to unpack arguments: '' @ e)
                                    | Inr args \<Rightarrow>
                                        check_param_rules al userAddresses args (fr_ParamRules rule)))))"

section \<open>Lemmas\<close>

lemma check_param_rules_ok:
  "check_param_rules al us args prs = Inr () \<longleftrightarrow>
     (\<forall>pr \<in> set prs. 0 \<le> pr_Index pr \<and> pr_Index pr < int (length args) \<and> pr_MustBe pr = ''self''
        \<and> (\<exists>addr. args ! nat (pr_Index pr) = AbiAddress addr \<and> addressMatchesAny al addr us))"
  by (induction prs) (auto split: abi_value.splits if_splits)

lemma ValidateParamRules_ok:
  assumes "ValidateParamRules al (Some rule) cd abi us = Inr ()" "fr_ParamRules rule \<noteq> []"
  shows "\<exists>parsed inputs args. al_JSON al abi = Inr parsed \<and> 4 \<le> length cd
     \<and> abi_MethodById parsed (take 4 cd) = Inr inputs
     \<and> equal_fold (''0x'' @ encode_hex (take 4 cd)) (fr_Selector rule)
     \<and> al_Unpack al inputs (drop 4 cd) = Inr args
     \<and> (\<forall>pr \<in> set (fr_ParamRules rule). 0 \<le> pr_Index pr \<and> pr_Index pr < int (length args)
          \<and> pr_MustBe pr = ''self''
          \<and> (\<exists>addr. args ! nat (pr_Index pr) = AbiAddress addr \<and> addressMatchesAny al addr us))"
  using assms
  by (auto simp: ValidateParamRules_def Let_def check_param_rules_ok split: sum.splits if_splits)

end
