(* ===== verification/Access_Control.thy ===== *)
theory Access_Control
  imports Org_Context Upgrade_Validator Param_Validator
begin

text \<open>
  The access decision: \<^verbatim>\<open>CheckAccess\<close> of \<^verbatim>\<open>internal/rbac/access.go\<close> and its phases, in the
  order of the source. A helper that returns \<^verbatim>\<open>(result, handled, err)\<close> is a function into
  \<^verbatim>\<open>phase\<close>: it either decides the request or lets the next phase run. The controller (its
  permission caches and the cached anonymous access row) is threaded through.
\<close>

datatype 'a phase = Decided "access_check_result res" | Next 'a

definition deny :: "string \<Rightarrow> access_check_result" where
  "deny reason =
     \<lparr>acx_Allowed = False, acx_AuthRequired = False, acx_Reason = reason, acx_OrgID = '''',
      acx_UserID = '''', acx_RPCAPIKey = '''', acx_Claims = []\<rparr>"

definition deny_auth :: "string \<Rightarrow> access_check_result" where
  "deny_auth reason = (deny reason)\<lparr>acx_AuthRequired := True\<rparr>"

section \<open>Phases before the organization is known\<close>

definition checkGlobalBlocks :: "registries \<Rightarrow> access_check_request \<Rightarrow> access_check_result option" where
  "checkGlobalBlocks reg req =
     (if IsMethodBlocked (acr_Method req)
      then Some (deny (''method '' @ acr_Method req @ '' is globally blocked for security reasons''))
      else if \<not> IsForwardableMethod reg (CanonicalizeMethod (acr_Method req))
      then Some (deny (''method '' @ acr_Method req @ '' is not supported''))
      else case find (\<lambda>m. fst (DetectMulticall m (acr_Params req))) (methodsToJudge req) of
             Some m \<Rightarrow> Some (deny (snd (DetectMulticall m (acr_Params req))))
           | None \<Rightarrow> None)"

definition checkStateOverrides :: "registries \<Rightarrow> access_check_request \<Rightarrow> access_check_result option" where
  "checkStateOverrides reg req =
     (if list_ex (\<lambda>m. fst (DetectStateOverride reg m (acr_Params req))) [acr_Method req, EffectiveMethod req]
      then Some (deny StateOverrideDeniedReason)
      else None)"

definition getAnonymousAccessCached :: "env \<Rightarrow> access_controller \<Rightarrow> group_access option res \<times> access_controller" where
  "getAnonymousAccessCached en c =
     (if ac_anonAccess c \<noteq> None \<and> en_now en < ac_anonAccessExpires c then (Inr (ac_anonAccess c), c)
      else case st_GetGroupAccess (en_store en) AnonymousGroupID of
             Inl e \<Rightarrow> (Inl e, c)
           | Inr access \<Rightarrow>
               (Inr access,
                c\<lparr>ac_anonAccess := access, ac_anonAccessExpires := en_now en + ac_anonAccessCacheTTL c\<rparr>))"

definition InvalidateAnonymousAccess :: "access_controller \<Rightarrow> access_controller" where
  "InvalidateAnonymousAccess c = c\<lparr>ac_anonAccess := None, ac_anonAccessExpires := 0\<rparr>"

definition checkAnonymousAccess ::
  "env \<Rightarrow> access_controller \<Rightarrow> access_check_request \<Rightarrow> access_check_result res \<times> access_controller" where
  "checkAnonymousAccess en c req =
     (if fst (historicalStateQuery req) then (Inr (deny (snd (historicalStateQuery req))), c)
      else if \<not> IsCatalogMethod (CanonicalizeMethod (acr_Method req))
      then (Inr (deny_auth ''authentication required for this operation''), c)
      else case getAnonymousAccessCached en c of
        (Inl e, c') \<Rightarrow> (Inl (''failed to load anonymous group access: '' @ e), c')
      | (Inr None, c') \<Rightarrow> (Inr (deny_auth ''anonymous access not configured''), c')
      | (Inr (Some anonAccess), c') \<Rightarrow>
          (let methodLower = norm_addr (acr_Method req) in
           if \<not> list_ex (\<lambda>allowed. to_lower allowed = methodLower) (ga_AllowedMethods anonAccess)
           then (Inr (deny_auth ''authentication required for this operation''), c')
           else if anyMethodToJudge req (\<lambda>m. IsContractDeployment m (acr_Params req))
           then (Inr (deny_auth ''deployment requires authentication''), c')
           else if anyMethodToJudge req isStorageReadMethod
           then (Inr (deny_auth ''storage reads require authentication''), c')
           else (Inr ((deny '''')\<lparr>acx_Allowed := True\<rparr>), c')))"

definition resolveAndValidateUser :: "env \<Rightarrow> access_check_request \<Rightarrow> user phase" where
  "resolveAndValidateUser en req =
     (case st_GetUserByExternalID (en_store en) (acr_UserExternalID req) of
        Inl e \<Rightarrow> Decided (Inl (''failed to get user: '' @ e))
      | Inr None \<Rightarrow> Decided (Inr (deny ''access denied''))
      | Inr (Some usr) \<Rightarrow>
          if usr_Banned usr then Decided (Inr (deny ''user is banned''))
          else if \<not> usr_KYC usr \<and> norm_addr (acr_Method req) \<notin> set orgFreeMetadataMethods
          then Decided (Inr (deny ''KYC verification required''))
          else Next usr)"

definition checkHistoricalStateQuery :: "env \<Rightarrow> access_check_request \<Rightarrow> user \<Rightarrow> unit phase" where
  "checkHistoricalStateQuery en req usr =
     (if fst (historicalStateQuery req)
      then (case st_IsOrgAdmin (en_store en) of
              None \<Rightarrow> Next ()
            | Some isOrgAdmin \<Rightarrow>
                (case isOrgAdmin (usr_ID usr) of
                   Inl e \<Rightarrow> Decided (Inl (''failed to check admin status for historical query: '' @ e))
                 | Inr (isAdmin, _) \<Rightarrow>
                     if \<not> isAdmin then Decided (Inr (deny (snd (historicalStateQuery req)))) else Next ()))
      else Next ())"

definition callerOrgForDenial :: "env \<Rightarrow> access_check_request \<Rightarrow> user \<Rightarrow> string" where
  "callerOrgForDenial en req usr =
     (case st_ListActiveUserMembershipsWithDetails (en_store en) (usr_ID usr) of
        Inl _ \<Rightarrow> ''''
      | Inr memberships \<Rightarrow>
          (let orgIDs = fold (\<lambda>m ids. if grp_OrgID (mwd_Group m) \<noteq> '''' then add_member (grp_OrgID (mwd_Group m)) ids else ids)
                             memberships []
           in if acr_OrgID req \<noteq> '''' \<and> acr_OrgID req \<in> set orgIDs then acr_OrgID req
              else (case orgIDs of [orgID] \<Rightarrow> orgID | _ \<Rightarrow> '''')))"

text \<open>The two explicit ways to name the organization (by id, by slug) differ only in the lookup.\<close>

definition requested_org ::
  "string \<Rightarrow> organization option res \<Rightarrow> org_context \<Rightarrow> (organization \<times> org_context) phase" where
  "requested_org err lookup orgCtx =
     (case lookup of
        Inl e \<Rightarrow> Decided (Inl (err @ e))
      | Inr None \<Rightarrow> Decided (Inr (deny ''access denied''))
      | Inr (Some org) \<Rightarrow>
          if org_ID org \<notin> set (oc_userOrgIDs orgCtx) then Decided (Inr (deny ''access denied''))
          else Next (org, orgCtx))"

definition resolveOrgContextForRequest ::
  "env \<Rightarrow> access_check_request \<Rightarrow> user \<Rightarrow> (organization \<times> org_context) phase" where
  "resolveOrgContextForRequest en req usr =
     (case NewOrgContext en usr (norm_addr (acr_TargetAddress req)) of
        Inl _ \<Rightarrow>
          Decided (Inr ((deny ErrContractAccessDenied)
            \<lparr>acx_OrgID := callerOrgForDenial en req usr, acx_UserID := usr_ID usr\<rparr>))
      | Inr orgCtx \<Rightarrow>
          if oc_userOrgIDs orgCtx = [] then Decided (Inr (deny ''user has no organization membership''))
          else if acr_OrgID req \<noteq> ''''
          then requested_org ''failed to get organization by ID: ''
                 (st_GetOrganization (en_store en) (acr_OrgID req)) orgCtx
          else if acr_OrgSlug req \<noteq> '''' \<and> acr_OrgSlug req \<noteq> ''default''
          then requested_org ''failed to get organization by slug: ''
                 (st_GetOrganizationBySlug (en_store en) (acr_OrgSlug req)) orgCtx
          else (case oc_org orgCtx of
                  Some org \<Rightarrow> Next (org, orgCtx)
                | None \<Rightarrow>
                    (case oc_userOrgIDs orgCtx of
                       [singleOrgID] \<Rightarrow>
                         (case st_GetOrganization (en_store en) singleOrgID of
                            Inl e \<Rightarrow> Decided (Inl (''failed to get organization: '' @ e))
                          | Inr None \<Rightarrow> Decided (Inr (deny ''access denied''))
                          | Inr (Some org) \<Rightarrow> Next (org, orgCtx))
                     | _ \<Rightarrow> Decided (Inr (deny ''multiple organizations: use /rpc/:org_id to specify which org'')))))"

section \<open>Phases with the organization resolved\<close>

definition collectAllClaims :: "effective_permissions \<Rightarrow> claim list" where
  "collectAllClaims perms =
     remdups (ep_Claims perms @ concat (map (\<lambda>(_, access). ca_Claims access) (ep_ContractAccess perms)))"

definition allow_with :: "organization \<Rightarrow> user \<Rightarrow> effective_permissions \<Rightarrow> access_check_result" where
  "allow_with org usr perms =
     \<lparr>acx_Allowed = True, acx_AuthRequired = False, acx_Reason = '''', acx_OrgID = org_ID org,
      acx_UserID = usr_ID usr, acx_RPCAPIKey = ep_RPCAPIKey perms, acx_Claims = collectAllClaims perms\<rparr>"

definition checkMethodAllowed :: "registries \<Rightarrow> access_check_request \<Rightarrow> effective_permissions \<Rightarrow> access_check_result option" where
  "checkMethodAllowed reg req perms =
     (if \<not> HasMethod reg perms (acr_Method req)
      then Some (deny (''method '' @ acr_Method req @ '' not allowed'')) else None)"

fun check_logs_addresses ::
  "env \<Rightarrow> effective_permissions \<Rightarrow> org_context \<Rightarrow> string list \<Rightarrow> unit res" where
  "check_logs_addresses en perms orgCtx [] = Inr ()"
| "check_logs_addresses en perms orgCtx (addr # addrs) =
     (let hasExplicitAccess = IsContractRegistered perms addr;
          verify = (case CheckDefaultClaimsAllowed en orgCtx addr hasExplicitAccess of
                      Inl _ \<Rightarrow> Inl (''eth_getLogs: '' @ ErrContractAccessDenied)
                    | Inr _ \<Rightarrow>
                        (case GetContractAccess perms addr of
                           None \<Rightarrow> Inl (''eth_getLogs: '' @ ErrContractAccessDenied)
                         | Some _ \<Rightarrow> check_logs_addresses en perms orgCtx addrs))
      in if hasExplicitAccess then verify
         else case st_GetContractOwnerOrgID (en_store en) addr of
           Inl e \<Rightarrow> Inl (''eth_getLogs: failed to check contract owner: '' @ e)
         | Inr ownerOrgID \<Rightarrow>
             if ownerOrgID = ''''
             then (if \<not> IsPrecompileAddress addr then Inl (''eth_getLogs: '' @ ErrContractAccessDenied)
                   else check_logs_addresses en perms orgCtx addrs)
             else verify)"

definition validateGetLogsWithOrgContext ::
  "env \<Rightarrow> effective_permissions \<Rightarrow> org_context \<Rightarrow> json list \<Rightarrow> unit res" where
  "validateGetLogsWithOrgContext en perms orgCtx params =
     (case params of
        [] \<Rightarrow> Inl ''eth_getLogs: missing filter parameter''
      | p # _ \<Rightarrow>
          (case as_obj p of
             None \<Rightarrow> Inl ''eth_getLogs: invalid filter parameter type''
           | Some filterObj \<Rightarrow>
               let addresses = extractGetLogsAddresses filterObj in
               if addresses = [] then Inl ''eth_getLogs: address filter required for security''
               else (case CheckMultiAddressesInScope en orgCtx addresses of
                       Inl e \<Rightarrow> Inl (''eth_getLogs: '' @ e)
                     | Inr _ \<Rightarrow> check_logs_addresses en perms orgCtx addresses)))"

definition checkEthGetLogsAccess ::
  "env \<Rightarrow> access_check_request \<Rightarrow> user \<Rightarrow> organization \<Rightarrow> org_context \<Rightarrow> effective_permissions
     \<Rightarrow> access_check_result option" where
  "checkEthGetLogsAccess en req usr org orgCtx perms =
     (if EffectiveMethod req = ''eth_getLogs''
      then (case validateGetLogsWithOrgContext en perms orgCtx (acr_Params req) of
              Inl e \<Rightarrow> Some (deny e)
            | Inr _ \<Rightarrow> Some (allow_with org usr perms))
      else None)"

definition classifyValueTransferCarveout ::
  "env \<Rightarrow> access_check_request \<Rightarrow> user \<Rightarrow> organization \<Rightarrow> org_context \<Rightarrow> effective_permissions \<Rightarrow> claim
     \<Rightarrow> org_context phase" where
  "classifyValueTransferCarveout en req usr org orgCtx perms requiredClaim =
     (if (EffectiveMethod req = ''eth_sendTransaction'' \<or> EffectiveMethod req = ''eth_estimateGas'')
         \<and> acr_TargetAddress req \<noteq> '''' \<and> isValueTransferParams (acr_Params req)
         \<and> \<not> IsContractRegistered perms (to_lower (acr_TargetAddress req))
      then (case OwnerOrgID en orgCtx (to_lower (acr_TargetAddress req)) of
              (Inl e, _) \<Rightarrow> Decided (Inl (''failed to check address ownership: '' @ e))
            | (Inr ownerOrgID, orgCtx') \<Rightarrow>
                if ownerOrgID = ''''
                then (if requiredClaim \<noteq> '''' \<and> \<not> hasClaim (ep_Claims perms) requiredClaim
                      then Decided (Inr (deny ''access denied''))
                      else Decided (Inr (allow_with org usr perms)))
                else Next orgCtx')
      else Next orgCtx)"

definition classifyBasicAddressQueryCarveout ::
  "env \<Rightarrow> access_check_request \<Rightarrow> user \<Rightarrow> organization \<Rightarrow> org_context \<Rightarrow> effective_permissions
     \<Rightarrow> org_context phase" where
  "classifyBasicAddressQueryCarveout en req usr org orgCtx perms =
     (if acr_TargetAddress req \<noteq> '''' \<and> isBasicAddressQuery (EffectiveMethod req)
         \<and> \<not> anyMethodToJudge req isStorageReadMethod
         \<and> \<not> IsContractRegistered perms (to_lower (acr_TargetAddress req))
      then (case OwnerOrgID en orgCtx (to_lower (acr_TargetAddress req)) of
              (Inl e, _) \<Rightarrow> Decided (Inl (''failed to check address ownership: '' @ e))
            | (Inr ownerOrgID, orgCtx') \<Rightarrow>
                if ownerOrgID = '''' then Decided (Inr (allow_with org usr perms)) else Next orgCtx')
      else Next orgCtx)"

section \<open>The contract gate\<close>

definition validateStorageReadAccess :: "access_check_request \<Rightarrow> contract_access \<Rightarrow> access_check_result option" where
  "validateStorageReadAccess req access =
     (if \<not> anyMethodToJudge req isStorageReadMethod \<or> hasClaim (ca_Claims access) ClaimAdmin then None
      else if list_ex (\<lambda>method.
                isStorageReadMethod method
                \<and> (case requestedStorageKeys method (acr_Params req) of
                     None \<Rightarrow> True
                   | Some keys \<Rightarrow> list_ex (\<lambda>key. \<not> IsWellKnownStorageSlot key) keys)) (methodsToJudge req)
      then Some (deny ErrContractAccessDenied)
      else None)"

definition validateFunctionSelector ::
  "env \<Rightarrow> access_check_request \<Rightarrow> organization \<Rightarrow> contract_access \<Rightarrow> unit phase" where
  "validateFunctionSelector en req org access =
     (if acr_FunctionSelector req \<noteq> ''''
      then
        if \<not> accessHasFunctionSelector (Some access) (acr_FunctionSelector req)
        then Decided (Inr (deny (''function '' @ acr_FunctionSelector req @ '' not allowed on contract ''
                                 @ acr_TargetAddress req)))
        else case accessGetFunctionRule (Some access) (acr_FunctionSelector req) of
          None \<Rightarrow> Next ()
        | Some rule \<Rightarrow>
            if fr_ParamRules rule = [] then Next ()
            else case (case acr_Calldata req of
                         Some cd \<Rightarrow> Some cd
                       | None \<Rightarrow> extractCalldata (EffectiveMethod req) (acr_Params req)) of
              None \<Rightarrow> Decided (Inr (deny ''calldata required for parameter constraint validation''))
            | Some calldata \<Rightarrow>
                (case st_GetLinkedEthAddresses (en_store en) (acr_UserExternalID req) of
                   Inl e \<Rightarrow> Decided (Inl (''failed to get linked ETH addresses: '' @ e))
                 | Inr userAddresses \<Rightarrow>
                     (case st_GetContractByAddress (en_store en) (org_ID org) (to_lower (acr_TargetAddress req)) of
                        Inl e \<Rightarrow> Decided (Inl (''failed to get contract: '' @ e))
                      | Inr contr \<Rightarrow>
                          (case ValidateParamRules (en_abi en) (Some rule) calldata
                                  (case contr of None \<Rightarrow> '''' | Some k \<Rightarrow> con_ABI k) userAddresses of
                             Inl e \<Rightarrow> Decided (Inr (deny (''parameter constraint violation on ''
                                                         @ acr_TargetAddress req @ '': '' @ e)))
                           | Inr _ \<Rightarrow> Next ())))
      else if EffectiveMethod req \<in> {''eth_call'', ''eth_estimateGas'', ''eth_sendTransaction''}
              \<and> ca_Functions access \<noteq> None
      then Decided (Inr (deny (''function selector required: contract '' @ acr_TargetAddress req
                               @ '' has function-level restrictions'')))
      else Next ())"

definition validateProxyUpgrade ::
  "env \<Rightarrow> access_check_request \<Rightarrow> organization \<Rightarrow> contract_access \<Rightarrow> unit phase" where
  "validateProxyUpgrade en req org access =
     (let addr = to_lower (acr_TargetAddress req);
          calldata = (case extractCalldata (EffectiveMethod req) (acr_Params req) of Some cd \<Rightarrow> cd | None \<Rightarrow> [])
      in if calldata = [] then Next ()
         else if 4 \<le> length calldata \<and> IsUpgradeSelector (encode_hex (take 4 calldata))
                 \<and> \<not> hasClaim (ca_Claims access) ClaimUpgrade
         then Decided (Inr (deny ErrContractAccessDenied))
         else case ValidateUpgrade (en_store en) (org_ID org) addr calldata of
           Inl e \<Rightarrow> Decided (Inl (''failed to validate upgrade: '' @ e))
         | Inr upgradeResult \<Rightarrow>
             if \<not> uvr_Allowed upgradeResult
             then Decided (Inr (deny (''proxy upgrade denied: '' @ uvr_Reason upgradeResult)))
             else Next ())"

text \<open>
  The access a request has on its target, as \<^verbatim>\<open>validateContractAccess\<close> resolves it in three
  steps: the permissions' own entry (default claims kept only for an address of no foreign
  organization), a pre-registered address of one of the user's organizations, and the deployer.
\<close>

definition default_access_step ::
  "env \<Rightarrow> org_context \<Rightarrow> string \<Rightarrow> bool \<Rightarrow> contract_access option
     \<Rightarrow> (contract_access option \<times> string option \<times> org_context) res" where
  "default_access_step en orgCtx addr hasExplicitAccess access =
     (if access \<noteq> None \<and> \<not> hasExplicitAccess
      then (case OwnerOrgID en orgCtx addr of
              (Inl e, _) \<Rightarrow> Inl (''failed to check address ownership: '' @ e)
            | (Inr ownerOrgID, orgCtx') \<Rightarrow>
                Inr (if ownerOrgID \<noteq> '''' \<and> ownerOrgID \<notin> set (oc_userOrgIDs orgCtx') then None else access,
                     Some ownerOrgID, orgCtx'))
      else Inr (access, None, orgCtx))"

definition preregistered_step ::
  "env \<Rightarrow> org_context \<Rightarrow> effective_permissions \<Rightarrow> string \<Rightarrow> string option \<Rightarrow> bool \<Rightarrow> contract_access option
     \<Rightarrow> (contract_access option \<times> bool \<times> org_context) res" where
  "preregistered_step en orgCtx perms addr fetched hasExplicitAccess access =
     (if access \<noteq> None then Inr (access, hasExplicitAccess, orgCtx)
      else case (case fetched of Some owner \<Rightarrow> (Inr owner, orgCtx) | None \<Rightarrow> OwnerOrgID en orgCtx addr) of
        (Inl e, _) \<Rightarrow> Inl (''failed to check address ownership: '' @ e)
      | (Inr ownerOrgID, orgCtx') \<Rightarrow>
          if ownerOrgID \<noteq> '''' \<and> ownerOrgID \<in> set (oc_userOrgIDs orgCtx')
          then (case st_IsAddressPreregistered (en_store en) ownerOrgID addr of
                  Inl e \<Rightarrow> Inl (''failed to check preregistered address: '' @ e)
                | Inr preregistered \<Rightarrow>
                    if preregistered \<and> (hasClaim (ep_Claims perms) ClaimDeploy \<or> hasClaim (ep_Claims perms) ClaimAdmin)
                    then Inr (Some \<lparr>ca_Claims = [ClaimDeploy], ca_Functions = None, ca_EventRules = None\<rparr>, True, orgCtx')
                    else Inr (None, hasExplicitAccess, orgCtx'))
          else Inr (None, hasExplicitAccess, orgCtx'))"

definition deployer_step ::
  "env \<Rightarrow> user \<Rightarrow> string \<Rightarrow> claim \<Rightarrow> bool \<Rightarrow> contract_access option \<Rightarrow> (contract_access option \<times> bool) res" where
  "deployer_step en usr addr requiredClaim hasExplicitAccess access =
     (if (case access of None \<Rightarrow> True | Some a \<Rightarrow> requiredClaim \<noteq> '''' \<and> \<not> hasClaim (ca_Claims a) requiredClaim)
      then (case st_GetContractDeployerByAddress (en_store en) addr of
              Inl e \<Rightarrow> Inl (''failed to check contract deployer: '' @ e)
            | Inr deployerID \<Rightarrow>
                if deployerID = Some (usr_ID usr)
                then Inr (Some (case access of
                                  None \<Rightarrow> \<lparr>ca_Claims = [], ca_Functions = None, ca_EventRules = None\<rparr>
                                | Some a \<Rightarrow> \<lparr>ca_Claims = remdups (ca_Claims a), ca_Functions = ca_Functions a,
                                            ca_EventRules = None\<rparr>), True)
                else Inr (access, hasExplicitAccess))
      else Inr (access, hasExplicitAccess))"

definition resolve_access ::
  "env \<Rightarrow> access_check_request \<Rightarrow> user \<Rightarrow> org_context \<Rightarrow> effective_permissions \<Rightarrow> claim
     \<Rightarrow> (contract_access option \<times> bool \<times> org_context) res" where
  "resolve_access en req usr orgCtx perms requiredClaim =
     (let addr = to_lower (acr_TargetAddress req);
          hasExplicitAccess = IsContractRegistered perms addr
      in case default_access_step en orgCtx addr hasExplicitAccess (GetContractAccess perms addr) of
           Inl e \<Rightarrow> Inl e
         | Inr (access, fetched, orgCtx) \<Rightarrow>
             (case preregistered_step en orgCtx perms addr fetched hasExplicitAccess access of
                Inl e \<Rightarrow> Inl e
              | Inr (access, hasExplicitAccess, orgCtx) \<Rightarrow>
                  (case deployer_step en usr addr requiredClaim hasExplicitAccess access of
                     Inl e \<Rightarrow> Inl e
                   | Inr (access, hasExplicitAccess) \<Rightarrow> Inr (access, hasExplicitAccess, orgCtx))))"

definition validateContractAccess ::
  "env \<Rightarrow> access_check_request \<Rightarrow> user \<Rightarrow> organization \<Rightarrow> org_context \<Rightarrow> effective_permissions \<Rightarrow> claim
     \<Rightarrow> unit phase" where
  "validateContractAccess en req usr org orgCtx perms requiredClaim =
     (case resolve_access en req usr orgCtx perms requiredClaim of
        Inl e \<Rightarrow> Decided (Inl e)
      | Inr (None, _, _) \<Rightarrow> Decided (Inr (deny ErrContractAccessDenied))
      | Inr (Some access, hasExplicitAccess, orgCtx) \<Rightarrow>
          (case CheckDefaultClaimsAllowed en orgCtx (to_lower (acr_TargetAddress req)) hasExplicitAccess of
             Inl e \<Rightarrow> Decided (Inr (deny e))
           | Inr _ \<Rightarrow>
               if requiredClaim \<noteq> '''' \<and> \<not> hasClaim (ca_Claims access) requiredClaim
               then Decided (Inr (deny ErrContractAccessDenied))
               else case validateStorageReadAccess req access of
                 Some res \<Rightarrow> Decided (Inr res)
               | None \<Rightarrow>
                   (case validateFunctionSelector en req org access of
                      Decided r \<Rightarrow> Decided r
                    | Next _ \<Rightarrow>
                        if EffectiveMethod req = ''eth_sendTransaction''
                        then validateProxyUpgrade en req org access
                        else Next ())))"

section \<open>The whole check\<close>

definition validateDeploymentWithoutTarget ::
  "access_check_request \<Rightarrow> user \<Rightarrow> organization \<Rightarrow> effective_permissions \<Rightarrow> access_check_result" where
  "validateDeploymentWithoutTarget req usr org perms =
     (if \<not> hasClaim (ep_Claims perms) ClaimDeploy then deny ''access denied''
      else if ClassifyCallShape (acr_Params req) = CallShapeMalformed then deny ''malformed transaction object''
      else if extractDeploymentBytecode (EffectiveMethod req) (acr_Params req) = ''''
      then deny ''contract deployment missing bytecode''
      else allow_with org usr perms)"

definition checkAdditionalRequiredClaims ::
  "access_check_request \<Rightarrow> effective_permissions \<Rightarrow> access_check_result option" where
  "checkAdditionalRequiredClaims req perms =
     (if list_ex (\<lambda>claim. \<not> list_ex (\<lambda>(_, access). hasClaim (ca_Claims access) claim) (ep_ContractAccess perms)
                         \<and> \<not> hasClaim (ep_Claims perms) claim) (acr_RequiredClaims req)
      then Some (deny ''access denied'') else None)"

definition decide_with_permissions ::
  "env \<Rightarrow> access_check_request \<Rightarrow> user \<Rightarrow> organization \<Rightarrow> org_context \<Rightarrow> effective_permissions
     \<Rightarrow> access_check_result res" where
  "decide_with_permissions en req usr org orgCtx perms =
     (case checkMethodAllowed (en_registries en) req perms of
        Some res \<Rightarrow> Inr res
      | None \<Rightarrow>
     (case checkEthGetLogsAccess en req usr org orgCtx perms of
        Some res \<Rightarrow> Inr res
      | None \<Rightarrow>
     (let requiredClaim = ClassifyOperation (EffectiveMethod req) (acr_Params req) in
      if acr_TargetAddress req = '''' \<and> anyMethodToJudge req isStorageReadMethod
      then Inr (deny ErrContractAccessDenied)
      else if requiredClaim = ClaimDeploy then Inr (validateDeploymentWithoutTarget req usr org perms)
      else
     (case classifyValueTransferCarveout en req usr org orgCtx perms requiredClaim of
        Decided r \<Rightarrow> r
      | Next orgCtx \<Rightarrow>
     (case classifyBasicAddressQueryCarveout en req usr org orgCtx perms of
        Decided r \<Rightarrow> r
      | Next orgCtx \<Rightarrow>
     (case (if acr_TargetAddress req \<noteq> ''''
            then validateContractAccess en req usr org orgCtx perms requiredClaim else Next ()) of
        Decided r \<Rightarrow> r
      | Next _ \<Rightarrow>
     (case checkAdditionalRequiredClaims req perms of
        Some res \<Rightarrow> Inr res
      | None \<Rightarrow> Inr (allow_with org usr perms))))))))"

definition checkWithResolvedOrg ::
  "env \<Rightarrow> access_controller \<Rightarrow> access_check_request \<Rightarrow> user \<Rightarrow> organization \<Rightarrow> org_context
     \<Rightarrow> access_check_result res \<times> access_controller" where
  "checkWithResolvedOrg en c req usr org orgCtx =
     (case resolvePermissionsForRequest en c req usr org of
        (Inl e, c') \<Rightarrow> (Inl e, c')
      | (Inr perms, c') \<Rightarrow> (decide_with_permissions en req usr org orgCtx perms, c'))"

definition attribute :: "user \<Rightarrow> organization \<Rightarrow> access_check_result \<Rightarrow> access_check_result" where
  "attribute usr org r =
     r\<lparr>acx_OrgID := (if acx_OrgID r = '''' then org_ID org else acx_OrgID r),
       acx_UserID := (if acx_UserID r = '''' then usr_ID usr else acx_UserID r)\<rparr>"

definition CheckAccess ::
  "env \<Rightarrow> access_controller \<Rightarrow> access_check_request \<Rightarrow> access_check_result res \<times> access_controller" where
  "CheckAccess en c req =
     (case checkGlobalBlocks (en_registries en) req of
        Some res \<Rightarrow> (Inr res, c)
      | None \<Rightarrow>
     (case checkStateOverrides (en_registries en) req of
        Some res \<Rightarrow> (Inr res, c)
      | None \<Rightarrow>
     (if acr_UserExternalID req = '''' then checkAnonymousAccess en c req
      else case resolveAndValidateUser en req of
        Decided r \<Rightarrow> (r, c)
      | Next usr \<Rightarrow>
     (case checkHistoricalStateQuery en req usr of
        Decided r \<Rightarrow> (r, c)
      | Next _ \<Rightarrow>
     (if norm_addr (acr_Method req) \<in> set orgFreeMetadataMethods
      then (Inr ((deny '''')\<lparr>acx_Allowed := True, acx_UserID := usr_ID usr\<rparr>), c)
      else case resolveOrgContextForRequest en req usr of
        Decided r \<Rightarrow> (r, c)
      | Next (org, orgCtx) \<Rightarrow>
     (case checkWithResolvedOrg en c req usr org orgCtx of
        (Inl e, c') \<Rightarrow> (Inl e, c')
      | (Inr r, c') \<Rightarrow> (Inr (attribute usr org r), c')))))))"

definition storage_probe :: "string \<Rightarrow> string \<Rightarrow> string \<Rightarrow> bool \<Rightarrow> access_check_request" where
  "storage_probe userExternalID orgID addr bypassCache =
     \<lparr>acr_UserExternalID = userExternalID, acr_OrgSlug = '''', acr_OrgID = orgID,
       acr_Method = MethodGetStorageAt, acr_AccessMethod = '''',
       acr_Params = [JStr addr, JStr PrivateStorageSlot, JStr ''latest''],
       acr_TargetAddress = addr, acr_FunctionSelector = '''', acr_Calldata = None,
       acr_RequiredClaims = [], acr_BypassCache = bypassCache\<rparr>"

definition CanReadPrivateStorage ::
  "env \<Rightarrow> access_controller \<Rightarrow> string \<Rightarrow> string \<Rightarrow> string \<Rightarrow> bool \<Rightarrow> bool res \<times> access_controller" where
  "CanReadPrivateStorage en c userExternalID orgID addr bypassCache =
     (case CheckAccess en c (storage_probe userExternalID orgID addr bypassCache) of
        (Inl e, c') \<Rightarrow> (Inl e, c')
      | (Inr res, c') \<Rightarrow> (Inr (acx_Allowed res \<and> acx_OrgID res = orgID), c'))"

section \<open>Lemmas\<close>

subsection \<open>Gates that only deny\<close>

text \<open>
  Most phases can only refuse a request or pass it on. The contract of such a gate, and what an
  allowed request says about it.
\<close>

locale deny_only_gate =
  fixes gate :: "'i \<Rightarrow> 'o phase"
  assumes denies: "gate i = Decided (Inr r) \<Longrightarrow> \<not> acx_Allowed r"
begin

lemma passes:
  assumes "(case gate i of Decided q \<Rightarrow> q | Next x \<Rightarrow> k x) = Inr r" "acx_Allowed r"
  shows "\<exists>x. gate i = Next x \<and> k x = Inr r"
  using assms denies by (cases "gate i") auto

lemma passes_with:
  assumes "(case gate i of Decided q \<Rightarrow> (q, c) | Next x \<Rightarrow> k x) = (Inr r, c')" "acx_Allowed r"
  shows "\<exists>x. gate i = Next x \<and> k x = (Inr r, c')"
  using assms denies by (cases "gate i") auto

end

lemma deny_simps [simp]:
  "acx_Allowed (deny s) = False" "acx_Allowed (deny_auth s) = False" "acx_Allowed (allow_with org usr p) = True"
  "acx_OrgID (deny s) = ''''" "acx_UserID (deny s) = ''''" "acx_Reason (deny s) = s"
  "acx_OrgID (deny_auth s) = ''''" "acx_UserID (deny_auth s) = ''''"
  "acx_OrgID (allow_with org usr p) = org_ID org" "acx_UserID (allow_with org usr p) = usr_ID usr"
  by (simp_all add: deny_def deny_auth_def allow_with_def)

interpretation user_gate: deny_only_gate "resolveAndValidateUser en" for en
  by unfold_locales (auto simp: resolveAndValidateUser_def split: sum.splits option.splits if_splits)

interpretation historical_gate: deny_only_gate "checkHistoricalStateQuery en req" for en req
  by unfold_locales (auto simp: checkHistoricalStateQuery_def split: sum.splits option.splits if_splits)

interpretation org_gate: deny_only_gate "resolveOrgContextForRequest en req" for en req
proof
  have req: "requested_org e l oc = Decided (Inr r) \<Longrightarrow> \<not> acx_Allowed r" for e l oc r
    by (auto simp: requested_org_def split: sum.splits option.splits if_splits)
  show "resolveOrgContextForRequest en req usr = Decided (Inr r) \<Longrightarrow> \<not> acx_Allowed r" for usr r
    by (auto simp: resolveOrgContextForRequest_def split: sum.splits option.splits if_splits list.splits dest: req)
qed

lemma validateFunctionSelector_denies:
  "validateFunctionSelector en req org access = Decided (Inr r) \<Longrightarrow> \<not> acx_Allowed r"
  by (auto simp: validateFunctionSelector_def split: sum.splits option.splits if_splits)

lemma validateProxyUpgrade_denies:
  "validateProxyUpgrade en req org access = Decided (Inr r) \<Longrightarrow> \<not> acx_Allowed r"
  by (auto simp: validateProxyUpgrade_def Let_def split: sum.splits option.splits if_splits)

lemma validateStorageReadAccess_denies:
  "validateStorageReadAccess req access = Some r \<Longrightarrow> \<not> acx_Allowed r"
  by (auto simp: validateStorageReadAccess_def split: if_splits)

interpretation contract_gate: deny_only_gate "validateContractAccess en req usr org oc perms" for en req usr org oc perms
  by unfold_locales
    (auto simp: validateContractAccess_def split: sum.splits option.splits if_splits phase.splits
      dest: validateFunctionSelector_denies validateProxyUpgrade_denies validateStorageReadAccess_denies)

subsection \<open>What an allowed request has passed\<close>

lemma checkGlobalBlocks_denies: "checkGlobalBlocks reg req = Some r \<Longrightarrow> \<not> acx_Allowed r"
  by (auto simp: checkGlobalBlocks_def split: if_splits option.splits)

lemma checkStateOverrides_denies: "checkStateOverrides reg req = Some r \<Longrightarrow> \<not> acx_Allowed r"
  by (auto simp: checkStateOverrides_def split: if_splits)

lemma attribute_allowed [simp]: "acx_Allowed (attribute usr org r) = acx_Allowed r"
  by (simp add: attribute_def)

lemma CheckAccess_passes:
  assumes "CheckAccess en c req = (Inr r, c')" "acx_Allowed r"
  shows "checkGlobalBlocks (en_registries en) req = None \<and> checkStateOverrides (en_registries en) req = None"
  using assms by (auto simp: CheckAccess_def split: option.splits
      dest: checkGlobalBlocks_denies checkStateOverrides_denies)

lemma CheckAccess_authenticated:
  assumes "CheckAccess en c req = (Inr r, c')" "acx_Allowed r" "acr_UserExternalID req \<noteq> ''''"
    and "norm_addr (acr_Method req) \<notin> set orgFreeMetadataMethods"
  shows "\<exists>usr org oc perms r0.
     resolveAndValidateUser en req = Next usr
     \<and> checkHistoricalStateQuery en req usr = Next ()
     \<and> resolveOrgContextForRequest en req usr = Next (org, oc)
     \<and> resolvePermissionsForRequest en c req usr org = (Inr perms, c')
     \<and> decide_with_permissions en req usr org oc perms = Inr r0
     \<and> acx_Allowed r0 \<and> r = attribute usr org r0"
proof -
  have "(case resolveAndValidateUser en req of
        Decided r \<Rightarrow> (r, c)
      | Next usr \<Rightarrow>
     (case checkHistoricalStateQuery en req usr of
        Decided r \<Rightarrow> (r, c)
      | Next _ \<Rightarrow>
     (case resolveOrgContextForRequest en req usr of
        Decided r \<Rightarrow> (r, c)
      | Next (org, orgCtx) \<Rightarrow>
     (case checkWithResolvedOrg en c req usr org orgCtx of
        (Inl e, c') \<Rightarrow> (Inl e, c')
      | (Inr r, c') \<Rightarrow> (Inr (attribute usr org r), c'))))) = (Inr r, c')"
    using assms(1) unfolding CheckAccess_def
    by (simp only: CheckAccess_passes [OF assms(1,2)] option.case if_not_P [OF assms(3)] if_not_P [OF assms(4)])
  from user_gate.passes_with [OF this assms(2)] obtain usr where usr: "resolveAndValidateUser en req = Next usr"
    and *: "(case checkHistoricalStateQuery en req usr of
        Decided r \<Rightarrow> (r, c)
      | Next _ \<Rightarrow>
     (case resolveOrgContextForRequest en req usr of
        Decided r \<Rightarrow> (r, c)
      | Next (org, orgCtx) \<Rightarrow>
     (case checkWithResolvedOrg en c req usr org orgCtx of
        (Inl e, c') \<Rightarrow> (Inl e, c')
      | (Inr r, c') \<Rightarrow> (Inr (attribute usr org r), c')))) = (Inr r, c')" by (elim exE conjE)
  from historical_gate.passes_with [OF * assms(2)] obtain u where hist: "checkHistoricalStateQuery en req usr = Next u"
    and *: "(case resolveOrgContextForRequest en req usr of
        Decided r \<Rightarrow> (r, c)
      | Next (org, orgCtx) \<Rightarrow>
     (case checkWithResolvedOrg en c req usr org orgCtx of
        (Inl e, c') \<Rightarrow> (Inl e, c')
      | (Inr r, c') \<Rightarrow> (Inr (attribute usr org r), c'))) = (Inr r, c')" by (elim exE conjE)
  from org_gate.passes_with [OF * assms(2)] obtain x where org: "resolveOrgContextForRequest en req usr = Next x"
    and *: "(case x of (org, orgCtx) \<Rightarrow>
     (case checkWithResolvedOrg en c req usr org orgCtx of
        (Inl e, c') \<Rightarrow> (Inl e, c')
      | (Inr r, c') \<Rightarrow> (Inr (attribute usr org r), c'))) = (Inr r, c')" by (elim exE conjE)
  obtain o' oc where x: "x = (o', oc)" by (cases x)
  from * obtain r0 where r0: "checkWithResolvedOrg en c req usr o' oc = (Inr r0, c')" "r = attribute usr o' r0"
    by (auto simp: x split: prod.splits sum.splits)
  from r0(1) obtain perms where p: "resolvePermissionsForRequest en c req usr o' = (Inr perms, c')"
    "decide_with_permissions en req usr o' oc perms = Inr r0"
    by (auto simp: checkWithResolvedOrg_def split: prod.splits sum.splits)
  show ?thesis
    using usr hist org x r0 p assms(2) by (intro exI [of _ usr] exI [of _ o'] exI [of _ oc] exI [of _ perms] exI [of _ r0]) simp
qed

abbreviation target_owner :: "env \<Rightarrow> access_check_request \<Rightarrow> string res" where
  "target_owner en req \<equiv> st_GetContractOwnerOrgID (en_store en) (norm_addr (acr_TargetAddress req))"

lemma OwnerOrgID_cases:
  assumes "memo_ok en oc"
  obtains v oc' where "OwnerOrgID en oc a = (v, oc')" "v = st_GetContractOwnerOrgID (en_store en) (norm_addr a)"
    "memo_ok en oc'" "oc_userOrgIDs oc' = oc_userOrgIDs oc"
  using OwnerOrgID_memo [OF assms, of a] OwnerOrgID_store [OF assms, of a] OwnerOrgID_orgs [of en oc a] that
  by (cases "OwnerOrgID en oc a") simp

lemma value_transfer_cases:
  assumes "memo_ok en oc"
  shows "case classifyValueTransferCarveout en req usr org oc perms rc of
      Next oc' \<Rightarrow> memo_ok en oc' \<and> oc_userOrgIDs oc' = oc_userOrgIDs oc
    | Decided (Inr r) \<Rightarrow> acx_Allowed r \<longrightarrow>
        acr_TargetAddress req \<noteq> '''' \<and> isValueTransferParams (acr_Params req) \<and> target_owner en req = Inr ''''
        \<and> EffectiveMethod req \<in> {''eth_sendTransaction'', ''eth_estimateGas''}
        \<and> \<not> IsContractRegistered perms (to_lower (acr_TargetAddress req))
    | _ \<Rightarrow> True"
proof -
  obtain v oc' where o: "OwnerOrgID en oc (to_lower (acr_TargetAddress req)) = (v, oc')" "v = target_owner en req"
    "memo_ok en oc'" "oc_userOrgIDs oc' = oc_userOrgIDs oc"
    using OwnerOrgID_cases [OF assms, of "to_lower (acr_TargetAddress req)"] by auto
  then show ?thesis
    using assms by (cases "target_owner en req") (auto simp: classifyValueTransferCarveout_def)
qed

lemma basic_query_cases:
  assumes "memo_ok en oc"
  shows "case classifyBasicAddressQueryCarveout en req usr org oc perms of
      Next oc' \<Rightarrow> memo_ok en oc' \<and> oc_userOrgIDs oc' = oc_userOrgIDs oc
    | Decided (Inr r) \<Rightarrow> acx_Allowed r \<longrightarrow>
        acr_TargetAddress req \<noteq> '''' \<and> isBasicAddressQuery (EffectiveMethod req) \<and> target_owner en req = Inr ''''
        \<and> \<not> anyMethodToJudge req isStorageReadMethod
        \<and> \<not> IsContractRegistered perms (to_lower (acr_TargetAddress req))
    | _ \<Rightarrow> True"
proof -
  obtain v oc' where o: "OwnerOrgID en oc (to_lower (acr_TargetAddress req)) = (v, oc')" "v = target_owner en req"
    "memo_ok en oc'" "oc_userOrgIDs oc' = oc_userOrgIDs oc"
    using OwnerOrgID_cases [OF assms, of "to_lower (acr_TargetAddress req)"] by auto
  then show ?thesis
    using assms by (cases "target_owner en req") (auto simp: classifyBasicAddressQueryCarveout_def)
qed

text \<open>The ways in which a request whose organization is resolved can be allowed.\<close>

datatype allowed_as =
    AsLogQuery
  | AsDeployment
  | AsValueTransfer
  | AsAddressQuery
  | AsContractCall
  | AsUntargeted

fun allowed_by ::
  "env \<Rightarrow> access_check_request \<Rightarrow> user \<Rightarrow> organization \<Rightarrow> org_context \<Rightarrow> effective_permissions \<Rightarrow> allowed_as \<Rightarrow> bool" where
  "allowed_by en req usr org oc perms AsLogQuery \<longleftrightarrow>
     EffectiveMethod req = ''eth_getLogs'' \<and> validateGetLogsWithOrgContext en perms oc (acr_Params req) = Inr ()"
| "allowed_by en req usr org oc perms AsDeployment \<longleftrightarrow>
     ClassifyOperation (EffectiveMethod req) (acr_Params req) = ClaimDeploy
     \<and> hasClaim (ep_Claims perms) ClaimDeploy \<and> ClassifyCallShape (acr_Params req) \<noteq> CallShapeMalformed
     \<and> extractDeploymentBytecode (EffectiveMethod req) (acr_Params req) \<noteq> ''''"
| "allowed_by en req usr org oc perms AsValueTransfer \<longleftrightarrow>
     acr_TargetAddress req \<noteq> '''' \<and> isValueTransferParams (acr_Params req) \<and> target_owner en req = Inr ''''
     \<and> EffectiveMethod req \<in> {''eth_sendTransaction'', ''eth_estimateGas''}
     \<and> \<not> IsContractRegistered perms (to_lower (acr_TargetAddress req))"
| "allowed_by en req usr org oc perms AsAddressQuery \<longleftrightarrow>
     acr_TargetAddress req \<noteq> '''' \<and> isBasicAddressQuery (EffectiveMethod req) \<and> target_owner en req = Inr ''''
     \<and> \<not> anyMethodToJudge req isStorageReadMethod
     \<and> \<not> IsContractRegistered perms (to_lower (acr_TargetAddress req))"
| "allowed_by en req usr org oc perms AsContractCall \<longleftrightarrow>
     acr_TargetAddress req \<noteq> ''''
     \<and> (\<exists>oc'. memo_ok en oc' \<and> oc_userOrgIDs oc' = oc_userOrgIDs oc
          \<and> validateContractAccess en req usr org oc' perms
              (ClassifyOperation (EffectiveMethod req) (acr_Params req)) = Next ())"
| "allowed_by en req usr org oc perms AsUntargeted \<longleftrightarrow>
     acr_TargetAddress req = '''' \<and> \<not> anyMethodToJudge req isStorageReadMethod"

lemma decide_allowed:
  assumes d: "decide_with_permissions en req usr org oc perms = Inr r" and r: "acx_Allowed r" and m: "memo_ok en oc"
  shows "HasMethod (en_registries en) perms (acr_Method req)
    \<and> (\<exists>as. allowed_by en req usr org oc perms as
         \<and> (ClassifyOperation (EffectiveMethod req) (acr_Params req) = ClaimDeploy \<longrightarrow> as \<in> {AsLogQuery, AsDeployment})
         \<and> (as = AsLogQuery \<longleftrightarrow> EffectiveMethod req = ''eth_getLogs''))"
proof -
  let ?rc = "ClassifyOperation (EffectiveMethod req) (acr_Params req)"
  have mok: "checkMethodAllowed (en_registries en) req perms = None"
    using d r by (auto simp: decide_with_permissions_def checkMethodAllowed_def split: if_splits)
  then have h: "HasMethod (en_registries en) perms (acr_Method req)"
    by (auto simp: checkMethodAllowed_def split: if_splits)
  show ?thesis
  proof (cases "EffectiveMethod req = ''eth_getLogs''")
    case True
    with d r mok have "allowed_by en req usr org oc perms AsLogQuery"
      by (auto simp: decide_with_permissions_def checkEthGetLogsAccess_def split: sum.splits)
    with h True show ?thesis by blast
  next
    case False
    have lg: "checkEthGetLogsAccess en req usr org oc perms = None"
      using False by (simp add: checkEthGetLogsAccess_def)
    have store: "\<not> (acr_TargetAddress req = '''' \<and> anyMethodToJudge req isStorageReadMethod)"
      using d r mok lg by (auto simp: decide_with_permissions_def)
    show ?thesis
    proof (cases "?rc = ClaimDeploy")
      case True
      with d r mok lg store have "allowed_by en req usr org oc perms AsDeployment"
        by (auto simp: decide_with_permissions_def validateDeploymentWithoutTarget_def split: if_splits)
      with h False show ?thesis by blast
    next
      case nd: False
      show ?thesis
      proof (cases "classifyValueTransferCarveout en req usr org oc perms ?rc")
        case (Decided q)
        then have "allowed_by en req usr org oc perms AsValueTransfer"
          using value_transfer_cases [OF m, where req = req and usr = usr and org = org and perms = perms and rc = ?rc] d r mok lg store nd
          by (auto simp: decide_with_permissions_def)
        with h False nd show ?thesis by blast
      next
        case v: (Next oc1)
        then have m1: "memo_ok en oc1" "oc_userOrgIDs oc1 = oc_userOrgIDs oc"
          using value_transfer_cases [OF m, where req = req and usr = usr and org = org and perms = perms and rc = ?rc] by simp_all
        show ?thesis
        proof (cases "classifyBasicAddressQueryCarveout en req usr org oc1 perms")
          case (Decided q)
          then have "allowed_by en req usr org oc perms AsAddressQuery"
            using basic_query_cases [OF m1(1), where req = req and usr = usr and org = org and perms = perms] d r mok lg store nd v
            by (auto simp: decide_with_permissions_def)
          with h False nd show ?thesis by blast
        next
          case b: (Next oc2)
          then have m2: "memo_ok en oc2" "oc_userOrgIDs oc2 = oc_userOrgIDs oc"
            using basic_query_cases [OF m1(1), where req = req and usr = usr and org = org and perms = perms] m1(2) by simp_all
          show ?thesis
          proof (cases "acr_TargetAddress req = ''''")
            case True
            with store have "allowed_by en req usr org oc perms AsUntargeted" by simp
            with h False nd show ?thesis by blast
          next
            case t: False
            have *: "(case validateContractAccess en req usr org oc2 perms ?rc of Decided q \<Rightarrow> q
                | Next _ \<Rightarrow> (case checkAdditionalRequiredClaims req perms of
                    Some res \<Rightarrow> Inr res | None \<Rightarrow> Inr (allow_with org usr perms))) = Inr r"
              using d mok lg store nd v b t by (auto simp: decide_with_permissions_def)
            from contract_gate.passes [OF * r] m2 t have "allowed_by en req usr org oc perms AsContractCall"
              by auto
            with h False nd show ?thesis by blast
          qed
        qed
      qed
    qed
  qed
qed

subsection \<open>Facts of the single phases\<close>

lemma resolveAndValidateUser_Next:
  "resolveAndValidateUser en req = Next usr \<Longrightarrow>
     st_GetUserByExternalID (en_store en) (acr_UserExternalID req) = Inr (Some usr) \<and> \<not> usr_Banned usr
     \<and> (usr_KYC usr \<or> norm_addr (acr_Method req) \<in> set orgFreeMetadataMethods)"
  by (auto simp: resolveAndValidateUser_def split: sum.splits option.splits if_splits)

text \<open>The store returns an organization under its own identifier.\<close>

definition org_lookup_ok :: "store \<Rightarrow> bool" where
  "org_lookup_ok st \<longleftrightarrow> (\<forall>i org. st_GetOrganization st i = Inr (Some org) \<longrightarrow> org_ID org = i)"

lemma NewOrgContext_org:
  assumes "NewOrgContext en usr t = Inr oc" "oc_org oc = Some org" "org_lookup_ok (en_store en)"
  shows "org_ID org \<in> set (oc_userOrgIDs oc)"
  using assms by (auto simp: NewOrgContext_def org_lookup_ok_def Let_def split: sum.splits if_splits)

lemma resolveOrgContext_Next:
  assumes "resolveOrgContextForRequest en req usr = Next (org, oc)"
  shows "NewOrgContext en usr (norm_addr (acr_TargetAddress req)) = Inr oc"
  using assms by (auto simp: resolveOrgContextForRequest_def requested_org_def
      split: sum.splits option.splits if_splits list.splits)

lemma resolveOrgContext_member:
  assumes "resolveOrgContextForRequest en req usr = Next (org, oc)" "org_lookup_ok (en_store en)"
  shows "org_ID org \<in> set (oc_userOrgIDs oc)"
proof (cases "acr_OrgID req = '''' \<and> (acr_OrgSlug req = '''' \<or> acr_OrgSlug req = ''default'')")
  case False
  then show ?thesis using assms(1)
    by (auto simp: resolveOrgContextForRequest_def requested_org_def split: sum.splits option.splits if_splits)
next
  case True
  note new = resolveOrgContext_Next [OF assms(1)]
  show ?thesis
  proof (cases "oc_org oc")
    case (Some o')
    with True assms(1) new have "o' = org" by (auto simp: resolveOrgContextForRequest_def split: if_splits)
    with NewOrgContext_org [OF new Some assms(2)] show ?thesis by simp
  next
    case None
    with True assms(1) new obtain i where "oc_userOrgIDs oc = [i]" "st_GetOrganization (en_store en) i = Inr (Some org)"
      by (auto simp: resolveOrgContextForRequest_def split: if_splits list.splits sum.splits option.splits)
    with assms(2) show ?thesis by (simp add: org_lookup_ok_def)
  qed
qed

lemma ClassifyOperation_cases: "ClassifyOperation m ps = ClaimDeploy \<or> ClassifyOperation m ps = ''''"
  by (simp add: ClassifyOperation_def Let_def)

lemma norm_addr_empty: "norm_addr a = '''' \<longleftrightarrow> trim_space a = ''''"
  using to_lower_empty [of "trim_space a"] by (auto simp: norm_addr_def)

text \<open>On what a contract access rests.\<close>

definition preregistered_for :: "env \<Rightarrow> string list \<Rightarrow> effective_permissions \<Rightarrow> string \<Rightarrow> bool" where
  "preregistered_for en orgs perms addr \<longleftrightarrow>
     (\<exists>owner. st_GetContractOwnerOrgID (en_store en) (norm_addr addr) = Inr owner \<and> owner \<noteq> '''' \<and> owner \<in> set orgs
        \<and> st_IsAddressPreregistered (en_store en) owner (to_lower addr) = Inr True
        \<and> (hasClaim (ep_Claims perms) ClaimDeploy \<or> hasClaim (ep_Claims perms) ClaimAdmin))"

definition deployed_by :: "env \<Rightarrow> user \<Rightarrow> string \<Rightarrow> bool" where
  "deployed_by en usr addr \<longleftrightarrow> st_GetContractDeployerByAddress (en_store en) (to_lower addr) = Inr (Some (usr_ID usr))"

lemma resolve_access_origin:
  assumes m: "memo_ok en oc"
    and a: "resolve_access en req usr oc perms '''' = Inr (Some access, explicit, oc')"
  defines "addr \<equiv> acr_TargetAddress req"
  shows "map_of (ep_ContractAccess perms) (to_lower addr) = Some access \<and> explicit
    \<or> preregistered_for en (oc_userOrgIDs oc) perms addr \<and> access = \<lparr>ca_Claims = [ClaimDeploy], ca_Functions = None, ca_EventRules = None\<rparr>
    \<or> deployed_by en usr addr \<and> access = \<lparr>ca_Claims = [], ca_Functions = None, ca_EventRules = None\<rparr>
    \<or> \<not> explicit \<and> IsPrecompileAddress (to_lower addr) \<and> access = \<lparr>ca_Claims = [], ca_Functions = None, ca_EventRules = None\<rparr>"
proof (cases "IsContractRegistered perms (to_lower addr)")
  case True
  then show ?thesis
    using a by (auto simp: resolve_access_def Let_def default_access_step_def preregistered_step_def deployer_step_def
        IsContractRegistered_def GetContractAccess_def addr_def)
next
  case False
  obtain v oc1 where o: "OwnerOrgID en oc (to_lower addr) = (v, oc1)" "v = target_owner en req"
    "memo_ok en oc1" "oc_userOrgIDs oc1 = oc_userOrgIDs oc"
    using OwnerOrgID_cases [OF m, of "to_lower addr"] by (auto simp: addr_def)
  let ?none = "\<lparr>ca_Claims = [], ca_Functions = None, ca_EventRules = None\<rparr>"
  have dep: "explicit = ex \<and> acc = Some access \<or> deployed_by en usr addr \<and> access = ?none"
    if "deployer_step en usr (to_lower addr) '''' ex acc = Inr (Some access, explicit)" for ex acc
    using that by (auto simp: deployer_step_def deployed_by_def split: option.splits sum.splits if_splits)
  have pre: "acc' = acc \<and> ex = False \<and> acc \<noteq> None \<or> acc' = None
      \<or> preregistered_for en (oc_userOrgIDs oc) perms addr \<and> acc' = Some \<lparr>ca_Claims = [ClaimDeploy], ca_Functions = None, ca_EventRules = None\<rparr>"
    if "preregistered_step en oc2 perms (to_lower addr) f False acc = Inr (acc', ex, oc3)"
      "f = None \<and> oc2 = oc \<or> f = Some w \<and> v = Inr w \<and> oc2 = oc1" for oc2 f acc acc' ex oc3 w
    using that o by (auto simp: preregistered_step_def preregistered_for_def addr_def split: option.splits sum.splits if_splits)
  have steps: "\<exists>acc f oc2 acc' ex oc3. default_access_step en oc (to_lower addr) False (GetContractAccess perms (to_lower addr)) = Inr (acc, f, oc2)
      \<and> preregistered_step en oc2 perms (to_lower addr) f False acc = Inr (acc', ex, oc3)
      \<and> deployer_step en usr (to_lower addr) '''' ex acc' = Inr (Some access, explicit)"
    using a False by (auto simp: resolve_access_def Let_def addr_def [symmetric] split: sum.splits prod.splits)
  then obtain acc f oc2 acc' ex oc3 where s:
      "default_access_step en oc (to_lower addr) False (GetContractAccess perms (to_lower addr)) = Inr (acc, f, oc2)"
      "preregistered_step en oc2 perms (to_lower addr) f False acc = Inr (acc', ex, oc3)"
      "deployer_step en usr (to_lower addr) '''' ex acc' = Inr (Some access, explicit)" by (elim exE conjE)
  have acc: "acc = None \<or> acc = Some ?none \<and> IsPrecompileAddress (to_lower addr)"
    and f: "f = None \<and> oc2 = oc \<or> (\<exists>w. f = Some w \<and> v = Inr w \<and> oc2 = oc1)"
    using s(1) False o(1)
    by (auto simp: default_access_step_def GetContractAccess_def IsContractRegistered_def
        split: if_splits option.splits sum.splits)
  from f have "acc' = acc \<and> ex = False \<and> acc \<noteq> None \<or> acc' = None
      \<or> preregistered_for en (oc_userOrgIDs oc) perms addr \<and> acc' = Some \<lparr>ca_Claims = [ClaimDeploy], ca_Functions = None, ca_EventRules = None\<rparr>"
    using pre [OF s(2)] by blast
  with dep [OF s(3)] acc show ?thesis by auto
qed

end
