(* ===== verification/Response_Filter.thy ===== *)
theory Response_Filter
  imports Log_Redaction Access_Control
begin

text \<open>
  The response side of the JSON-RPC proxy: the filters of transaction, block and block-count responses
  (\<^verbatim>\<open>internal/server/response_filter.go\<close>), of logs and receipts (\<^verbatim>\<open>event_log_filter.go\<close>), the
  rendering of admitted logs (\<^verbatim>\<open>rpc_log_field_redaction.go\<close>), the inputs they are run with
  (\<^verbatim>\<open>processor_event_rules.go\<close>) and the impersonation scope (\<^verbatim>\<open>viewer_org_scope.go\<close>).

  A response body is a \<^verbatim>\<open>json option\<close>, \<^verbatim>\<open>None\<close> when it is not JSON; a \<^verbatim>\<open>json.RawMessage\<close> is the value it
  holds. A function that writes to a nil map panics in the source and returns \<^verbatim>\<open>Inl\<close> here.
\<close>

section \<open>JSON helpers\<close>

text \<open>Decoding into a struct of strings: the value of each field, empty when absent.\<close>

definition struct_strings :: "string list \<Rightarrow> json \<Rightarrow> (string \<Rightarrow> string) option" where
  "struct_strings names =
     json_struct (\<lambda>kv r. case struct_field names (fst kv) of
                           None \<Rightarrow> Some r
                         | Some f \<Rightarrow> map_option (\<lambda>s. r(f := s)) (json_string (r f) (snd kv))) (\<lambda>_. '''')"

text \<open>Decoding into \<^verbatim>\<open>[]json.RawMessage\<close> and \<^verbatim>\<open>map[string]json.RawMessage\<close>; a nil map is \<^verbatim>\<open>Some None\<close>.\<close>

fun json_array :: "json \<Rightarrow> json list option" where
  "json_array (JArr vs) = Some vs"
| "json_array JNull = Some []"
| "json_array _ = None"

fun json_map :: "json \<Rightarrow> (string \<times> json) list option option" where
  "json_map (JObj kvs) = Some (Some (fold (\<lambda>(k, v). AList.update k v) kvs []))"
| "json_map JNull = Some None"
| "json_map _ = None"

definition marshal_map :: "(string \<times> json) list \<Rightarrow> json" where
  "marshal_map m = JObj (sort_key fst m)"

text \<open>The members a filter parses; a pointer member that is JSON null stays nil.\<close>

record rpc_envelope =
  re_ID :: "json option"
  re_Result :: "json option"
  re_Error :: "json option"

definition raw_pointer :: "json \<Rightarrow> json option" where
  "raw_pointer v = (if v = JNull then None else Some v)"

definition rpc_envelope_upd :: "string \<times> json \<Rightarrow> rpc_envelope \<Rightarrow> rpc_envelope option" where
  "rpc_envelope_upd kv r =
     (case struct_field [''jsonrpc'', ''id'', ''result'', ''error''] (fst kv) of
        None \<Rightarrow> Some r
      | Some f \<Rightarrow>
          if f = ''jsonrpc'' then map_option (\<lambda>_. r) (json_string '''' (snd kv))
          else if f = ''id'' then Some (r\<lparr>re_ID := Some (snd kv)\<rparr>)
          else if f = ''result'' then Some (r\<lparr>re_Result := raw_pointer (snd kv)\<rparr>)
          else Some (r\<lparr>re_Error := raw_pointer (snd kv)\<rparr>))"

definition rpc_envelope_of :: "json option \<Rightarrow> rpc_envelope option" where
  "rpc_envelope_of body =
     (case body of
        None \<Rightarrow> None
      | Some j \<Rightarrow> json_struct rpc_envelope_upd \<lparr>re_ID = None, re_Result = None, re_Error = None\<rparr> j)"

text \<open>A struct with a single \<^verbatim>\<open>json.RawMessage\<close> member; null is kept as a value.\<close>

definition raw_member :: "string \<Rightarrow> json option \<Rightarrow> json option option" where
  "raw_member name body =
     (case body of
        None \<Rightarrow> None
      | Some j \<Rightarrow> json_struct (\<lambda>kv r. Some (if struct_field [name] (fst kv) = None then r else Some (snd kv))) None j)"

definition rpcResponseID :: "json option \<Rightarrow> json" where
  "rpcResponseID body = (case raw_member ''id'' body of Some (Some v) \<Rightarrow> v | _ \<Rightarrow> JNull)"

text \<open>The marshalled answer: \<^verbatim>\<open>jsonrpc\<close>, \<^verbatim>\<open>id\<close> (null when nil) and one more member.\<close>

definition rpc_answer :: "json option \<Rightarrow> string \<Rightarrow> json \<Rightarrow> json" where
  "rpc_answer rid name v = JObj [(''jsonrpc'', JStr ''2.0''), (''id'', case rid of None \<Rightarrow> JNull | Some i \<Rightarrow> i), (name, v)]"

definition nullResult :: "json option \<Rightarrow> json" where
  "nullResult body = rpc_answer (Some (rpcResponseID body)) ''result'' JNull"

definition rpcResponseFromParsed :: "json option \<Rightarrow> json option \<Rightarrow> json option \<Rightarrow> json" where
  "rpcResponseFromParsed rid result rpcErr =
     (case rpcErr of
        Some e \<Rightarrow> rpc_answer rid ''error'' e
      | None \<Rightarrow> rpc_answer rid ''result'' (case result of None \<Rightarrow> JNull | Some r \<Rightarrow> r))"

definition emptyLogsResponse :: "json option \<Rightarrow> json" where
  "emptyLogsResponse body = rpc_answer (Some (rpcResponseID body)) ''result'' (JArr [])"

text \<open>
  The opening every filter shares: an unparseable body and a body with both members fail closed with \<^verbatim>\<open>closed\<close>,
  an error or a null result passes through, and a result is handed to \<^verbatim>\<open>k\<close> with the request id.
\<close>

definition with_result :: "json option \<Rightarrow> json \<Rightarrow> (json option \<Rightarrow> json \<Rightarrow> json res) \<Rightarrow> json res" where
  "with_result body closed k =
     (case rpc_envelope_of body of
        None \<Rightarrow> Inr closed
      | Some resp \<Rightarrow>
          (case (re_Error resp, re_Result resp) of
             (Some _, Some _) \<Rightarrow> Inr closed
           | (Some e, None) \<Rightarrow> Inr (rpcResponseFromParsed (re_ID resp) None (Some e))
           | (None, None) \<Rightarrow> Inr (rpcResponseFromParsed (re_ID resp) None None)
           | (None, Some raw) \<Rightarrow>
               if raw = JNull then Inr (rpcResponseFromParsed (re_ID resp) None None) else k (re_ID resp) raw))"

section \<open>Transactions and blocks\<close>

definition addrSetFromLinked :: "string list \<Rightarrow> string list" where
  "addrSetFromLinked addrs = map to_lower addrs"

definition isTxParticipant :: "string list \<Rightarrow> string \<Rightarrow> string \<Rightarrow> bool" where
  "isTxParticipant userAddresses from to =
     (let addrSet = addrSetFromLinked userAddresses; from = to_lower from; to = to_lower to in
      from \<noteq> '''' \<and> from \<in> set addrSet \<or> to \<noteq> '''' \<and> to \<in> set addrSet)"

definition FilterTransactionByHash ::
  "read_profile \<Rightarrow> json option \<Rightarrow> string list \<Rightarrow> bool \<Rightarrow> bool option \<Rightarrow> json res" where
  "FilterTransactionByHash profile responseBody userAddresses isAdminOnTo inVisibleTo =
     with_result responseBody (nullResult responseBody) (\<lambda>rid raw.
       case struct_strings [''from'', ''to''] raw of
         None \<Rightarrow> Inr (nullResult responseBody)
       | Some tx \<Rightarrow>
           let isParticipant = isTxParticipant userAddresses (tx ''from'') (tx ''to'');
               facts = \<lparr>tef_Surface = TxSurfaceTransaction, tef_IsParticipant = isParticipant, tef_IsAdminOnTo = isAdminOnTo,
                        tef_InVisibleTo = (\<not> isParticipant \<and> \<not> isAdminOnTo \<and> \<not> Strict profile \<and> inVisibleTo = Some True),
                        tef_EntitledLogs = 0, tef_IsDeployment = False\<rparr>
           in if DecideTxEnvelope profile facts then Inr (rpcResponseFromParsed rid (Some raw) None)
              else Inr (nullResult responseBody))"

definition zeroLogsBloomJSON :: json where
  "zeroLogsBloomJSON = JStr (''0x'' @ replicate 512 CHR ''0'')"

definition zeroGasUsedJSON :: json where
  "zeroGasUsedJSON = JStr ''0x0''"

definition zeroSizeJSON :: json where
  "zeroSizeJSON = JStr ''0x0''"

definition overwrite :: "string \<Rightarrow> json \<Rightarrow> (string \<times> json) list \<Rightarrow> (string \<times> json) list" where
  "overwrite k v m = (if map_of m k = None then m else AList.update k v m)"

definition block_entry_facts :: "bool \<Rightarrow> tx_envelope_facts" where
  "block_entry_facts isParticipant =
     \<lparr>tef_Surface = TxSurfaceBlockEntry, tef_IsParticipant = isParticipant, tef_IsAdminOnTo = False, tef_InVisibleTo = False,
      tef_EntitledLogs = 0, tef_IsDeployment = False\<rparr>"

definition filter_block_txs :: "read_profile \<Rightarrow> string list \<Rightarrow> bool \<Rightarrow> json list \<Rightarrow> json list" where
  "filter_block_txs profile userAddresses originalFull rawTxs =
     List.map_filter (\<lambda>rawTx.
       case struct_strings [''from'', ''to'', ''hash''] rawTx of
         None \<Rightarrow> None
       | Some tx \<Rightarrow>
           if DecideTxEnvelope profile (block_entry_facts (isTxParticipant userAddresses (tx ''from'') (tx ''to'')))
           then Some (if originalFull then rawTx else JStr (tx ''hash'')) else None) rawTxs"

definition filter_block :: "read_profile \<Rightarrow> string list \<Rightarrow> bool \<Rightarrow> (string \<times> json) list \<Rightarrow> (string \<times> json) list" where
  "filter_block profile userAddresses originalFull block =
     (let block = overwrite ''logsBloom'' zeroLogsBloomJSON block;
          block = overwrite ''gasUsed'' zeroGasUsedJSON block;
          block = overwrite ''blobGasUsed'' zeroGasUsedJSON block;
          block = overwrite ''size'' zeroSizeJSON block
      in case map_of block ''transactions'' of
           None \<Rightarrow> block
         | Some txsRaw \<Rightarrow>
             (case json_array txsRaw of
                None \<Rightarrow> AList.update ''transactions'' (JArr []) block
              | Some [] \<Rightarrow> block
              | Some (first # rest) \<Rightarrow>
                  (case first of
                     JStr _ \<Rightarrow> AList.update ''transactions'' (JArr []) block
                   | _ \<Rightarrow> AList.update ''transactions'' (JArr (filter_block_txs profile userAddresses originalFull (first # rest))) block)))"

definition FilterBlockTransactions :: "read_profile \<Rightarrow> json option \<Rightarrow> string list \<Rightarrow> bool \<Rightarrow> json res" where
  "FilterBlockTransactions profile responseBody userAddresses originalFull =
     with_result responseBody (nullResult responseBody) (\<lambda>rid raw.
       case json_map raw of
         None \<Rightarrow> Inr (nullResult responseBody)
       | Some None \<Rightarrow> Inr (rpc_answer rid ''result'' JNull)
       | Some (Some block) \<Rightarrow>
           Inr (rpc_answer rid ''result'' (marshal_map (filter_block profile userAddresses originalFull block))))"

text \<open>\<^verbatim>\<open>fmt.Sprintf("0x%x", n)\<close>\<close>

fun fmt_x :: "nat \<Rightarrow> string" where
  "fmt_x n = (if n < 16 then [hex_digit n] else fmt_x (n div 16) @ [hex_digit (n mod 16)])"

definition FilterBlockTransactionCount :: "json option \<Rightarrow> string list \<Rightarrow> json res" where
  "FilterBlockTransactionCount responseBody userAddresses =
     with_result responseBody (nullResult responseBody) (\<lambda>rid raw.
       case json_map raw of
         None \<Rightarrow> Inr (nullResult responseBody)
       | Some block \<Rightarrow>
           (case (case map_of (case block of None \<Rightarrow> [] | Some m \<Rightarrow> m) ''transactions'' of
                    None \<Rightarrow> Some []
                  | Some txsRaw \<Rightarrow> json_array txsRaw) of
              None \<Rightarrow> Inr (nullResult responseBody)
            | Some rawTxs \<Rightarrow>
                let addrSet = addrSetFromLinked userAddresses;
                    count = length (filter (\<lambda>rawTx.
                              case struct_strings [''from'', ''to''] rawTx of
                                None \<Rightarrow> False
                              | Some tx \<Rightarrow> to_lower (tx ''from'') \<in> set addrSet \<or>
                                           to_lower (tx ''to'') \<noteq> '''' \<and> to_lower (tx ''to'') \<in> set addrSet) rawTxs)
                in Inr (rpc_answer rid ''result'' (JStr (''0x'' @ fmt_x count)))))"

declare fmt_x.simps [simp del]

section \<open>Rendering admitted logs\<close>

type_synonym admitted_log_renderer = "admitted_log list \<Rightarrow> json list res"

definition rawAdmittedLogs :: admitted_log_renderer where
  "rawAdmittedLogs admitted = Inr (map al_Raw admitted)"

text \<open>
  Decodings whose errors the source ignores: the value that the decoder leaves behind, with an element of the
  wrong type left at its zero value.
\<close>

definition lenient_string :: "json option \<Rightarrow> string" where
  "lenient_string v = (case v of Some (JStr s) \<Rightarrow> s | _ \<Rightarrow> '''')"

definition lenient_strings :: "json option \<Rightarrow> string list" where
  "lenient_strings v = (case v of Some (JArr vs) \<Rightarrow> map (\<lambda>e. lenient_string (Some e)) vs | _ \<Rightarrow> [])"

record parsed_log =
  pl_fields :: "(string \<times> json) list option"
  pl_topics :: "string list"
  pl_data :: string
  pl_abi :: string

definition pl_topic0 :: "parsed_log \<Rightarrow> string option" where
  "pl_topic0 pl = (case pl_topics pl of [] \<Rightarrow> None | t # _ \<Rightarrow> Some t)"

definition parse_admitted :: "abi_provider \<Rightarrow> json \<Rightarrow> parsed_log option" where
  "parse_admitted abiProvider raw =
     (case json_map raw of
        None \<Rightarrow> None
      | Some m \<Rightarrow>
          let fs = (case m of None \<Rightarrow> [] | Some f \<Rightarrow> f) in
          Some \<lparr>pl_fields = m,
                pl_topics = lenient_strings (map_of fs ''topics''),
                pl_data = lenient_string (map_of fs ''data''),
                pl_abi = ap_GetContractABI abiProvider (lenient_string (map_of fs ''address''))\<rparr>)"

definition parsed_addresses :: "abi_lib \<Rightarrow> parsed_log \<Rightarrow> string list" where
  "parsed_addresses al pl = ExtractLogAddresses al (map Some (pl_topics pl)) (pl_data pl) (pl_abi pl) (pl_topic0 pl)"

definition admitted_addresses :: "abi_lib \<Rightarrow> abi_provider \<Rightarrow> admitted_log list \<Rightarrow> string list" where
  "admitted_addresses al abiProvider admitted =
     remdups (concat (map (\<lambda>a. if al_Payload a = LogPayloadFull then []
                               else case parse_admitted abiProvider (al_Raw a) of
                                 None \<Rightarrow> [] | Some pl \<Rightarrow> parsed_addresses al pl) admitted))"

type_synonym visibility_resolver = "string \<Rightarrow> string list \<Rightarrow> (string \<times> address_visibility) list res"

definition resolved_vis_map :: "visibility_resolver \<Rightarrow> string \<Rightarrow> string list \<Rightarrow> visibility_map" where
  "resolved_vis_map resolver viewerDID addrs =
     (if addrs = [] then []
      else case resolver viewerDID addrs of
        Inl _ \<Rightarrow> []
      | Inr detailed \<Rightarrow> fold (\<lambda>(a, v). AList.update (to_lower a) (av_Level v)) detailed [])"

fun render_logs :: "abi_lib \<Rightarrow> abi_provider \<Rightarrow> visibility_map \<Rightarrow> admitted_log_renderer" where
  "render_logs al abiProvider visMap [] = Inr []"
| "render_logs al abiProvider visMap (a # admitted) =
     (if al_Payload a = LogPayloadFull
      then map_sum id (\<lambda>out. al_Raw a # out) (render_logs al abiProvider visMap admitted)
      else case parse_admitted abiProvider (al_Raw a) of
        None \<Rightarrow> render_logs al abiProvider visMap admitted
      | Some pl \<Rightarrow>
          (case pl_fields pl of
             None \<Rightarrow> Inl ''panic: assignment to entry in nil map''
           | Some fs \<Rightarrow>
               let (redTopics, redData) =
                     RedactLogAddressFields al (map Some (pl_topics pl)) (pl_data pl) (pl_abi pl) (pl_topic0 pl) visMap;
                   topicStrs = map (\<lambda>t. JStr (case t of None \<Rightarrow> '''' | Some s \<Rightarrow> s)) redTopics;
                   fs = AList.update ''data'' (JStr redData) (AList.update ''topics'' (JArr topicStrs) fs)
               in map_sum id (\<lambda>out. marshal_map fs # out) (render_logs al abiProvider visMap admitted)))"

definition redactAdmittedLogs ::
  "abi_lib \<Rightarrow> visibility_resolver option \<Rightarrow> string \<Rightarrow> abi_provider \<Rightarrow> admitted_log_renderer" where
  "redactAdmittedLogs al addrVisResolver viewerDID abiProvider admitted =
     (if admitted = [] then Inr []
      else case addrVisResolver of
        None \<Rightarrow> rawAdmittedLogs admitted
      | Some resolver \<Rightarrow>
          render_logs al abiProvider
            (resolved_vis_map resolver viewerDID (admitted_addresses al abiProvider admitted)) admitted)"

definition redactEmbeddedLogAddresses ::
  "abi_lib \<Rightarrow> visibility_resolver option \<Rightarrow> string \<Rightarrow> abi_provider \<Rightarrow> json list \<Rightarrow> json list res" where
  "redactEmbeddedLogAddresses al addrVisResolver viewerDID abiProvider rawLogs =
     redactAdmittedLogs al addrVisResolver viewerDID abiProvider
       (map (\<lambda>rl. \<lparr>al_Raw = rl, al_Payload = LogPayloadMasked\<rparr>) rawLogs)"

text \<open>
  The two dry-run passes over an already filtered response; \<^verbatim>\<open>None\<close> is a body that is not JSON. Both return
  the body unchanged on any shape they do not recognise. An \<^verbatim>\<open>error\<close> member of any value, null included, is not nil
  in this struct.
\<close>

definition result_unless_error :: "json option \<Rightarrow> (json option \<times> json) option" where
  "result_unless_error body =
     (case (raw_member ''error'' body, raw_member ''id'' body, raw_member ''result'' body, rpc_envelope_of body) of
        (Some None, Some rid, Some (Some r), Some _) \<Rightarrow> Some (rid, r)
      | _ \<Rightarrow> None)"

definition redactLogsArrayResponseFields ::
  "abi_lib \<Rightarrow> visibility_resolver option \<Rightarrow> string \<Rightarrow> abi_provider \<Rightarrow> json option \<Rightarrow> json option res" where
  "redactLogsArrayResponseFields al addrVisResolver viewerDID abiProvider body =
     (if addrVisResolver = None then Inr body
      else case result_unless_error body of
        None \<Rightarrow> Inr body
      | Some (rid, r) \<Rightarrow>
          (case json_array r of
             None \<Rightarrow> Inr body
           | Some rawLogs \<Rightarrow>
               map_sum id (\<lambda>redacted. Some (rpc_answer rid ''result'' (JArr redacted)))
                 (redactEmbeddedLogAddresses al addrVisResolver viewerDID abiProvider rawLogs)))"

definition redactReceiptResponseFields ::
  "abi_lib \<Rightarrow> visibility_resolver option \<Rightarrow> string \<Rightarrow> abi_provider \<Rightarrow> json option \<Rightarrow> json option res" where
  "redactReceiptResponseFields al addrVisResolver viewerDID abiProvider body =
     (if addrVisResolver = None then Inr body
      else case result_unless_error body of
        None \<Rightarrow> Inr body
      | Some (rid, r) \<Rightarrow>
          if r = JNull then Inr body
          else (case json_map r of
                  Some (Some receipt) \<Rightarrow>
                    (case map_of receipt ''logs'' of
                       None \<Rightarrow> Inr body
                     | Some logsRaw \<Rightarrow>
                         (case json_array logsRaw of
                            None \<Rightarrow> Inr body
                          | Some rawLogs \<Rightarrow>
                              map_sum id (\<lambda>redacted. Some (rpc_answer rid ''result''
                                                        (marshal_map (AList.update ''logs'' (JArr redacted) receipt))))
                                (redactEmbeddedLogAddresses al addrVisResolver viewerDID abiProvider rawLogs)))
                | _ \<Rightarrow> Inr body))"

section \<open>Logs and receipts\<close>

definition renderer :: "admitted_log_renderer option \<Rightarrow> admitted_log_renderer" where
  "renderer render = (case render of None \<Rightarrow> rawAdmittedLogs | Some f \<Rightarrow> f)"

definition filterLogsWithEventRules ::
  "abi_lib \<Rightarrow> read_profile \<Rightarrow> json option \<Rightarrow> string list \<Rightarrow> effective_permissions option \<Rightarrow> abi_provider option
     \<Rightarrow> tx_visibility_context option \<Rightarrow> (string \<times> bool) list \<Rightarrow> admitted_log_renderer option \<Rightarrow> json res" where
  "filterLogsWithEventRules al profile responseBody userAddresses perms abiProvider visCtx isAdminByContract render =
     with_result responseBody (emptyLogsResponse responseBody) (\<lambda>rid raw.
       case json_array raw of
         None \<Rightarrow> Inr (emptyLogsResponse responseBody)
       | Some rawLogs \<Rightarrow>
           (case FilterEventLogsDetailed al profile rawLogs perms userAddresses abiProvider visCtx isAdminByContract of
              Inl e \<Rightarrow> Inl e
            | Inr admitted \<Rightarrow>
                map_sum id (\<lambda>finalLogs. rpc_answer rid ''result'' (JArr finalLogs)) (renderer render admitted)))"

definition FilterLogsWithEventRules ::
  "abi_lib \<Rightarrow> read_profile \<Rightarrow> json option \<Rightarrow> string list \<Rightarrow> effective_permissions option \<Rightarrow> abi_provider option
     \<Rightarrow> tx_visibility_context option \<Rightarrow> (string \<times> bool) list \<Rightarrow> json res" where
  "FilterLogsWithEventRules al profile responseBody userAddresses perms abiProvider visCtx isAdminByContract =
     filterLogsWithEventRules al profile responseBody userAddresses perms abiProvider visCtx isAdminByContract None"

definition scopeTxVisibilityTo :: "tx_visibility_context option \<Rightarrow> string \<Rightarrow> tx_visibility_context option" where
  "scopeTxVisibilityTo visCtx txHash =
     (case visCtx of
        None \<Rightarrow> None
      | Some v \<Rightarrow>
          Some (v\<lparr>tvc_TxVisibility :=
                    (let h = to_lower txHash in
                     if h \<noteq> '''' then (case map_of (tvc_TxVisibility v) h of Some dids \<Rightarrow> [(h, dids)] | None \<Rightarrow> []) else [])\<rparr>))"

definition receiptWithEmptyLogs :: "json \<Rightarrow> json res" where
  "receiptWithEmptyLogs rawReceipt =
     (case json_map rawReceipt of
        None \<Rightarrow> Inr JNull
      | Some None \<Rightarrow> Inl ''panic: assignment to entry in nil map''
      | Some (Some m) \<Rightarrow>
          Inr (marshal_map (AList.update ''logsBloom'' zeroLogsBloomJSON (AList.update ''logs'' (JArr []) m))))"

definition applyEventRulesToReceipt ::
  "abi_lib \<Rightarrow> read_profile \<Rightarrow> json \<Rightarrow> effective_permissions option \<Rightarrow> string list \<Rightarrow> abi_provider option
     \<Rightarrow> tx_visibility_context option \<Rightarrow> (string \<times> bool) list \<Rightarrow> admitted_log_renderer option \<Rightarrow> (json \<times> int) res" where
  "applyEventRulesToReceipt al profile rawReceipt perms userAddresses abiProvider visCtx isAdminByContract render =
     (case json_map rawReceipt of
        None \<Rightarrow> map_sum id (\<lambda>j. (j, 0)) (receiptWithEmptyLogs rawReceipt)
      | Some None \<Rightarrow> Inr (rawReceipt, 0)
      | Some (Some m) \<Rightarrow>
          (case map_of m ''logs'' of
             None \<Rightarrow> Inr (rawReceipt, 0)
           | Some rawLogs \<Rightarrow>
               (case json_array rawLogs of
                  None \<Rightarrow> map_sum id (\<lambda>j. (j, 0)) (receiptWithEmptyLogs rawReceipt)
                | Some arr \<Rightarrow>
                    (case FilterEventLogsDetailed al profile arr perms userAddresses abiProvider visCtx isAdminByContract of
                       Inl e \<Rightarrow> Inl e
                     | Inr admitted \<Rightarrow>
                         map_sum id (\<lambda>rendered.
                           (marshal_map (AList.update ''logsBloom'' zeroLogsBloomJSON (AList.update ''logs'' (JArr rendered) m)),
                            int (length admitted))) (renderer render admitted)))))"

text \<open>The context the receipt's own logs are judged in: its listing only, marked when the viewer took part.\<close>

definition receipt_log_context :: "tx_visibility_context option \<Rightarrow> string \<Rightarrow> bool \<Rightarrow> tx_visibility_context option" where
  "receipt_log_context visCtx txHash isParticipant =
     (let logVisCtx = scopeTxVisibilityTo visCtx txHash in
      if isParticipant \<and> to_lower txHash \<noteq> ''''
      then (let v = (case logVisCtx of
                       Some v \<Rightarrow> v
                     | None \<Rightarrow> \<lparr>tvc_ViewerDID = '''', tvc_TxVisibility = [], tvc_UnlockableContracts = [], tvc_ParticipantTxHashes = []\<rparr>)
            in Some (v\<lparr>tvc_ParticipantTxHashes := AList.update (to_lower txHash) True (tvc_ParticipantTxHashes v)\<rparr>))
      else logVisCtx)"

definition receipt_listed :: "tx_visibility_context option \<Rightarrow> string \<Rightarrow> bool" where
  "receipt_listed visCtx txHash =
     (case visCtx of
        None \<Rightarrow> False
      | Some v \<Rightarrow>
          tvc_ViewerDID v \<noteq> '''' \<and> txHash \<noteq> '''' \<and>
          (case map_of (tvc_TxVisibility v) txHash of
             None \<Rightarrow> False
           | Some dids \<Rightarrow> list_ex (\<lambda>did. equal_fold did (tvc_ViewerDID v)) dids))"

definition decideReceipt ::
  "abi_lib \<Rightarrow> read_profile \<Rightarrow> tx_surface \<Rightarrow> json \<Rightarrow> string list \<Rightarrow> effective_permissions option \<Rightarrow> abi_provider option
     \<Rightarrow> tx_visibility_context option \<Rightarrow> (string \<times> bool) list \<Rightarrow> admitted_log_renderer option \<Rightarrow> json option res" where
  "decideReceipt al profile surface raw userAddresses perms abiProvider visCtx isAdminByContract render =
     (case struct_strings [''from'', ''to'', ''transactionHash''] raw of
        None \<Rightarrow> Inr None
      | Some receipt \<Rightarrow>
          let to = to_lower (receipt ''to'');
              txHash = to_lower (receipt ''transactionHash'');
              isParticipant = isTxParticipant userAddresses (receipt ''from'') (receipt ''to'');
              isVisibleTo = (\<not> isParticipant \<and> receipt_listed visCtx txHash);
              isAdminOnTo = (to \<noteq> '''' \<and> flag isAdminByContract to);
              logVisCtx = receipt_log_context visCtx (receipt ''transactionHash'') isParticipant;
              facts = \<lparr>tef_Surface = surface, tef_IsParticipant = isParticipant, tef_IsAdminOnTo = isAdminOnTo,
                       tef_InVisibleTo = isVisibleTo, tef_EntitledLogs = 0, tef_IsDeployment = (to = '''')\<rparr>
          in if \<not> DecideTxEnvelope profile (facts\<lparr>tef_EntitledLogs := 2 ^ 63 - 1\<rparr>) then Inr None
             else (case applyEventRulesToReceipt al profile raw perms userAddresses abiProvider logVisCtx isAdminByContract render of
                     Inl e \<Rightarrow> Inl e
                   | Inr (result, entitledLogs) \<Rightarrow>
                       if \<not> DecideTxEnvelope profile (facts\<lparr>tef_EntitledLogs := entitledLogs\<rparr>) then Inr None
                       else Inr (Some result)))"

definition filterReceiptLogsWithEventRules ::
  "abi_lib \<Rightarrow> read_profile \<Rightarrow> json option \<Rightarrow> string list \<Rightarrow> effective_permissions option \<Rightarrow> abi_provider option
     \<Rightarrow> tx_visibility_context option \<Rightarrow> (string \<times> bool) list \<Rightarrow> admitted_log_renderer option \<Rightarrow> json res" where
  "filterReceiptLogsWithEventRules al profile responseBody userAddresses perms abiProvider visCtx isAdminByContract render =
     with_result responseBody (nullResult responseBody) (\<lambda>rid raw.
       case decideReceipt al profile TxSurfaceReceipt raw userAddresses perms abiProvider visCtx isAdminByContract render of
         Inl e \<Rightarrow> Inl e
       | Inr None \<Rightarrow> Inr (nullResult responseBody)
       | Inr (Some result) \<Rightarrow> Inr (rpc_answer (Some (rpcResponseID responseBody)) ''result'' result))"

definition FilterReceiptLogsWithEventRules ::
  "abi_lib \<Rightarrow> read_profile \<Rightarrow> json option \<Rightarrow> string list \<Rightarrow> effective_permissions option \<Rightarrow> abi_provider option
     \<Rightarrow> tx_visibility_context option \<Rightarrow> (string \<times> bool) list \<Rightarrow> json res" where
  "FilterReceiptLogsWithEventRules al profile responseBody userAddresses perms abiProvider visCtx isAdminByContract =
     filterReceiptLogsWithEventRules al profile responseBody userAddresses perms abiProvider visCtx isAdminByContract None"

fun filter_receipts ::
  "abi_lib \<Rightarrow> read_profile \<Rightarrow> string list \<Rightarrow> effective_permissions option \<Rightarrow> abi_provider option
     \<Rightarrow> tx_visibility_context option \<Rightarrow> (string \<times> bool) list \<Rightarrow> admitted_log_renderer option \<Rightarrow> json list \<Rightarrow> json list res" where
  "filter_receipts al profile userAddresses perms abiProvider visCtx isAdminByContract render [] = Inr []"
| "filter_receipts al profile userAddresses perms abiProvider visCtx isAdminByContract render (raw # rest) =
     (case decideReceipt al profile TxSurfaceBlockEntry raw userAddresses perms abiProvider visCtx isAdminByContract render of
        Inl e \<Rightarrow> Inl e
      | Inr out \<Rightarrow>
          map_sum id (\<lambda>receipts. case out of None \<Rightarrow> receipts | Some r \<Rightarrow> r # receipts)
            (filter_receipts al profile userAddresses perms abiProvider visCtx isAdminByContract render rest))"

definition FilterBlockReceipts ::
  "abi_lib \<Rightarrow> read_profile \<Rightarrow> json option \<Rightarrow> string list \<Rightarrow> effective_permissions option \<Rightarrow> abi_provider option
     \<Rightarrow> tx_visibility_context option \<Rightarrow> (string \<times> bool) list \<Rightarrow> admitted_log_renderer option \<Rightarrow> json res" where
  "FilterBlockReceipts al profile responseBody userAddresses perms abiProvider visCtx isAdminByContract render =
     with_result responseBody (nullResult responseBody) (\<lambda>rid raw.
       case json_array raw of
         None \<Rightarrow> Inr (nullResult responseBody)
       | Some rawReceipts \<Rightarrow>
           map_sum id (\<lambda>receipts. rpc_answer rid ''result'' (JArr receipts))
             (filter_receipts al profile userAddresses perms abiProvider visCtx isAdminByContract render rawReceipts))"

end
