(* ===== verification/Filter_Inputs.thy ===== *)
theory Filter_Inputs
  imports Response_Filter
begin

text \<open>
  The inputs of the response filters (\<^verbatim>\<open>internal/server/processor_event_rules.go\<close>): permissions merged over the
  viewer's organizations, the contracts the viewer administers, the visibleTo context of a response and the
  transactions the viewer took part in; and the impersonation scope (\<^verbatim>\<open>viewer_org_scope.go\<close>) that narrows each
  of them to one organization. The node, the visibleTo store and the go-ethereum address helpers are parameters.
\<close>

section \<open>Permissions and admin contracts\<close>

definition GetEffectivePermissionsByIDs ::
  "env \<Rightarrow> access_controller \<Rightarrow> string \<Rightarrow> string \<Rightarrow> effective_permissions res \<times> access_controller" where
  "GetEffectivePermissionsByIDs en c userID orgID =
     (case ResolvePermissions en (ac_resolver c) (ac_table c) None userID orgID of (r, t) \<Rightarrow> (r, c\<lparr>ac_table := t\<rparr>))"

definition restrictToViewerOrgScope :: "string option \<Rightarrow> string list \<Rightarrow> string list" where
  "restrictToViewerOrgScope viewscope orgIDs =
     (case viewscope of
        None \<Rightarrow> orgIDs
      | Some scope \<Rightarrow> if list_ex (\<lambda>i. scope \<noteq> '''' \<and> i = scope) orgIDs then [scope] else [])"

definition merge_access ::
  "effective_permissions option \<Rightarrow> effective_permissions \<Rightarrow> effective_permissions" where
  "merge_access merged perms =
     (case merged of
        None \<Rightarrow> perms
      | Some m \<Rightarrow>
          m\<lparr>ep_ContractAccess :=
              fold (\<lambda>(addr, ca) acc. if map_of acc addr = None then AList.update addr ca acc else acc)
                (ep_ContractAccess perms) (ep_ContractAccess m)\<rparr>)"

fun merge_orgs ::
  "env \<Rightarrow> string \<Rightarrow> string list \<Rightarrow> access_controller \<Rightarrow> effective_permissions option
     \<Rightarrow> effective_permissions option \<times> access_controller" where
  "merge_orgs en userID [] c merged = (merged, c)"
| "merge_orgs en userID (orgID # orgIDs) c merged =
     (case GetEffectivePermissionsByIDs en c userID orgID of
        (Inl _, c') \<Rightarrow> merge_orgs en userID orgIDs c' merged
      | (Inr perms, c') \<Rightarrow> merge_orgs en userID orgIDs c' (Some (merge_access merged perms)))"

definition resolvePermsForFilter ::
  "env \<Rightarrow> access_controller \<Rightarrow> access_check_result option \<Rightarrow> effective_permissions option \<times> access_controller" where
  "resolvePermsForFilter en c result =
     (case result of
        None \<Rightarrow> (None, c)
      | Some r \<Rightarrow>
          if acx_UserID r = '''' then (None, c)
          else (case GetUserOrgIDs (en_store en) (acx_UserID r) of
                  Inl _ \<Rightarrow> (None, c)
                | Inr orgIDs \<Rightarrow> merge_orgs en (acx_UserID r) (restrictToViewerOrgScope (en_viewscope en) orgIDs) c None))"

fun admin_contracts ::
  "env \<Rightarrow> string \<Rightarrow> string list \<Rightarrow> string list \<Rightarrow> (string \<times> effective_permissions option) list \<Rightarrow> access_controller
     \<Rightarrow> (string \<times> bool) list \<Rightarrow> (string \<times> bool) list \<times> access_controller" where
  "admin_contracts en userID orgs [] permsByOrg c result = (result, c)"
| "admin_contracts en userID orgs (addr # addrs) permsByOrg c result =
     (case st_GetContractOwnerOrgID (en_store en) addr of
        Inl _ \<Rightarrow> admin_contracts en userID orgs addrs permsByOrg c result
      | Inr owner \<Rightarrow>
          if owner = '''' \<or> owner \<notin> set orgs then admin_contracts en userID orgs addrs permsByOrg c result
          else let (orgPerms, permsByOrg, c) =
                     (case map_of permsByOrg owner of
                        Some p \<Rightarrow> (p, permsByOrg, c)
                      | None \<Rightarrow>
                          (case GetEffectivePermissionsByIDs en c userID owner of
                             (Inl _, c') \<Rightarrow> (None, AList.update owner None permsByOrg, c')
                           | (Inr op, c') \<Rightarrow> (Some op, AList.update owner (Some op) permsByOrg, c')))
               in admin_contracts en userID orgs addrs permsByOrg c
                    (case orgPerms of
                       None \<Rightarrow> result
                     | Some p \<Rightarrow> if HasAdminOnContract p addr then AList.update addr True result else result))"

definition viewerAdminContracts ::
  "env \<Rightarrow> access_controller \<Rightarrow> string \<Rightarrow> string list \<Rightarrow> (string \<times> bool) list \<times> access_controller" where
  "viewerAdminContracts en c userID contractAddrs =
     (if userID = '''' \<or> contractAddrs = [] then ([], c)
      else let unique = fold (\<lambda>a acc. if a = '''' then acc else add_member (to_lower a) acc) contractAddrs [] in
        if unique = [] then ([], c)
        else (case GetUserOrgIDs (en_store en) userID of
                Inl _ \<Rightarrow> ([], c)
              | Inr ids \<Rightarrow>
                  let orgs = restrictToViewerOrgScope (en_viewscope en) ids in
                  if orgs = [] then ([], c) else admin_contracts en userID orgs unique [] c []))"

section \<open>What a response refers to\<close>

definition elem_string :: "string \<Rightarrow> json \<Rightarrow> string option" where
  "elem_string name v = map_option (\<lambda>r. r name) (struct_strings [name] v)"

text \<open>A struct with one string member and a \<^verbatim>\<open>logs\<close> array of structs with one string member.\<close>

definition receipt_strings :: "string \<Rightarrow> string \<Rightarrow> json \<Rightarrow> (string \<times> string list) option" where
  "receipt_strings main el =
     json_struct (\<lambda>kv (s, ls).
       case struct_field [main, ''logs''] (fst kv) of
         None \<Rightarrow> Some (s, ls)
       | Some f \<Rightarrow>
           if f = main then map_option (\<lambda>s'. (s', ls)) (json_string s (snd kv))
           else map_option (\<lambda>ls'. (s, ls')) (json_slice (elem_string el) (snd kv))) ('''', [])"

definition nonempty_members :: "string list \<Rightarrow> string list" where
  "nonempty_members ss = fold (\<lambda>s acc. if to_lower s = '''' then acc else add_member (to_lower s) acc) ss []"

definition or_none :: "'a list option \<Rightarrow> 'a list" where
  "or_none v = (case v of None \<Rightarrow> [] | Some xs \<Rightarrow> xs)"

definition extractTxHashesFromResponse :: "json option \<Rightarrow> string list" where
  "extractTxHashesFromResponse responseBody =
     (case raw_member ''result'' responseBody of
        Some (Some result) \<Rightarrow>
          nonempty_members
            (or_none (json_slice (elem_string ''transactionHash'') result)
             @ or_none (map_option (\<lambda>(h, hs). h # hs) (receipt_strings ''transactionHash'' ''transactionHash'' result))
             @ or_none (map_option (\<lambda>h. [h]) (elem_string ''hash'' result)))
      | _ \<Rightarrow> [])"

definition extractContractAddressesFromResponse :: "json option \<Rightarrow> string list" where
  "extractContractAddressesFromResponse responseBody =
     (case raw_member ''result'' responseBody of
        Some (Some result) \<Rightarrow>
          nonempty_members
            (or_none (json_slice (elem_string ''address'') result)
             @ or_none (map_option (\<lambda>(t, as). t # as) (receipt_strings ''to'' ''address'' result))
             @ or_none (map_option (\<lambda>rs. concat (map (\<lambda>(t, as). t # as) rs))
                          (json_slice (receipt_strings ''to'' ''address'') result))
             @ or_none (map_option (\<lambda>t. [t]) (elem_string ''to'' result)))
      | _ \<Rightarrow> [])"

definition isNullResult :: "json option \<Rightarrow> bool" where
  "isNullResult body =
     (case raw_member ''result'' body of
        None \<Rightarrow> False
      | Some r \<Rightarrow> r = None \<or> r = Some JNull)"

section \<open>The visibleTo context\<close>

record tx_visibility_store =
  tvs_GetBatchTxVisibility :: "string list \<Rightarrow> (string \<times> string list) list res"
  tvs_GetBatchTxVisibilityInOrg :: "(string list \<Rightarrow> string \<Rightarrow> (string \<times> string list) list res) option"

definition txVisibilityForViewer ::
  "string option \<Rightarrow> tx_visibility_store \<Rightarrow> string list \<Rightarrow> (string \<times> string list) list res" where
  "txVisibilityForViewer viewscope store txHashes =
     (case viewscope of
        None \<Rightarrow> tvs_GetBatchTxVisibility store txHashes
      | Some scope \<Rightarrow>
          (case tvs_GetBatchTxVisibilityInOrg store of
             None \<Rightarrow> Inr []
           | Some inOrg \<Rightarrow> if scope = '''' then Inr [] else inOrg txHashes scope))"

definition isResponseTxVisibleTo ::
  "string option \<Rightarrow> tx_visibility_store option \<Rightarrow> string \<Rightarrow> json option \<Rightarrow> bool" where
  "isResponseTxVisibleTo viewscope txVisibilityStore viewerDID responseBody =
     (case txVisibilityStore of
        None \<Rightarrow> False
      | Some store \<Rightarrow>
          if viewerDID = '''' then False
          else let txHashes = extractTxHashesFromResponse responseBody in
            if txHashes = [] then False
            else (case txVisibilityForViewer viewscope store txHashes of
                    Inl _ \<Rightarrow> False
                  | Inr visibility \<Rightarrow> list_ex (\<lambda>(h, dids). list_ex (\<lambda>did. equal_fold did viewerDID) dids) visibility))"

definition buildVisibleToUnlockableMap ::
  "string option \<Rightarrow> store option \<Rightarrow> string \<Rightarrow> string list \<Rightarrow> (string \<times> bool) list" where
  "buildVisibleToUnlockableMap viewscope access viewerDID contractAddrs =
     (if access = None then [] else UnlockableContracts viewscope access viewerDID contractAddrs)"

definition buildTxVisibilityContext ::
  "string option \<Rightarrow> store option \<Rightarrow> tx_visibility_store option \<Rightarrow> string \<Rightarrow> json option \<Rightarrow> tx_visibility_context option" where
  "buildTxVisibilityContext viewscope access txVisibilityStore userDID responseBody =
     (case txVisibilityStore of
        None \<Rightarrow> None
      | Some store \<Rightarrow>
          if userDID = '''' then None
          else let txHashes = extractTxHashesFromResponse responseBody in
            if txHashes = [] then None
            else (case txVisibilityForViewer viewscope store txHashes of
                    Inl _ \<Rightarrow> None
                  | Inr visibility \<Rightarrow>
                      if visibility = [] then None
                      else Some \<lparr>tvc_ViewerDID = userDID, tvc_TxVisibility = visibility,
                                 tvc_UnlockableContracts =
                                   buildVisibleToUnlockableMap viewscope access userDID
                                     (extractContractAddressesFromResponse responseBody),
                                 tvc_ParticipantTxHashes = []\<rparr>))"

definition standardTxVisibilityContext ::
  "read_profile \<Rightarrow> string option \<Rightarrow> store option \<Rightarrow> tx_visibility_store option \<Rightarrow> string \<Rightarrow> json option
     \<Rightarrow> tx_visibility_context option" where
  "standardTxVisibilityContext profile viewscope access txVisibilityStore userDID responseBody =
     (if Strict profile then None else buildTxVisibilityContext viewscope access txVisibilityStore userDID responseBody)"

section \<open>Transactions the viewer took part in\<close>

definition participantResolveMaxTxs :: nat where
  "participantResolveMaxTxs = 256"

definition tx_lookup_batch :: "string list \<Rightarrow> json" where
  "tx_lookup_batch hashes =
     JArr (map (\<lambda>(i, h). JObj [(''id'', JNum (itoa (int i))), (''jsonrpc'', JStr ''2.0''),
                              (''method'', JStr ''eth_getTransactionByHash''), (''params'', JArr [JStr h])])
               (enumerate 0 hashes))"

definition tx_lookup_result :: "json \<Rightarrow> (string \<Rightarrow> string) option option" where
  "tx_lookup_result =
     json_struct (\<lambda>kv r. if struct_field [''result''] (fst kv) = None then Some r
                         else if snd kv = JNull then Some None
                         else map_option Some (struct_strings [''hash'', ''from'', ''to''] (snd kv))) None"

definition buildParticipantTxHashes ::
  "(json \<Rightarrow> json option res) option \<Rightarrow> string list \<Rightarrow> json option \<Rightarrow> (string \<times> bool) list" where
  "buildParticipantTxHashes proxy addrs responseBody =
     (case proxy of
        None \<Rightarrow> []
      | Some Forward \<Rightarrow>
          if addrs = [] then []
          else let hashes = extractTxHashesFromResponse responseBody in
            if hashes = [] \<or> participantResolveMaxTxs < length hashes then []
            else (case Forward (tx_lookup_batch hashes) of
                    Inr (Some resp) \<Rightarrow>
                      (case json_slice tx_lookup_result resp of
                         None \<Rightarrow> []
                       | Some results \<Rightarrow>
                           fold (\<lambda>r out. case r of
                                   None \<Rightarrow> out
                                 | Some tx \<Rightarrow>
                                     if to_lower (tx ''from'') \<in> set (map to_lower addrs) \<or>
                                        to_lower (tx ''to'') \<noteq> '''' \<and> to_lower (tx ''to'') \<in> set (map to_lower addrs)
                                     then AList.update (to_lower (tx ''hash'')) True out else out) results [])
                  | _ \<Rightarrow> []))"

section \<open>The impersonation scope on transactions and receipts\<close>

text \<open>The go-ethereum helpers: a hexadecimal quantity, the address syntax and the address a deployment creates.\<close>

record geth_lib =
  gl_DecodeUint64 :: "string \<Rightarrow> nat option"
  gl_IsHexAddress :: "string \<Rightarrow> bool"
  gl_CreateAddress :: "string \<Rightarrow> nat \<Rightarrow> string"

text \<open>Members decoded into pointers to strings: absent and null are nil.\<close>

definition struct_pointers :: "string list \<Rightarrow> string list \<Rightarrow> json \<Rightarrow> (string \<Rightarrow> string option) option" where
  "struct_pointers plain names =
     json_struct (\<lambda>kv r. case struct_field (plain @ names) (fst kv) of
                           None \<Rightarrow> Some r
                         | Some f \<Rightarrow>
                             if snd kv = JNull then Some (if f \<in> set plain then r else r(f := None))
                             else map_option (\<lambda>s. r(f := Some s)) (json_string '''' (snd kv))) (\<lambda>_. None)"

fun foreign_target :: "store \<Rightarrow> string \<Rightarrow> string option list \<Rightarrow> bool" where
  "foreign_target st scope [] = False"
| "foreign_target st scope (addr # addrs) =
     (case addr of
        None \<Rightarrow> foreign_target st scope addrs
      | Some a \<Rightarrow>
          if a = '''' then foreign_target st scope addrs
          else (case st_GetContractOwnerOrgID st (to_lower a) of
                  Inl _ \<Rightarrow> True
                | Inr owner \<Rightarrow>
                    if owner \<noteq> '''' \<and> (scope = '''' \<or> owner \<noteq> scope) then True
                    else foreign_target st scope addrs))"

definition transaction_object_methods :: "string list" where
  "transaction_object_methods =
     [''eth_getTransactionByHash'', ''eth_getTransactionReceipt'',
      ''eth_getTransactionByBlockHashAndIndex'', ''eth_getTransactionByBlockNumberAndIndex'']"

definition applyViewerOrgScopeEnvelope :: "env \<Rightarrow> geth_lib \<Rightarrow> string \<Rightarrow> json option \<Rightarrow> json option" where
  "applyViewerOrgScopeEnvelope en gl method body =
     (case en_viewscope en of
        None \<Rightarrow> body
      | Some scope \<Rightarrow>
          let method = ResolveMethodAlias (en_registries en) method; null = Some (nullResult body) in
          if method \<notin> set transaction_object_methods then body
          else (case raw_member ''result'' body of
                  None \<Rightarrow> null
                | Some result \<Rightarrow>
                    if result = None \<or> result = Some JNull then body
                    else (case struct_pointers [''from''] [''to'', ''contractAddress'', ''nonce''] (the result) of
                            None \<Rightarrow> null
                          | Some obj \<Rightarrow>
                              let targets = [obj ''to'', obj ''contractAddress''];
                                  from = (case obj ''from'' of None \<Rightarrow> '''' | Some f \<Rightarrow> f) in
                              if method \<noteq> ''eth_getTransactionReceipt'' \<and> (obj ''to'' = None \<or> obj ''to'' = Some '''')
                              then (case obj ''nonce'' of
                                      None \<Rightarrow> null
                                    | Some n \<Rightarrow>
                                        (case gl_DecodeUint64 gl n of
                                           None \<Rightarrow> null
                                         | Some nonce \<Rightarrow>
                                             if \<not> gl_IsHexAddress gl from then null
                                             else if foreign_target (en_store en) scope
                                                       (targets @ [Some (to_lower (gl_CreateAddress gl from nonce))])
                                             then null else body))
                              else if foreign_target (en_store en) scope targets then null else body)))"

definition impersonationRPCMethods :: "string list" where
  "impersonationRPCMethods =
     [''eth_call'', ''eth_getLogs'', ''eth_getTransactionReceipt'', ''eth_getTransactionByHash'', ''eth_getBalance'',
      ''eth_getCode'', ''eth_getStorageAt'', ''eth_blockNumber'', ''eth_chainId'', ''eth_gasPrice'', ''net_version'',
      ''net_listening'', ''web3_clientVersion'']"

end
