(* ===== verification/Access_Properties.thy ===== *)
theory Access_Properties
  imports Access_Control
begin

text \<open>
  What the access decision guarantees: organization isolation, the basis of every allowed call, the
  floors for anonymous callers, the claim gates (deployment, storage, upgrade, function rules) and the
  attribution of results.
\<close>

section \<open>Allowed requests, phase by phase\<close>

text \<open>The permissions a request is judged with: those of the caller, in the organization the request resolves to.\<close>

definition caller_permissions ::
  "env \<Rightarrow> access_controller \<Rightarrow> access_check_request \<Rightarrow> user \<Rightarrow> organization \<Rightarrow> effective_permissions
     \<Rightarrow> access_controller \<Rightarrow> bool" where
  "caller_permissions en c req usr org perms c' \<longleftrightarrow>
     st_GetUserByExternalID (en_store en) (acr_UserExternalID req) = Inr (Some usr)
     \<and> (\<exists>oc. resolveOrgContextForRequest en req usr = Next (org, oc))
     \<and> resolvePermissionsForRequest en c req usr org = (Inr perms, c')"

lemma authenticated_allowed:
  assumes "CheckAccess en c req = (Inr r, c')" "acx_Allowed r" "acr_UserExternalID req \<noteq> ''''"
    and "norm_addr (acr_Method req) \<notin> set orgFreeMetadataMethods"
  obtains usr org oc perms as r0 where
    "st_GetUserByExternalID (en_store en) (acr_UserExternalID req) = Inr (Some usr)" "\<not> usr_Banned usr" "usr_KYC usr"
    "checkHistoricalStateQuery en req usr = Next ()"
    "resolveOrgContextForRequest en req usr = Next (org, oc)"
    "NewOrgContext en usr (norm_addr (acr_TargetAddress req)) = Inr oc" "memo_ok en oc"
    "caller_permissions en c req usr org perms c'"
    "HasMethod (en_registries en) perms (acr_Method req)"
    "allowed_by en req usr org oc perms as"
    "ClassifyOperation (EffectiveMethod req) (acr_Params req) = ClaimDeploy \<longrightarrow> as \<in> {AsLogQuery, AsDeployment}"
    "as = AsLogQuery \<longleftrightarrow> EffectiveMethod req = ''eth_getLogs''"
    "r = attribute usr org r0"
proof -
  from CheckAccess_authenticated [OF assms] obtain usr org oc perms r0 where
    p: "resolveAndValidateUser en req = Next usr" "checkHistoricalStateQuery en req usr = Next ()"
      "resolveOrgContextForRequest en req usr = Next (org, oc)"
      "resolvePermissionsForRequest en c req usr org = (Inr perms, c')"
      "decide_with_permissions en req usr org oc perms = Inr r0" "acx_Allowed r0" "r = attribute usr org r0"
    by (elim exE conjE)
  note u = resolveAndValidateUser_Next [OF p(1)]
  note new = resolveOrgContext_Next [OF p(3)]
  have "memo_ok en oc" by (rule NewOrgContext_memo [OF new])
  from decide_allowed [OF p(5,6) this] obtain as where a:
    "HasMethod (en_registries en) perms (acr_Method req)" "allowed_by en req usr org oc perms as"
    "ClassifyOperation (EffectiveMethod req) (acr_Params req) = ClaimDeploy \<longrightarrow> as \<in> {AsLogQuery, AsDeployment}"
    "as = AsLogQuery \<longleftrightarrow> EffectiveMethod req = ''eth_getLogs''"
    by (elim exE conjE)
  from u p(3,4) have cp: "caller_permissions en c req usr org perms c'" by (auto simp: caller_permissions_def)
  from u assms(4) have "usr_KYC usr" by simp
  with that cp p u new \<open>memo_ok en oc\<close> a show thesis by blast
qed

lemma contract_call_passes:
  assumes "validateContractAccess en req usr org oc perms rc = Next ()"
  obtains access explicit oc' where
    "resolve_access en req usr oc perms rc = Inr (Some access, explicit, oc')"
    "CheckDefaultClaimsAllowed en oc' (to_lower (acr_TargetAddress req)) explicit = Inr ()"
    "validateStorageReadAccess req access = None"
    "validateFunctionSelector en req org access = Next ()"
    "EffectiveMethod req = ''eth_sendTransaction'' \<Longrightarrow> validateProxyUpgrade en req org access = Next ()"
  using assms that by (auto simp: validateContractAccess_def split: sum.splits option.splits if_splits phase.splits)

lemma default_claims_precompile:
  assumes "CheckDefaultClaimsAllowed en oc a explicit = Inr ()" "norm_addr a \<noteq> ''''"
  shows "explicit \<or> st_GetContractOwnerOrgID (en_store en) (norm_addr a) = Inr '''' \<and> IsPrecompileAddress (norm_addr a)"
  using assms by (auto simp: CheckDefaultClaimsAllowed_def Let_def split: sum.splits if_splits)

lemma context_owner:
  assumes "NewOrgContext en usr (norm_addr t) = Inr oc" "norm_addr t \<noteq> ''''"
  obtains ids owner where "GetUserOrgIDs (en_store en) (usr_ID usr) = Inr ids"
    "st_GetContractOwnerOrgID (en_store en) (norm_addr t) = Inr owner"
    "owner = '''' \<or> owner \<in> set ids \<and> (\<forall>scope. en_viewscope en = Some scope \<longrightarrow> owner = scope)"
proof -
  from NewOrgContext_owner [OF assms] obtain owner where o:
    "st_GetContractOwnerOrgID (en_store en) (norm_addr t) = Inr owner"
    "owner = '''' \<or> owner \<in> set (oc_userOrgIDs oc)" by auto
  from NewOrgContext_orgs [OF assms(1)] obtain ids where i:
    "GetUserOrgIDs (en_store en) (usr_ID usr) = Inr ids" "oc_userOrgIDs oc = scopeUserOrgIDs (en_viewscope en) ids"
    by (elim exE conjE)
  have "owner = '''' \<or> owner \<in> set ids \<and> (\<forall>scope. en_viewscope en = Some scope \<longrightarrow> owner = scope)"
    using o(2) i(2) by (auto simp: scopeUserOrgIDs_def split: option.splits if_splits)
  with i(1) o(1) that show thesis by blast
qed

section \<open>Examples\<close>

definition demo_member :: user where
  "demo_member = demo_user\<lparr>usr_KYC := True\<rparr>"

definition demo_access_store :: store where
  "demo_access_store =
     (demo_store None)\<lparr>
       st_GetUserByExternalID := (\<lambda>e. Inr (if e = ''ext'' then Some demo_member else None)),
       st_ListActiveUserMembershipsWithDetails :=
         (\<lambda>u. Inr (if u = ''u'' then [demo_membership ''g1'' (Some 50), demo_membership ''g2'' None] else [])),
       st_GetOrganization := (\<lambda>i. Inr (if i = ''o'' then Some demo_org else None)),
       st_GetContractOwnerOrgID := (\<lambda>a. Inr (if a = ''0xabc'' then ''o'' else ''''))\<rparr>"

definition demo_access_env :: env where
  "demo_access_env = (demo_env 5)\<lparr>en_store := demo_access_store\<rparr>"

definition demo_controller :: access_controller where
  "demo_controller =
     \<lparr>ac_resolver = demo_resolver, ac_cache = NewCache \<lparr>cc_TTL = 100, cc_MaxEntries = 10\<rparr>,
      ac_table = \<lparr>ct_rows = [], ct_generation = 1\<rparr>, ac_anonAccess = None, ac_anonAccessExpires = 0,
      ac_anonAccessCacheTTL = 5\<rparr>"

definition demo_call :: "string \<Rightarrow> access_check_request" where
  "demo_call to = demo_request\<lparr>acr_Params := [JObj [(''to'', JStr to)]], acr_TargetAddress := to\<rparr>"

lemma demo_run:
  assumes "map_sum id acx_Allowed (fst (CheckAccess en c req)) = Inr True"
  obtains r c' where "CheckAccess en c req = (Inr r, c')" "acx_Allowed r"
  using assms by (cases "CheckAccess en c req") (auto simp: map_sum_def split: sum.splits)

lemma demo_call_allowed:
  "map_sum id acx_Allowed (fst (CheckAccess demo_access_env demo_controller (demo_call ''0xabc''))) = Inr True"
  by code_simp

lemma demo_call_facts:
  "acr_UserExternalID (demo_call t) \<noteq> ''''" "norm_addr (acr_Method (demo_call t)) \<notin> set orgFreeMetadataMethods"
  "norm_addr (acr_TargetAddress (demo_call ''0xabc'')) \<noteq> ''''" "acr_TargetAddress (demo_call ''0xabc'') = ''0xabc''"
proof -
  show "acr_UserExternalID (demo_call t) \<noteq> ''''" "acr_TargetAddress (demo_call ''0xabc'') = ''0xabc''"
    by (simp_all add: demo_call_def demo_request_def)
  have "norm_addr ''eth_call'' = ''eth_call''" "norm_addr ''0xabc'' = ''0xabc''" by code_simp+
  then show "norm_addr (acr_Method (demo_call t)) \<notin> set orgFreeMetadataMethods"
    "norm_addr (acr_TargetAddress (demo_call ''0xabc'')) \<noteq> ''''"
    by (simp_all add: demo_call_def demo_request_def orgFreeMetadataMethods_def)
qed

section \<open>Properties\<close>

text \<open>
  C1. Organization isolation. When an authenticated request with a target address is allowed, the
  caller is a known user who is neither banned nor unverified, and the target belongs to no
  organization or to one of which the caller is an active member; in an impersonated view it is the
  organization of the view.
\<close>

theorem cross_org_isolation:
  assumes "CheckAccess en c req = (Inr r, c')" "acx_Allowed r" "acr_UserExternalID req \<noteq> ''''"
    and "norm_addr (acr_Method req) \<notin> set orgFreeMetadataMethods"
    and "norm_addr (acr_TargetAddress req) \<noteq> ''''"
  shows "\<exists>usr ids owner.
     st_GetUserByExternalID (en_store en) (acr_UserExternalID req) = Inr (Some usr) \<and> \<not> usr_Banned usr \<and> usr_KYC usr
     \<and> GetUserOrgIDs (en_store en) (usr_ID usr) = Inr ids
     \<and> st_GetContractOwnerOrgID (en_store en) (norm_addr (acr_TargetAddress req)) = Inr owner
     \<and> (owner = '''' \<or> owner \<in> set ids \<and> (\<forall>scope. en_viewscope en = Some scope \<longrightarrow> owner = scope))"
  using assms(1-4)
proof (rule authenticated_allowed)
  fix usr org oc
  assume u: "st_GetUserByExternalID (en_store en) (acr_UserExternalID req) = Inr (Some usr)" "\<not> usr_Banned usr" "usr_KYC usr"
    and "NewOrgContext en usr (norm_addr (acr_TargetAddress req)) = Inr oc"
  from this(4) assms(5) show ?thesis
    by (rule context_owner) (use u in blast)
qed

theorem cross_org_isolation_witness:
  "\<exists>ids. GetUserOrgIDs demo_access_store ''u'' = Inr ids \<and> ''o'' \<in> set ids"
proof -
  obtain r c' where run: "CheckAccess demo_access_env demo_controller (demo_call ''0xabc'') = (Inr r, c')" "acx_Allowed r"
    using demo_run [OF demo_call_allowed] .
  from cross_org_isolation [OF run demo_call_facts(1-3)]
  obtain usr ids owner where w:
    "st_GetUserByExternalID (en_store demo_access_env) (acr_UserExternalID (demo_call ''0xabc'')) = Inr (Some usr)"
    "GetUserOrgIDs (en_store demo_access_env) (usr_ID usr) = Inr ids"
    "st_GetContractOwnerOrgID (en_store demo_access_env) (norm_addr (acr_TargetAddress (demo_call ''0xabc''))) = Inr owner"
    "owner = '''' \<or> owner \<in> set ids \<and> (\<forall>scope. en_viewscope demo_access_env = Some scope \<longrightarrow> owner = scope)"
    by (elim exE conjE)
  have "norm_addr ''0xabc'' = ''0xabc''" by code_simp
  with w show ?thesis
    by (auto simp: demo_access_env_def demo_access_store_def demo_call_def demo_request_def demo_member_def demo_user_def)
qed

lemma norm_addr_Nil [simp]: "norm_addr '''' = ''''"
  by (simp add: norm_addr_def)

lemma not_deployment_claim:
  "ClassifyOperation m ps \<noteq> ClaimDeploy \<Longrightarrow> ClassifyOperation m ps = ''''"
  using ClassifyOperation_cases [of m ps] by simp



text \<open>
  C3. Floors that hold for every caller, whatever the groups allow: an allowed method is not globally
  blocked and is one the proxy forwards, no batching call hides inner calls, and no simulation
  override is present, under the method's own name and under its alias target.
\<close>

theorem global_floor:
  assumes "CheckAccess en c req = (Inr r, c')" "acx_Allowed r" "m \<in> {acr_Method req, EffectiveMethod req}"
  shows "\<not> IsMethodBlocked (acr_Method req)
     \<and> IsForwardableMethod (en_registries en) (CanonicalizeMethod (acr_Method req))
     \<and> \<not> fst (DetectMulticall m (acr_Params req))
     \<and> \<not> fst (DetectStateOverride (en_registries en) m (acr_Params req))"
proof -
  have "checkGlobalBlocks (en_registries en) req = None" "checkStateOverrides (en_registries en) req = None"
    using CheckAccess_passes [OF assms(1,2)] by simp_all
  then show ?thesis
    using assms(3)
    by (auto simp: checkGlobalBlocks_def checkStateOverrides_def methodsToJudge_def Let_def
        split: if_splits option.splits)
qed

theorem global_floor_witness:
  "\<not> fst (DetectMulticall ''eth_call'' (acr_Params (demo_call ''0xabc'')))
   \<and> \<not> fst (DetectStateOverride empty_registries ''eth_call'' (acr_Params (demo_call ''0xabc'')))"
proof -
  obtain r c' where run: "CheckAccess demo_access_env demo_controller (demo_call ''0xabc'') = (Inr r, c')" "acx_Allowed r"
    using demo_run [OF demo_call_allowed] .
  from global_floor [OF run, of "''eth_call''"] show ?thesis
    by (simp add: demo_call_def demo_request_def demo_access_env_def demo_env_def)
qed

text \<open>
  C4. A request without credentials that is allowed names a built-in method that the anonymous
  group's row lists, is not a historical-state query, is not a deployment and is not a raw storage
  read, under the method's own name and under its alias target.
\<close>

theorem anonymous_floor:
  assumes "CheckAccess en c req = (Inr r, c')" "acx_Allowed r" "acr_UserExternalID req = ''''"
    and "m \<in> {acr_Method req, EffectiveMethod req}"
  shows "IsCatalogMethod (CanonicalizeMethod (acr_Method req))
     \<and> \<not> fst (IsHistoricalStateQuery m (acr_Params req))
     \<and> \<not> IsContractDeployment m (acr_Params req) \<and> \<not> isStorageReadMethod m
     \<and> (\<exists>access. (ac_anonAccess c = Some access \<and> en_now en < ac_anonAccessExpires c
                  \<or> st_GetGroupAccess (en_store en) AnonymousGroupID = Inr (Some access))
          \<and> (\<exists>a \<in> set (ga_AllowedMethods access). to_lower a = norm_addr (acr_Method req)))"
proof -
  have run: "checkAnonymousAccess en c req = (Inr r, c')"
    using assms(1,3) CheckAccess_passes [OF assms(1,2)] by (simp add: CheckAccess_def)
  have hist: "\<not> fst (historicalStateQuery req)"
    using run assms(2) by (auto simp: checkAnonymousAccess_def)
  have cat: "IsCatalogMethod (CanonicalizeMethod (acr_Method req))"
    using run assms(2) hist by (auto simp: checkAnonymousAccess_def split: if_splits)
  obtain row c1 where row: "getAnonymousAccessCached en c = (row, c1)" by (cases "getAnonymousAccessCached en c")
  with run assms(2) hist cat obtain access where a: "row = Inr (Some access)"
    by (auto simp: checkAnonymousAccess_def split: sum.splits option.splits)
  have rest: "list_ex (\<lambda>al. to_lower al = norm_addr (acr_Method req)) (ga_AllowedMethods access)"
    "\<not> anyMethodToJudge req (\<lambda>m. IsContractDeployment m (acr_Params req))"
    "\<not> anyMethodToJudge req isStorageReadMethod"
    using run assms(2) hist cat row a by (auto simp: checkAnonymousAccess_def Let_def split: if_splits)
  have src: "ac_anonAccess c = Some access \<and> en_now en < ac_anonAccessExpires c
      \<or> st_GetGroupAccess (en_store en) AnonymousGroupID = Inr (Some access)"
    using row a by (auto simp: getAnonymousAccessCached_def split: if_splits sum.splits)
  from hist rest(2,3) assms(4) have "\<not> fst (IsHistoricalStateQuery m (acr_Params req))"
    "\<not> IsContractDeployment m (acr_Params req)" "\<not> isStorageReadMethod m"
    by (auto simp: historicalStateQuery_iff anyMethodToJudge_iff)
  moreover have "\<exists>a \<in> set (ga_AllowedMethods access). to_lower a = norm_addr (acr_Method req)"
    using rest(1) by (auto simp: list_ex_iff)
  ultimately show ?thesis using cat src by blast
qed

definition demo_anonymous :: access_check_request where
  "demo_anonymous = demo_request\<lparr>acr_UserExternalID := '''', acr_Method := ''eth_chainId''\<rparr>"

definition demo_anonymous_env :: env where
  "demo_anonymous_env =
     demo_access_env\<lparr>en_store := demo_access_store\<lparr>st_GetGroupAccess :=
       (\<lambda>g. Inr (if g = AnonymousGroupID then Some (demo_access AnonymousGroupID [''eth_chainId''] []) else None))\<rparr>\<rparr>"

lemma demo_anonymous_allowed:
  "map_sum id acx_Allowed (fst (CheckAccess demo_anonymous_env demo_controller demo_anonymous)) = Inr True"
  by code_simp

theorem anonymous_floor_witness: "IsCatalogMethod (CanonicalizeMethod ''eth_chainId'') \<and> \<not> isStorageReadMethod ''eth_chainId''"
proof -
  obtain r c' where run: "CheckAccess demo_anonymous_env demo_controller demo_anonymous = (Inr r, c')" "acx_Allowed r"
    using demo_run [OF demo_anonymous_allowed] .
  have m: "acr_Method demo_anonymous = ''eth_chainId''" "acr_UserExternalID demo_anonymous = ''''"
    by (simp_all add: demo_anonymous_def demo_request_def)
  from anonymous_floor [OF run m(2), of "''eth_chainId''"] show ?thesis by (simp add: m)
qed

text \<open>
  Contract creation needs the deploy claim. When a request that the node would run as creation
  code is allowed, the caller holds the deploy claim in the organization, the call object is
  well-formed and it carries code; a supplied target address does not change that.
\<close>

theorem deployment_needs_claim:
  assumes "CheckAccess en c req = (Inr r, c')" "acx_Allowed r" "acr_UserExternalID req \<noteq> ''''"
    and "norm_addr (acr_Method req) \<notin> set orgFreeMetadataMethods"
    and "IsContractDeployment (EffectiveMethod req) (acr_Params req)"
  shows "\<exists>usr org perms. caller_permissions en c req usr org perms c'
     \<and> hasClaim (ep_Claims perms) ClaimDeploy \<and> ClassifyCallShape (acr_Params req) = CallShapeCreation
     \<and> extractDeploymentBytecode (EffectiveMethod req) (acr_Params req) \<noteq> ''''"
  using assms(1-4)
proof (rule authenticated_allowed)
  fix usr org oc perms as
  assume p: "caller_permissions en c req usr org perms c'"
    and a: "allowed_by en req usr org oc perms as"
      "ClassifyOperation (EffectiveMethod req) (acr_Params req) = ClaimDeploy \<longrightarrow> as \<in> {AsLogQuery, AsDeployment}"
      "as = AsLogQuery \<longleftrightarrow> EffectiveMethod req = ''eth_getLogs''"
  have "IsContractDeployment (to_lower (trim_space (EffectiveMethod req))) (acr_Params req)"
    using assms(5) norm_addr_idem [of "EffectiveMethod req"] by (simp add: IsContractDeployment_def norm_addr_def)
  then have "ClassifyOperation (EffectiveMethod req) (acr_Params req) = ClaimDeploy"
    by (simp add: ClassifyOperation_def Let_def)
  moreover have "EffectiveMethod req \<noteq> ''eth_getLogs''"
  proof
    assume "EffectiveMethod req = ''eth_getLogs''"
    moreover have "to_lower (trim_space ''eth_getLogs'') = ''eth_getlogs''" by code_simp
    ultimately show False using assms(5) by (simp add: IsContractDeployment_def)
  qed
  ultimately have "allowed_by en req usr org oc perms AsDeployment" using a by auto
  moreover have "ClassifyCallShape (acr_Params req) \<in> {CallShapeCreation, CallShapeMalformed}"
    using assms(5) by (auto simp: IsContractDeployment_def split: if_splits CallShape.splits)
  ultimately show ?thesis using p by auto
qed

definition demo_deploy :: access_check_request where
  "demo_deploy = demo_request\<lparr>acr_Method := ''eth_call'', acr_Params := [JObj [(''data'', JStr ''0x6001'')]]\<rparr>"

definition demo_deploy_env :: env where
  "demo_deploy_env =
     demo_access_env\<lparr>en_store := demo_access_store\<lparr>st_GetGroupAccessBatch :=
       (\<lambda>ids. Inr [(''g1'', demo_access ''g1'' [''eth_call''] [ClaimDeploy])])\<rparr>\<rparr>"

lemma demo_deploy_allowed:
  "map_sum id acx_Allowed (fst (CheckAccess demo_deploy_env demo_controller demo_deploy)) = Inr True"
  by code_simp

theorem deployment_needs_claim_witness:
  "\<exists>usr org perms c'. caller_permissions demo_deploy_env demo_controller demo_deploy usr org perms c'
     \<and> hasClaim (ep_Claims perms) ClaimDeploy"
proof -
  obtain r c' where run: "CheckAccess demo_deploy_env demo_controller demo_deploy = (Inr r, c')" "acx_Allowed r"
    using demo_run [OF demo_deploy_allowed] .
  have m: "acr_UserExternalID demo_deploy \<noteq> ''''" "acr_Method demo_deploy = ''eth_call''"
    "EffectiveMethod demo_deploy = ''eth_call''"
    by (simp_all add: demo_deploy_def demo_request_def EffectiveMethod_def)
  have "norm_addr ''eth_call'' = ''eth_call''" by code_simp
  then have n: "norm_addr (acr_Method demo_deploy) \<notin> set orgFreeMetadataMethods"
    by (simp add: m orgFreeMetadataMethods_def)
  have "IsContractDeployment ''eth_call'' (acr_Params demo_deploy)" by code_simp
  then have d: "IsContractDeployment (EffectiveMethod demo_deploy) (acr_Params demo_deploy)" by (simp add: m)
  from deployment_needs_claim [OF run m(1) n d] show ?thesis by blast
qed

lemma storage_method_not_call:
  assumes "isStorageReadMethod m"
  shows "ClassifyOperation m ps = ''''" "m \<noteq> ''eth_getLogs''" "\<not> isBasicAddressQuery m"
    "m \<notin> {''eth_sendTransaction'', ''eth_estimateGas''}"
proof -
  have m: "m = ''eth_getStorageAt'' \<or> m = ''eth_getProof''"
    using assms by (simp add: isStorageReadMethod_def MethodGetStorageAt_def MethodGetProof_def)
  have "to_lower (trim_space ''eth_getStorageAt'') = ''eth_getstorageat''"
    "to_lower (trim_space ''eth_getProof'') = ''eth_getproof''"
    "to_lower (trim_space ''eth_getstorageat'') = ''eth_getstorageat''"
    "to_lower (trim_space ''eth_getproof'') = ''eth_getproof''" by code_simp+
  with m show "ClassifyOperation m ps = ''''"
    by (auto simp: ClassifyOperation_def IsContractDeployment_def)
  from m show "m \<noteq> ''eth_getLogs''" "\<not> isBasicAddressQuery m" "m \<notin> {''eth_sendTransaction'', ''eth_estimateGas''}"
    by (auto simp: isBasicAddressQuery_def)
qed

lemma storage_tier_keys:
  assumes "validateStorageReadAccess req access = None" "isStorageReadMethod (EffectiveMethod req)"
  shows "hasClaim (ca_Claims access) ClaimAdmin
    \<or> (\<exists>keys. requestedStorageKeys (EffectiveMethod req) (acr_Params req) = Some keys \<and> list_all IsWellKnownStorageSlot keys)"
  using assms
  by (auto simp: validateStorageReadAccess_def anyMethodToJudge_iff methodsToJudge_def Let_def list_ex_iff list_all_iff
      split: if_splits option.splits)

lemma storage_tier_aux:
  assumes "CheckAccess en c req = (Inr r, c')" "acx_Allowed r" "acr_UserExternalID req \<noteq> ''''"
    and "norm_addr (acr_Method req) \<notin> set orgFreeMetadataMethods"
    and s: "isStorageReadMethod (EffectiveMethod req)"
  shows "acr_TargetAddress req \<noteq> ''''
     \<and> (\<exists>usr org perms. caller_permissions en c req usr org perms c'
          \<and> (HasAdminOnContract perms (acr_TargetAddress req)
             \<or> (\<exists>keys. requestedStorageKeys (EffectiveMethod req) (acr_Params req) = Some keys
                  \<and> list_all IsWellKnownStorageSlot keys)))"
  using assms(1-4)
proof (rule authenticated_allowed)
  fix usr org oc perms as
  assume p: "caller_permissions en c req usr org perms c'"
    and a: "allowed_by en req usr org oc perms as" "as = AsLogQuery \<longleftrightarrow> EffectiveMethod req = ''eth_getLogs''"
  note n = storage_method_not_call [OF s]
  have "anyMethodToJudge req isStorageReadMethod" using s by (simp add: anyMethodToJudge_iff)
  with a n have c: "allowed_by en req usr org oc perms AsContractCall"
    by (cases as) (auto simp: ClaimDeploy_def)
  then obtain oc1 where oc1: "memo_ok en oc1" "validateContractAccess en req usr org oc1 perms '''' = Next ()"
    using n(1) [of "acr_Params req"] by auto
  have t: "acr_TargetAddress req \<noteq> ''''" using c by simp
  from oc1(2) show ?thesis
  proof (rule contract_call_passes)
    fix access explicit oc2
    assume r: "resolve_access en req usr oc1 perms '''' = Inr (Some access, explicit, oc2)"
      and v: "validateStorageReadAccess req access = None"
    have "HasAdminOnContract perms (acr_TargetAddress req)" if "hasClaim (ca_Claims access) ClaimAdmin"
      using resolve_access_origin [OF oc1(1) r] that
      by (auto simp: HasAdminOnContract_def HasContractClaim_def GetContractAccess_def hasClaim_def ClaimAdmin_def ClaimDeploy_def)
    with storage_tier_keys [OF v s] p t show ?thesis by blast
  qed
qed

lemma nm_storage: "norm_addr ''eth_getStorageAt'' = ''eth_getstorageat''" by code_simp

lemma storage_probe_facts:
  shows "acr_TargetAddress (storage_probe u org addr bypass) = addr"
    "acr_UserExternalID (storage_probe u org addr bypass) = u"
    "norm_addr (acr_Method (storage_probe u org addr bypass)) \<notin> set orgFreeMetadataMethods"
    "isStorageReadMethod (EffectiveMethod (storage_probe u org addr bypass))"
    "\<not> (\<exists>keys. requestedStorageKeys (EffectiveMethod (storage_probe u org addr bypass))
           (acr_Params (storage_probe u org addr bypass)) = Some keys \<and> list_all IsWellKnownStorageSlot keys)"
proof -
  have slot: "\<not> IsWellKnownStorageSlot ''0x0''" by code_simp
  have "requestedStorageKeys (EffectiveMethod (storage_probe u org addr bypass))
      (acr_Params (storage_probe u org addr bypass)) = Some [''0x0'']"
    by (simp add: storage_probe_def requestedStorageKeys_def EffectiveMethod_def extractStorageSlot_def nth_param_def
        PrivateStorageSlot_def)
  with slot show "\<not> (\<exists>keys. requestedStorageKeys (EffectiveMethod (storage_probe u org addr bypass))
           (acr_Params (storage_probe u org addr bypass)) = Some keys \<and> list_all IsWellKnownStorageSlot keys)" by simp
qed (use nm_storage in \<open>simp_all add: storage_probe_def MethodGetStorageAt_def orgFreeMetadataMethods_def
       isStorageReadMethod_def EffectiveMethod_def\<close>)

text \<open>
  C5. Raw storage is tiered. When a storage read (\<^verbatim>\<open>eth_getStorageAt\<close>, \<^verbatim>\<open>eth_getProof\<close> or an
  alias of one) is allowed, it names a target, and either the caller has the admin claim on that very
  contract or every requested slot is one of the well-known infrastructure slots.
\<close>

theorem storage_tier:
  assumes "CheckAccess en c req = (Inr r, c')" "acx_Allowed r" "acr_UserExternalID req \<noteq> ''''"
    and "norm_addr (acr_Method req) \<notin> set orgFreeMetadataMethods"
    and "isStorageReadMethod (EffectiveMethod req)"
  shows "acr_TargetAddress req \<noteq> ''''
     \<and> (\<exists>usr org perms. caller_permissions en c req usr org perms c'
          \<and> (HasAdminOnContract perms (acr_TargetAddress req)
             \<or> (\<exists>keys. requestedStorageKeys (EffectiveMethod req) (acr_Params req) = Some keys
                  \<and> list_all IsWellKnownStorageSlot keys)))"
  using assms by (rule storage_tier_aux)

text \<open>
  The shortcut used for client traces answers yes only for callers with the admin claim on the
  contract, in the organization the probe resolves to, which is the one the answer was asked for.
\<close>

theorem private_storage_needs_admin:
  assumes "CanReadPrivateStorage en c u org addr bypass = (Inr True, c')" "u \<noteq> ''''"
  shows "\<exists>usr og perms. caller_permissions en c (storage_probe u org addr bypass) usr og perms c' \<and> HasAdminOnContract perms addr"
proof -
  let ?req = "storage_probe u org addr bypass"
  obtain r where run: "CheckAccess en c ?req = (Inr r, c')" "acx_Allowed r"
    using assms(1) by (auto simp: CanReadPrivateStorage_def split: prod.splits sum.splits)
  note p = storage_probe_facts [of u org addr bypass]
  from storage_tier_aux [OF run _ p(3,4)] assms(2) p(1,2,5) show ?thesis by auto
qed

definition demo_storage_env :: env where
  "demo_storage_env =
     demo_access_env\<lparr>en_store := demo_access_store\<lparr>
       st_ListUserMembershipsInOrg := (\<lambda>u org. Inr (if u = ''u'' \<and> org = ''o''
         then [(demo_membership ''g1'' None)\<lparr>mwd_Group := (demo_group ''g1'')\<lparr>grp_IsOrgAdmin := True\<rparr>\<rparr>] else [])),
       st_ListContracts := (\<lambda>org. Inr [demo_contract]),
       st_GetGroupAccessBatch := (\<lambda>ids. Inr [(''g1'', demo_access ''g1'' [''eth_getStorageAt''] [])])\<rparr>\<rparr>"

lemma demo_storage_allowed:
  "fst (CanReadPrivateStorage demo_storage_env demo_controller ''ext'' ''o'' ''0xabc'' False) = Inr True"
  by code_simp

theorem private_storage_needs_admin_witness:
  "\<exists>usr og perms c'. caller_permissions demo_storage_env demo_controller (storage_probe ''ext'' ''o'' ''0xabc'' False) usr og perms c'
     \<and> HasAdminOnContract perms ''0xabc''"
proof -
  obtain c' where "CanReadPrivateStorage demo_storage_env demo_controller ''ext'' ''o'' ''0xabc'' False = (Inr True, c')"
    using demo_storage_allowed by (cases "CanReadPrivateStorage demo_storage_env demo_controller ''ext'' ''o'' ''0xabc'' False") simp
  from private_storage_needs_admin [OF this] obtain usr og perms
    where "caller_permissions demo_storage_env demo_controller (storage_probe ''ext'' ''o'' ''0xabc'' False) usr og perms c'"
      "HasAdminOnContract perms ''0xabc''" by auto
  then show ?thesis by (intro exI conjI)
qed

theorem storage_tier_witness:
  "\<exists>usr org perms c'. caller_permissions demo_storage_env demo_controller (storage_probe ''ext'' ''o'' ''0xabc'' False) usr org perms c'
     \<and> HasAdminOnContract perms ''0xabc''"
proof -
  obtain r c' where run: "CheckAccess demo_storage_env demo_controller (storage_probe ''ext'' ''o'' ''0xabc'' False) = (Inr r, c')"
    "acx_Allowed r"
    using demo_storage_allowed unfolding CanReadPrivateStorage_def by (auto split: prod.splits sum.splits)
  note p = storage_probe_facts [of "''ext''" "''o''" "''0xabc''" False]
  have "acr_UserExternalID (storage_probe ''ext'' ''o'' ''0xabc'' False) \<noteq> ''''" using p(2) by simp
  from storage_tier [OF run this p(3,4)] p(1,5) show ?thesis by auto
qed

section \<open>Rules on what is called\<close>

lemma hex_no_space:
  assumes "\<forall>c \<in> set s. hex_val c \<noteq> None \<or> c = CHR ''x''"
  shows "trim_space s = s"
proof (rule trim_space_id)
  have sp: "\<forall>p \<in> set space_runes. \<exists>c \<in> set p. hex_val c = None \<and> c \<noteq> CHR ''x''" by code_simp
  have "set p \<subseteq> set s" if "has_prefix s p \<or> has_suffix s p" for p
    using that set_take_subset [of "length p" s] set_drop_subset [of "length s - length p" s]
    by (auto simp: has_prefix_def has_suffix_def)
  with sp assms show "space_clean s" unfolding space_clean_def by blast
qed

lemma decode_hex_chars: "decode_hex s = Some bs \<Longrightarrow> \<forall>c \<in> set s. hex_val c \<noteq> None"
  by (induction s arbitrary: bs rule: decode_hex.induct) (auto split: option.splits)

lemma calldata_field:
  assumes "nonempty_hex_field obj key = Some s" "decode_hex (trim_prefix s ''0x'') = Some bs"
  shows "has_calldata obj key"
proof -
  have f: "str_field obj key = Some s" "s \<noteq> ''''" "s \<noteq> ''0x''"
    using assms(1) by (auto simp: nonempty_hex_field_def split: option.splits if_splits)
  have h: "\<forall>c \<in> set (trim_prefix s ''0x''). hex_val c \<noteq> None" by (rule decode_hex_chars [OF assms(2)])
  have c: "\<forall>c \<in> set s. hex_val c \<noteq> None \<or> c = CHR ''x''"
  proof (cases "has_prefix s ''0x''")
    case True
    then obtain t where t: "s = ''0x'' @ t"
      using append_take_drop_id [of 2 s] by (metis has_prefix_def length_Cons list.size(3) numeral_2_eq_2)
    then have "trim_prefix s ''0x'' = t" by (simp add: trim_prefix_def has_prefix_def)
    moreover have "hex_val CHR ''0'' \<noteq> None" by code_simp
    ultimately show ?thesis using h t by auto
  qed (use h in \<open>simp add: trim_prefix_def\<close>)
  have "s \<noteq> ''0X''" using c by (auto simp: hex_val_def)
  with f hex_no_space [OF c] show ?thesis by (simp add: has_calldata_def Let_def)
qed

lemma calldata_no_transfer:
  assumes "extractCalldata m ps = Some cd"
  shows "\<not> isValueTransferParams ps"
  using assms calldata_field
  by (auto simp: extractCalldata_def isValueTransferParams_def split: option.splits if_splits)

lemma resolve_access_explicit:
  assumes "resolve_access en req usr oc perms '''' = Inr (Some access, explicit, oc')"
    and "map_of (ep_ContractAccess perms) (to_lower (acr_TargetAddress req)) = Some granted"
  shows "access = granted"
  using assms
  by (auto simp: resolve_access_def Let_def default_access_step_def preregistered_step_def deployer_step_def
      IsContractRegistered_def GetContractAccess_def)

lemma ValidateParamRules_needs_abi: "fr_ParamRules rule \<noteq> [] \<Longrightarrow> ValidateParamRules al (Some rule) cd '''' us \<noteq> Inr ()"
  by (simp add: ValidateParamRules_def)

lemma validateFunctionSelector_rules:
  assumes "validateFunctionSelector en req org access = Next ()" "ca_Functions access = Some rules"
    and "EffectiveMethod req \<in> {''eth_call'', ''eth_estimateGas'', ''eth_sendTransaction''}"
  shows "acr_FunctionSelector req \<noteq> ''''
      \<and> (\<exists>rule \<in> set rules. equal_fold (fr_Selector rule) (acr_FunctionSelector req)
           \<and> (fr_ParamRules rule \<noteq> [] \<longrightarrow>
               (\<exists>cd own contr. st_GetLinkedEthAddresses (en_store en) (acr_UserExternalID req) = Inr own
                  \<and> st_GetContractByAddress (en_store en) (org_ID org) (to_lower (acr_TargetAddress req)) = Inr (Some contr)
                  \<and> ValidateParamRules (en_abi en) (Some rule) cd (con_ABI contr) own = Inr ())))"
proof -
  have s: "acr_FunctionSelector req \<noteq> ''''" "accessHasFunctionSelector (Some access) (acr_FunctionSelector req)"
    using assms by (auto simp: validateFunctionSelector_def split: if_splits)
  have "find P rs \<noteq> None \<longleftrightarrow> list_ex P rs" for P :: "function_rule \<Rightarrow> bool" and rs by (induction rs) auto
  with s(2) assms(2) obtain rule where f: "find (\<lambda>rule. equal_fold (fr_Selector rule) (acr_FunctionSelector req)) rules = Some rule"
    by (fastforce simp: accessHasFunctionSelector_def split: if_splits)
  then have rule: "rule \<in> set rules" "equal_fold (fr_Selector rule) (acr_FunctionSelector req)"
    by (auto simp: find_Some_iff in_set_conv_nth)
  have g: "accessGetFunctionRule (Some access) (acr_FunctionSelector req) = Some rule"
    using f assms(2) by (simp add: accessGetFunctionRule_def)
  have "\<exists>cd own contr. st_GetLinkedEthAddresses (en_store en) (acr_UserExternalID req) = Inr own
      \<and> st_GetContractByAddress (en_store en) (org_ID org) (to_lower (acr_TargetAddress req)) = Inr (Some contr)
      \<and> ValidateParamRules (en_abi en) (Some rule) cd (con_ABI contr) own = Inr ()" if "fr_ParamRules rule \<noteq> []"
    using assms(1) s g that ValidateParamRules_needs_abi [OF that]
    by (auto simp: validateFunctionSelector_def split: if_splits option.splits sum.splits)
  with s(1) rule show ?thesis by blast
qed

lemma call_reaches_contract_gate:
  assumes "CheckAccess en c req = (Inr r, c')" "acx_Allowed r" "acr_UserExternalID req \<noteq> ''''"
    and "norm_addr (acr_Method req) \<notin> set orgFreeMetadataMethods"
    and "EffectiveMethod req \<in> {''eth_call'', ''eth_estimateGas'', ''eth_sendTransaction''}"
    and "acr_TargetAddress req \<noteq> ''''" "\<not> isValueTransferParams (acr_Params req)"
    and "ClassifyOperation (EffectiveMethod req) (acr_Params req) \<noteq> ClaimDeploy"
  obtains usr org perms oc access explicit oc' where
    "caller_permissions en c req usr org perms c'" "memo_ok en oc"
    "resolve_access en req usr oc perms '''' = Inr (Some access, explicit, oc')"
    "validateFunctionSelector en req org access = Next ()"
    "EffectiveMethod req = ''eth_sendTransaction'' \<Longrightarrow> validateProxyUpgrade en req org access = Next ()"
  using assms(1-4)
proof (rule authenticated_allowed)
  fix usr org oc perms as
  assume p: "caller_permissions en c req usr org perms c'"
    and a: "allowed_by en req usr org oc perms as" "as = AsLogQuery \<longleftrightarrow> EffectiveMethod req = ''eth_getLogs''"
  from a assms(5-8) have "allowed_by en req usr org oc perms AsContractCall"
    by (cases as) (auto simp: isBasicAddressQuery_def)
  then obtain oc1 where oc1: "memo_ok en oc1" "validateContractAccess en req usr org oc1 perms '''' = Next ()"
    using not_deployment_claim [OF assms(8)] by auto
  from oc1(2) show thesis
    by (rule contract_call_passes) (rule that [OF p oc1(1)])
qed

text \<open>
  C6. Proxy upgrades. When an \<^verbatim>\<open>eth_sendTransaction\<close> whose calldata starts with a known upgrade selector
  is allowed, the caller has the upgrade claim on that very contract, the calldata is long enough to
  hold the implementation address, and the address found there is owned by the resolved organization.
\<close>

theorem upgrade_guard:
  assumes "CheckAccess en c req = (Inr r, c')" "acx_Allowed r" "acr_UserExternalID req \<noteq> ''''"
    and "norm_addr (acr_Method req) \<notin> set orgFreeMetadataMethods"
    and "EffectiveMethod req = ''eth_sendTransaction''" "acr_TargetAddress req \<noteq> ''''"
    and "ClassifyOperation (EffectiveMethod req) (acr_Params req) \<noteq> ClaimDeploy"
    and cd: "extractCalldata ''eth_sendTransaction'' (acr_Params req) = Some cd" "4 \<le> length cd"
    and sel: "map_of UpgradeSelectors (encode_hex (take 4 cd)) \<noteq> None"
  shows "\<exists>usr org perms. caller_permissions en c req usr org perms c'
     \<and> HasContractClaim perms (acr_TargetAddress req) ClaimUpgrade
     \<and> implementation_offset (encode_hex (take 4 cd)) + 20 \<le> length cd
     \<and> st_IsAddressOwnedByOrg (en_store en)
         (''0x'' @ encode_hex (take 20 (drop (implementation_offset (encode_hex (take 4 cd))) cd))) (org_ID org) = Inr True"
proof -
  have "EffectiveMethod req \<in> {''eth_call'', ''eth_estimateGas'', ''eth_sendTransaction''}" using assms(5) by simp
  from assms(1-4) this assms(6) calldata_no_transfer [OF cd(1)] assms(7) show ?thesis
  proof (rule call_reaches_contract_gate)
    fix usr org perms oc access explicit oc'
    assume p: "caller_permissions en c req usr org perms c'" and m: "memo_ok en oc"
      and r: "resolve_access en req usr oc perms '''' = Inr (Some access, explicit, oc')"
      and up: "EffectiveMethod req = ''eth_sendTransaction'' \<Longrightarrow> validateProxyUpgrade en req org access = Next ()"
    have e: "extractCalldata (EffectiveMethod req) (acr_Params req) = Some cd" "cd \<noteq> []" using cd assms(5) by auto
    have s: "encode_hex (take 4 cd) \<in> {''3659cfe6'', ''4f1ef286'', ''d784d426'', ''99a88ec4'', ''9623609d''}"
      using sel by (auto simp: UpgradeSelectors_def selector_defs split: if_splits)
    have "trim_prefix (to_lower x) ''0x'' = x" if "x \<in> {''3659cfe6'', ''4f1ef286'', ''d784d426'', ''99a88ec4'', ''9623609d''}" for x
    proof -
      have "list_all (\<lambda>x. trim_prefix (to_lower x) ''0x'' = x) [''3659cfe6'', ''4f1ef286'', ''d784d426'', ''99a88ec4'', ''9623609d'']"
        by code_simp
      with that show ?thesis by auto
    qed
    with s have u: "IsUpgradeSelector (encode_hex (take 4 cd))" using sel by (simp only: IsUpgradeSelector_def simp_thms)
    have claim: "hasClaim (ca_Claims access) ClaimUpgrade"
      using up assms(5) e u cd(2) by (auto simp: validateProxyUpgrade_def Let_def split: if_splits)
    obtain v where v: "ValidateUpgrade (en_store en) (org_ID org) (to_lower (acr_TargetAddress req)) cd = Inr v" "uvr_Allowed v"
      using up assms(5) e u cd(2) claim by (auto simp: validateProxyUpgrade_def Let_def split: if_splits sum.splits)
    have "HasContractClaim perms (acr_TargetAddress req) ClaimUpgrade"
      using resolve_access_origin [OF m r] claim
      by (auto simp: HasContractClaim_def GetContractAccess_def hasClaim_def ClaimUpgrade_def ClaimDeploy_def)
    with p ValidateUpgrade_allowed [OF v cd(2) sel] show ?thesis by blast
  qed
qed


definition demo_upgrade_rule :: function_rule where
  "demo_upgrade_rule = \<lparr>fr_Selector = ''0x3659cfe6'', fr_ParamRules = [\<lparr>pr_Index = 0, pr_MustBe = ''self''\<rparr>]\<rparr>"

definition demo_upgrade_calldata :: bytes where
  "demo_upgrade_calldata = [0x36, 0x59, 0xcf, 0xe6] @ replicate 12 0 @ replicate 20 0xaa"

definition demo_upgrade :: access_check_request where
  "demo_upgrade =
     demo_request\<lparr>acr_Method := ''eth_sendTransaction'', acr_TargetAddress := ''0xabc'', acr_FunctionSelector := ''0x3659cfe6'',
       acr_Params := [JObj [(''to'', JStr ''0xabc''), (''data'', JStr (''0x'' @ encode_hex demo_upgrade_calldata))]]\<rparr>"

definition demo_upgrade_env :: env where
  "demo_upgrade_env =
     demo_access_env\<lparr>
       en_abi := empty_abi_lib\<lparr>al_JSON := (\<lambda>_. Inr \<lparr>abi_Events = [], abi_MethodById = \<lambda>_. Inr []\<rparr>),
                               al_Unpack := (\<lambda>_ cd. Inr [AbiAddress (drop 12 cd)])\<rparr>,
       en_store := demo_access_store\<lparr>
         st_GetGroupAccessBatch := (\<lambda>ids. Inr [(''g1'', demo_access ''g1'' [''eth_sendTransaction''] [ClaimUpgrade])]),
         st_ListContractGrantsBatch := (\<lambda>ids. Inr [(''g1'', [demo_grant (Some [demo_upgrade_rule])])]),
         st_IsAddressOwnedByOrg := (\<lambda>a org. Inr (org = ''o'')),
         st_GetLinkedEthAddresses := (\<lambda>e. Inr [''0x'' @ encode_hex (replicate 20 0xaa)]),
         st_GetContractByAddress := (\<lambda>org a. Inr (Some (demo_contract\<lparr>con_ABI := ''[]''\<rparr>)))\<rparr>\<rparr>"

lemma demo_upgrade_allowed:
  "map_sum id acx_Allowed (fst (CheckAccess demo_upgrade_env demo_controller demo_upgrade)) = Inr True"
  by code_simp

lemma demo_upgrade_facts:
  "acr_UserExternalID demo_upgrade \<noteq> ''''" "norm_addr (acr_Method demo_upgrade) \<notin> set orgFreeMetadataMethods"
  "EffectiveMethod demo_upgrade = ''eth_sendTransaction''" "acr_TargetAddress demo_upgrade = ''0xabc''"
  "acr_FunctionSelector demo_upgrade = ''0x3659cfe6''"
  "ClassifyOperation ''eth_sendTransaction'' (acr_Params demo_upgrade) \<noteq> ClaimDeploy"
  "extractCalldata ''eth_sendTransaction'' (acr_Params demo_upgrade) = Some demo_upgrade_calldata"
  "to_lower ''0xabc'' = ''0xabc''"
  by code_simp+

theorem upgrade_guard_witness:
  "\<exists>usr org perms c'. caller_permissions demo_upgrade_env demo_controller demo_upgrade usr org perms c'
     \<and> HasContractClaim perms ''0xabc'' ClaimUpgrade"
proof -
  obtain r c' where run: "CheckAccess demo_upgrade_env demo_controller demo_upgrade = (Inr r, c')" "acx_Allowed r"
    using demo_run [OF demo_upgrade_allowed] .
  have "4 \<le> length demo_upgrade_calldata" by (simp add: demo_upgrade_calldata_def)
  moreover have "map_of UpgradeSelectors (encode_hex (take 4 demo_upgrade_calldata)) \<noteq> None" by code_simp
  ultimately show ?thesis
    using upgrade_guard [OF run demo_upgrade_facts(1-3)] demo_upgrade_facts by auto
qed

lemma demo_upgrade_org:
  "(case resolveOrgContextForRequest demo_upgrade_env demo_upgrade demo_member of
      Next (org, _) \<Rightarrow> org = demo_org | Decided _ \<Rightarrow> False)"
  "(case fst (resolvePermissionsForRequest demo_upgrade_env demo_controller demo_upgrade demo_member demo_org) of
      Inr perms \<Rightarrow> (case map_of (ep_ContractAccess perms) ''0xabc'' of
                        Some granted \<Rightarrow> ca_Functions granted = Some [demo_upgrade_rule] | None \<Rightarrow> False)
    | Inl _ \<Rightarrow> False)"
  by code_simp+


section \<open>Log queries\<close>

lemma logs_addresses_ok:
  assumes "check_logs_addresses en perms oc as = Inr ()" "a \<in> set as"
  shows "IsContractRegistered perms a \<or> IsPrecompileAddress a \<or> IsPrecompileAddress (to_lower a)"
  using assms
proof (induction as)
  case (Cons b as)
  have g: "GetContractAccess perms b \<noteq> None \<Longrightarrow> IsContractRegistered perms b \<or> IsPrecompileAddress (to_lower b)"
    by (auto simp: GetContractAccess_def IsContractRegistered_def Let_def split: option.splits if_splits)
  from Cons.prems(1) have "check_logs_addresses en perms oc as = Inr ()"
    "IsContractRegistered perms b \<or> IsPrecompileAddress b \<or> IsPrecompileAddress (to_lower b)"
    using g by (auto simp: Let_def split: if_splits sum.splits option.splits)
  with Cons show ?case by auto
qed simp

lemma context_orgs:
  assumes "NewOrgContext en usr t = Inr oc"
  obtains ids where "GetUserOrgIDs (en_store en) (usr_ID usr) = Inr ids" "set (oc_userOrgIDs oc) \<subseteq> set ids"
  using NewOrgContext_orgs [OF assms] scopeUserOrgIDs_subset by (elim exE conjE) auto

lemma scope_member:
  assumes "NewOrgContext en usr t = Inr oc" "CheckAddressInScope en oc a = Inr ()" "norm_addr a \<noteq> ''''"
  shows "\<exists>ids owner. GetUserOrgIDs (en_store en) (usr_ID usr) = Inr ids
     \<and> st_GetContractOwnerOrgID (en_store en) (norm_addr a) = Inr owner
     \<and> (if owner = '''' then IsPrecompileAddress (norm_addr a) else owner \<in> set ids)"
proof -
  obtain ids where i: "GetUserOrgIDs (en_store en) (usr_ID usr) = Inr ids" "set (oc_userOrgIDs oc) \<subseteq> set ids"
    using context_orgs [OF assms(1)] .
  with assms(2,3) show ?thesis by (auto simp: CheckAddressInScope_eq split: if_splits)
qed

text \<open>
  C8. Log queries. When an authenticated \<^verbatim>\<open>eth_getLogs\<close> is allowed, its filter names at least one
  address, and every address it names is a precompile or is a contract of one of the caller's
  organizations that the caller's permissions list.
\<close>

theorem logs_isolation:
  assumes "CheckAccess en c req = (Inr r, c')" "acx_Allowed r" "acr_UserExternalID req \<noteq> ''''"
    and "norm_addr (acr_Method req) \<notin> set orgFreeMetadataMethods"
    and "EffectiveMethod req = ''eth_getLogs''"
  shows "\<exists>usr org perms filt rest. caller_permissions en c req usr org perms c'
     \<and> acr_Params req = JObj filt # rest \<and> extractGetLogsAddresses filt \<noteq> []
     \<and> (\<forall>a \<in> set (extractGetLogsAddresses filt). norm_addr a \<noteq> '''' \<longrightarrow>
          (\<exists>ids owner. GetUserOrgIDs (en_store en) (usr_ID usr) = Inr ids
             \<and> st_GetContractOwnerOrgID (en_store en) (norm_addr a) = Inr owner
             \<and> (if owner = '''' then IsPrecompileAddress (norm_addr a)
                else owner \<in> set ids \<and> (IsContractRegistered perms a \<or> IsPrecompileAddress a))))"
  using assms(1-4)
proof (rule authenticated_allowed)
  fix usr org oc perms as
  assume p: "caller_permissions en c req usr org perms c'"
    and new: "NewOrgContext en usr (norm_addr (acr_TargetAddress req)) = Inr oc"
    and a: "allowed_by en req usr org oc perms as" "as = AsLogQuery \<longleftrightarrow> EffectiveMethod req = ''eth_getLogs''"
  from a assms(5) have "validateGetLogsWithOrgContext en perms oc (acr_Params req) = Inr ()" by simp
  moreover have "as_obj j = Some filt \<Longrightarrow> j = JObj filt" for j filt by (cases j) auto
  ultimately obtain filt rest where f: "acr_Params req = JObj filt # rest" "extractGetLogsAddresses filt \<noteq> []"
    "CheckMultiAddressesInScope en oc (extractGetLogsAddresses filt) = Inr ()"
    "check_logs_addresses en perms oc (extractGetLogsAddresses filt) = Inr ()"
    by (auto simp: validateGetLogsWithOrgContext_def Let_def
        split: list.splits option.splits if_splits sum.splits)
  have low: "to_lower a = a" if "a \<in> set (extractGetLogsAddresses filt)" for a
    using that unfolding extractGetLogsAddresses_def by (cases "map_of filt ''address''" rule: option.exhaust) (force split: json.splits if_splits)+
  have "\<exists>ids owner. GetUserOrgIDs (en_store en) (usr_ID usr) = Inr ids
             \<and> st_GetContractOwnerOrgID (en_store en) (norm_addr a) = Inr owner
             \<and> (if owner = '''' then IsPrecompileAddress (norm_addr a)
                else owner \<in> set ids \<and> (IsContractRegistered perms a \<or> IsPrecompileAddress a))"
    if "a \<in> set (extractGetLogsAddresses filt)" "norm_addr a \<noteq> ''''" for a
    using scope_member [OF new, of a] that f(3) logs_addresses_ok [OF f(4) that(1)] low [OF that(1)]
    by (auto simp: CheckMulti_all split: if_splits)
  with p f(1,2) show ?thesis by blast
qed

section \<open>Attribution\<close>

lemma fold_add_member_sub: "set (fold (\<lambda>m ids. if f m \<noteq> '''' then add_member (f m) ids else ids) ms xs) \<subseteq> set (fold (\<lambda>m. add_member (f m)) ms xs)"
proof -
  have "set (fold (\<lambda>m ids. if f m \<noteq> '''' then add_member (f m) ids else ids) ms xs) \<subseteq> set xs \<union> f ` set ms"
  proof (induction ms arbitrary: xs)
    case (Cons m ms)
    from Cons.IH [of "if f m \<noteq> '''' then add_member (f m) xs else xs"] show ?case by (auto split: if_splits)
  qed simp
  moreover have "set (fold (\<lambda>m. add_member (f m)) ms xs) = set xs \<union> f ` set ms"
    by (induction ms arbitrary: xs) auto
  ultimately show ?thesis by simp
qed

lemma callerOrgForDenial_own:
  "callerOrgForDenial en req usr = '''' \<or>
     (\<exists>ids. GetUserOrgIDs (en_store en) (usr_ID usr) = Inr ids \<and> callerOrgForDenial en req usr \<in> set ids)"
proof (cases "st_ListActiveUserMembershipsWithDetails (en_store en) (usr_ID usr)")
  case (Inr ms)
  let ?f = "\<lambda>m. grp_OrgID (mwd_Group m)"
  let ?ids = "fold (\<lambda>m ids. if ?f m \<noteq> '''' then add_member (?f m) ids else ids) ms []"
  have "callerOrgForDenial en req usr = '''' \<or> callerOrgForDenial en req usr \<in> set ?ids"
    using Inr by (auto simp: callerOrgForDenial_def Let_def split: list.splits)
  with Inr fold_add_member_sub [of ?f ms "[]"] show ?thesis by (auto simp: GetUserOrgIDs_def)
qed (simp add: callerOrgForDenial_def)

lemma orgless_decisions:
  "checkGlobalBlocks reg req = Some r \<Longrightarrow> acx_OrgID r = ''''"
  "checkStateOverrides reg req = Some r \<Longrightarrow> acx_OrgID r = ''''"
  "checkAnonymousAccess en c req = (Inr r, c') \<Longrightarrow> acx_OrgID r = ''''"
  "resolveAndValidateUser en req = Decided (Inr r) \<Longrightarrow> acx_OrgID r = ''''"
  "checkHistoricalStateQuery en req usr = Decided (Inr r) \<Longrightarrow> acx_OrgID r = ''''"
  by (auto simp: checkGlobalBlocks_def checkStateOverrides_def checkAnonymousAccess_def resolveAndValidateUser_def
      checkHistoricalStateQuery_def deny_def deny_auth_def Let_def
      split: if_splits option.splits sum.splits prod.splits)

lemma carveout_org:
  "classifyValueTransferCarveout en req usr org oc perms rc = Decided (Inr r) \<Longrightarrow> acx_OrgID r \<in> {'''', org_ID org}"
  "classifyBasicAddressQueryCarveout en req usr org oc perms = Decided (Inr r) \<Longrightarrow> acx_OrgID r \<in> {'''', org_ID org}"
  by (auto simp: classifyValueTransferCarveout_def classifyBasicAddressQueryCarveout_def deny_def allow_with_def
      split: if_splits sum.splits prod.splits)

lemma contract_gate_org:
  assumes "validateContractAccess en req usr org oc perms rc = Decided (Inr r)"
  shows "acx_OrgID r = ''''"
proof -
  have "validateStorageReadAccess req a = Some r' \<Longrightarrow> acx_OrgID r' = ''''"
    "validateFunctionSelector en req org a = Decided (Inr r') \<Longrightarrow> acx_OrgID r' = ''''"
    "validateProxyUpgrade en req org a = Decided (Inr r') \<Longrightarrow> acx_OrgID r' = ''''" for a r'
    by (auto simp: validateStorageReadAccess_def validateFunctionSelector_def validateProxyUpgrade_def deny_def Let_def
        split: if_splits option.splits sum.splits)
  with assms show ?thesis
    by (auto simp: validateContractAccess_def deny_def split: sum.splits option.splits if_splits phase.splits)
qed

lemma decision_org:
  assumes "decide_with_permissions en req usr org oc perms = Inr r"
  shows "acx_OrgID r \<in> {'''', org_ID org}"
proof -
  have "checkMethodAllowed reg req perms = Some r' \<Longrightarrow> acx_OrgID r' \<in> {'''', org_ID org}"
    "checkEthGetLogsAccess en req usr org oc perms = Some r' \<Longrightarrow> acx_OrgID r' \<in> {'''', org_ID org}"
    "checkAdditionalRequiredClaims req perms = Some r' \<Longrightarrow> acx_OrgID r' \<in> {'''', org_ID org}"
    "acx_OrgID (validateDeploymentWithoutTarget req usr org perms) \<in> {'''', org_ID org}"
    "acx_OrgID (allow_with org usr perms) = org_ID org" "acx_OrgID (deny e) = ''''" for reg r' e
    by (auto simp: checkMethodAllowed_def checkEthGetLogsAccess_def checkAdditionalRequiredClaims_def
        validateDeploymentWithoutTarget_def deny_def allow_with_def split: if_splits sum.splits)
  note f = this(1-3) carveout_org contract_gate_org and g = this(4-6)
  from assms g(1) show ?thesis unfolding decide_with_permissions_def Let_def
    by (auto split: option.splits if_splits phase.splits dest: f simp: g)
qed

text \<open>
  Attribution. Whatever the outcome, an access-check result is attributed to no organization or to
  an organization the caller is a member of: a probe of another tenant's contract never appears in that
  tenant's audit view. Assumes only that the store returns an organization under the identifier it was
  asked for.
\<close>

theorem attribution_own_org:
  assumes "CheckAccess en c req = (Inr r, c')" "org_lookup_ok (en_store en)"
  shows "acx_OrgID r = '''' \<or>
     (\<exists>usr ids. st_GetUserByExternalID (en_store en) (acr_UserExternalID req) = Inr (Some usr)
        \<and> GetUserOrgIDs (en_store en) (usr_ID usr) = Inr ids \<and> acx_OrgID r \<in> set ids)"
proof (rule ccontr)
  assume no: "\<not> ?thesis"
  note d = orgless_decisions
  have early: "checkGlobalBlocks (en_registries en) req = None" "checkStateOverrides (en_registries en) req = None"
    "acr_UserExternalID req \<noteq> ''''"
    using assms(1) no d(1,2,3) by (auto simp: CheckAccess_def split: option.splits if_splits)
  with assms(1) no d(4) obtain usr where u: "resolveAndValidateUser en req = Next usr"
    by (auto simp: CheckAccess_def split: phase.splits)
  then have look: "st_GetUserByExternalID (en_store en) (acr_UserExternalID req) = Inr (Some usr)"
    using resolveAndValidateUser_Next by blast
  have h: "checkHistoricalStateQuery en req usr = Next ()" "norm_addr (acr_Method req) \<notin> set orgFreeMetadataMethods"
    using assms(1) no early u d(5) by (auto simp: CheckAccess_def deny_def split: phase.splits if_splits)
  show False
  proof (cases "resolveOrgContextForRequest en req usr")
    case (Decided q)
    with assms(1) early u h have "q = Inr r" by (simp add: CheckAccess_def)
    with Decided have "acx_OrgID r \<in> {'''', callerOrgForDenial en req usr}"
      by (auto simp: resolveOrgContextForRequest_def requested_org_def deny_def
          split: sum.splits option.splits if_splits list.splits)
    with no look callerOrgForDenial_own [of en req usr] show False by auto
  next
    case (Next x)
    obtain org oc where x: "x = (org, oc)" by fastforce
    from assms(1) early u h Next x obtain r0 where "fst (checkWithResolvedOrg en c req usr org oc) = Inr r0" "r = attribute usr org r0"
      by (auto simp: CheckAccess_def split: prod.splits sum.splits)
    then have "acx_OrgID r \<in> {'''', org_ID org}"
      by (auto simp: checkWithResolvedOrg_def attribute_def split: prod.splits sum.splits dest!: decision_org)
    moreover have "org_ID org \<in> set (oc_userOrgIDs oc)" using resolveOrgContext_member Next x assms(2) by blast
    moreover obtain ids where "GetUserOrgIDs (en_store en) (usr_ID usr) = Inr ids" "set (oc_userOrgIDs oc) \<subseteq> set ids"
      using context_orgs [OF resolveOrgContext_Next [of en req usr org oc]] Next x by blast
    ultimately show False using no look by auto
  qed
qed

theorem attribution_own_org_witness:
  "\<exists>r c' ids. CheckAccess demo_access_env demo_controller (demo_call ''0xabc'') = (Inr r, c') \<and> GetUserOrgIDs demo_access_store ''u'' = Inr ids
     \<and> acx_OrgID r \<in> set ('''' # ids)"
proof -
  obtain r c' where run: "CheckAccess demo_access_env demo_controller (demo_call ''0xabc'') = (Inr r, c')"
    using demo_run [OF demo_call_allowed] by blast
  have st: "en_store demo_access_env = demo_access_store" by (simp add: demo_access_env_def)
  have "org_lookup_ok demo_access_store"
    by (auto simp: org_lookup_ok_def demo_access_store_def demo_org_def split: if_splits)
  moreover have "GetUserOrgIDs demo_access_store ''u'' = Inr [''o'']" by code_simp
  moreover have "st_GetUserByExternalID demo_access_store (acr_UserExternalID (demo_call ''0xabc'')) = Inr (Some demo_member)"
    "usr_ID demo_member = ''u''"
    by (simp_all add: demo_access_store_def demo_call_def demo_request_def demo_member_def demo_user_def)
  ultimately show ?thesis using attribution_own_org [OF run, unfolded st] run by auto
qed

definition demo_logs :: access_check_request where
  "demo_logs = demo_request\<lparr>acr_Method := ''eth_getLogs'', acr_Params := [JObj [(''address'', JStr ''0xABC'')]]\<rparr>"

definition demo_logs_env :: env where
  "demo_logs_env =
     demo_access_env\<lparr>en_store := demo_access_store\<lparr>st_GetGroupAccessBatch :=
       (\<lambda>ids. Inr [(''g1'', demo_access ''g1'' [''eth_getLogs''] [])])\<rparr>\<rparr>"

lemma demo_logs_allowed:
  "map_sum id acx_Allowed (fst (CheckAccess demo_logs_env demo_controller demo_logs)) = Inr True"
  by code_simp

theorem logs_isolation_witness:
  "\<exists>usr org perms c'. caller_permissions demo_logs_env demo_controller demo_logs usr org perms c'
     \<and> IsContractRegistered perms ''0xabc''"
proof -
  obtain r c' where run: "CheckAccess demo_logs_env demo_controller demo_logs = (Inr r, c')" "acx_Allowed r"
    using demo_run [OF demo_logs_allowed] .
  have m: "acr_UserExternalID demo_logs \<noteq> ''''" "norm_addr (acr_Method demo_logs) \<notin> set orgFreeMetadataMethods"
    "EffectiveMethod demo_logs = ''eth_getLogs''" by code_simp+
  have a: "extractGetLogsAddresses [(''address'', JStr ''0xABC'')] = [''0xabc'']" "norm_addr ''0xabc'' = ''0xabc''"
    "\<not> IsPrecompileAddress ''0xabc''" by code_simp+
  have o: "st_GetContractOwnerOrgID (en_store demo_logs_env) ''0xabc'' = Inr ''o''"
    by (simp add: demo_logs_env_def demo_access_store_def)
  have p: "acr_Params demo_logs = [JObj [(''address'', JStr ''0xABC'')]]" by (simp add: demo_logs_def)
  from logs_isolation [OF run m] obtain usr org perms where
    "caller_permissions demo_logs_env demo_controller demo_logs usr org perms c'" "IsContractRegistered perms ''0xabc''"
    unfolding p by (auto simp: a o)
  then show ?thesis by (intro exI conjI)
qed

end
