(* ===== verification/Event_Properties.thy ===== *)
theory Event_Properties
  imports Event_Filter "HOL-Library.Sublist"
begin

text \<open>
  What the log filter guarantees: the grounds on which a log is shown and with which payload, what the
  strict profile adds, how the two profiles compare, and when a pass ends without a panic.
\<close>

section \<open>The memo does not change the verdicts\<close>

text \<open>What the indexed-self test decides, without its memo.\<close>

definition names_viewer :: "abi_lib \<Rightarrow> string \<Rightarrow> string list \<Rightarrow> string \<Rightarrow> string list \<Rightarrow> bool" where
  "names_viewer al abi topics data linked \<longleftrightarrow>
     abi \<noteq> '''' \<and> topics \<noteq> []
     \<and> (\<exists>parsed ev. al_JSON al abi = Inr parsed
          \<and> filter (\<lambda>e. ''0x'' @ encode_hex (ev_ID e) = to_lower (hd topics) \<and> fst (eventNamesLinked al e topics data linked))
              (abi_Events parsed) = [ev]
          \<and> snd (eventNamesLinked al ev topics data linked))"

definition matcher_ok :: "abi_lib \<Rightarrow> indexed_self_matcher \<Rightarrow> bool" where
  "matcher_ok al m \<longleftrightarrow>
     (\<forall>k v. map_of (ism_parsed m) k = Some v \<longrightarrow>
        v = (case al_JSON al k of Inl _ \<Rightarrow> None | Inr p \<Rightarrow> Some (group_events (abi_Events p))))"

lemma matcher_ok_new [simp]: "matcher_ok al NewIndexedSelfMatcher"
  by (simp add: matcher_ok_def NewIndexedSelfMatcher_def)

lemma ism_parse_spec:
  assumes "matcher_ok al m"
  shows "fst (ism_parse al m abi) = (case al_JSON al abi of Inl _ \<Rightarrow> None | Inr p \<Rightarrow> Some (group_events (abi_Events p)))"
    and "matcher_ok al (snd (ism_parse al m abi))"
  using assms by (auto simp: ism_parse_def matcher_ok_def update_conv' Let_def split: option.splits if_splits)

lemma indexed_topics_snd: "snd (indexed_topics linked ps named) \<Longrightarrow> fst (indexed_topics linked ps named)"
  by (induction linked ps named rule: indexed_topics.induct) (auto simp: Let_def split: if_splits)

lemma eventNamesLinked_iff:
  "snd (eventNamesLinked al ev topics data linked) \<longleftrightarrow>
     fst (eventNamesLinked al ev topics data linked)
     \<and> (\<exists>(inp, raw) \<in> set (zip (filter arg_Indexed (ev_Inputs ev)) (tl topics)).
          arg_Type inp = AddressTy \<and> topicMatchesAddr raw linked)"
  using indexed_topics_snd [of linked "zip (filter arg_Indexed (ev_Inputs ev)) (tl topics)" False]
    indexed_topics_fits [of linked "zip (filter arg_Indexed (ev_Inputs ev)) (tl topics)" False]
  by (auto simp: eventNamesLinked_def Let_def)

lemma one_layout:
  "(\<forall>e \<in> set (filter P xs). Q e) \<and> length (filter P xs) = 1 \<longleftrightarrow> (\<exists>e. filter P xs = [e] \<and> Q e)"
  by (cases "filter P xs") (auto simp: length_Suc_conv)

lemma ism_Match_spec:
  assumes "matcher_ok al m"
  shows "fst (ism_Match al (Some m) abi topics data linked) \<longleftrightarrow> names_viewer al abi topics data linked"
proof (cases "abi = '''' \<or> topics = [] \<or> linked = []")
  case True
  have "\<not> topicMatchesAddr t []" for t by (simp add: topicMatchesAddr_def Let_def)
  with True show ?thesis by (auto simp: ism_Match_def names_viewer_def eventNamesLinked_iff)
next
  case False
  obtain p m' where p: "ism_parse al m abi = (p, m')" by fastforce
  show ?thesis
  proof (cases "al_JSON al abi")
    case (Inl e)
    with False p ism_parse_spec(1) [OF assms, of abi] show ?thesis by (simp add: ism_Match_def names_viewer_def)
  next
    case (Inr parsed)
    let ?l = "filter (\<lambda>ev. ''0x'' @ encode_hex (ev_ID ev) = to_lower (hd topics)) (abi_Events parsed)"
    have pe: "p = Some (group_events (abi_Events parsed))" using p Inr ism_parse_spec(1) [OF assms, of abi] by simp
    have l: "(case map_of (group_events (abi_Events parsed)) (to_lower (hd topics)) of Some l \<Rightarrow> l | None \<Rightarrow> []) = ?l"
      by (simp add: lookup_group_events Let_def)
    have "fst (ism_Match al (Some m) abi topics data linked) = match_layouts al topics data linked ?l False"
      using False p pe l by (simp add: ism_Match_def)
    also have "\<dots> \<longleftrightarrow> (\<exists>e. filter (\<lambda>e. fst (eventNamesLinked al e topics data linked)) ?l = [e]
        \<and> snd (eventNamesLinked al e topics data linked))"
      by (simp only: match_layouts_iff Let_def if_False add_0_right one_layout)
    finally show ?thesis using False Inr by (simp add: names_viewer_def conj_commute)
  qed
qed

lemma ism_Match_ok:
  assumes "matcher_ok al m"
  shows "\<exists>m'. snd (ism_Match al (Some m) abi topics data linked) = Some m' \<and> matcher_ok al m'"
  using assms ism_parse_spec(2) [OF assms, of abi] by (auto simp: ism_Match_def split: prod.splits option.splits)

text \<open>The state of the memo at any point of a pass.\<close>

definition pass_ok :: "abi_lib \<Rightarrow> read_profile \<Rightarrow> indexed_self_matcher option \<Rightarrow> bool" where
  "pass_ok al profile m \<longleftrightarrow> (if Strict profile then \<exists>m'. m = Some m' \<and> matcher_ok al m' else m = None)"

definition first_matcher :: "read_profile \<Rightarrow> indexed_self_matcher option" where
  "first_matcher profile = (if Strict profile then Some NewIndexedSelfMatcher else None)"

lemma pass_ok_first [simp]: "pass_ok al profile (first_matcher profile)"
  by (simp add: pass_ok_def first_matcher_def)

lemma log_facts_pass:
  assumes "pass_ok al profile m"
  shows "fst (log_facts al profile perms addrs prov vis admins m raw entry) =
         fst (log_facts al profile perms addrs prov vis admins (first_matcher profile) raw entry)"
    and "pass_ok al profile (snd (log_facts al profile perms addrs prov vis admins m raw entry))"
proof -
  let ?abi = "case prov of None \<Rightarrow> '''' | Some p \<Rightarrow> ap_GetContractABI p (to_lower (le_Address entry))"
  let ?M = "\<lambda>m. ism_Match al m ?abi (le_Topics entry) (le_Data entry) addrs"
  have s: "fst (?M m) = fst (?M (first_matcher profile))" "pass_ok al profile (snd (?M m))" if "Strict profile"
    using that assms ism_Match_spec [of al] ism_Match_ok [of al]
    by (auto simp: pass_ok_def first_matcher_def)
  show "fst (log_facts al profile perms addrs prov vis admins m raw entry) =
         fst (log_facts al profile perms addrs prov vis admins (first_matcher profile) raw entry)"
    using s by (simp add: log_facts_def Let_def split_beta)
  show "pass_ok al profile (snd (log_facts al profile perms addrs prov vis admins m raw entry))"
    using s assms by (simp add: log_facts_def Let_def split_beta)
qed

section \<open>A pass as a filter\<close>

definition log_verdict ::
  "abi_lib \<Rightarrow> read_profile \<Rightarrow> effective_permissions \<Rightarrow> string list \<Rightarrow> abi_provider option
     \<Rightarrow> tx_visibility_context option \<Rightarrow> (string \<times> bool) list \<Rightarrow> json \<Rightarrow> log_decision res" where
  "log_verdict al profile perms addrs prov vis admins raw =
     (case log_entry_of_json raw of
        None \<Rightarrow> Inr drop_log
      | Some entry \<Rightarrow>
          map_sum id (DecideLogEmitter profile)
            (fst (log_facts al profile perms addrs prov vis admins (first_matcher profile) raw entry)))"

lemma filter_logs_spec:
  assumes "pass_ok al profile m"
  shows "filter_logs al profile perms addrs prov vis admins m logs = Inr out \<longleftrightarrow>
     (\<forall>raw \<in> set logs. \<exists>d. log_verdict al profile perms addrs prov vis admins raw = Inr d)
     \<and> out = map (\<lambda>raw. \<lparr>al_Raw = raw, al_Payload = ld_Payload (projr (log_verdict al profile perms addrs prov vis admins raw))\<rparr>)
               (filter (\<lambda>raw. ld_Admit (projr (log_verdict al profile perms addrs prov vis admins raw))) logs)"
  using assms
proof (induction logs arbitrary: m out)
  case (Cons raw logs)
  show ?case
  proof (cases "log_entry_of_json raw")
    case None
    then show ?thesis using Cons by (simp add: log_verdict_def)
  next
    case (Some entry)
    obtain r m' where lf: "log_facts al profile perms addrs prov vis admins m raw entry = (r, m')" by fastforce
    have v: "log_verdict al profile perms addrs prov vis admins raw = map_sum id (DecideLogEmitter profile) r"
      using log_facts_pass(1) [OF Cons.prems, of perms addrs prov vis admins raw entry] Some lf by (simp add: log_verdict_def)
    have ok: "pass_ok al profile m'"
      using log_facts_pass(2) [OF Cons.prems, of perms addrs prov vis admins raw entry] lf by simp
    show ?thesis
    proof (cases r)
      case (Inl e)
      then show ?thesis using Some lf v by simp
    next
      case (Inr facts)
      show ?thesis
        using Some lf v Inr Cons.IH [OF ok] by (cases "filter_logs al profile perms addrs prov vis admins m' logs")
          (auto simp: Let_def)
    qed
  qed
qed auto

lemma FilterEventLogsDetailed_spec:
  "FilterEventLogsDetailed al profile logs (Some perms) own prov vis admins = Inr out \<longleftrightarrow>
     (\<forall>raw \<in> set logs. \<exists>d. log_verdict al profile perms (map to_lower own) prov vis admins raw = Inr d)
     \<and> out = map (\<lambda>raw. \<lparr>al_Raw = raw, al_Payload = ld_Payload (projr (log_verdict al profile perms (map to_lower own) prov vis admins raw))\<rparr>)
               (filter (\<lambda>raw. ld_Admit (projr (log_verdict al profile perms (map to_lower own) prov vis admins raw))) logs)"
proof (cases "logs = []")
  case False
  then show ?thesis
    using filter_logs_spec [OF pass_ok_first] by (simp add: FilterEventLogsDetailed_def first_matcher_def)
qed (auto simp: FilterEventLogsDetailed_def)

lemma admitted_verdict:
  assumes "FilterEventLogsDetailed al profile logs perms own prov vis admins = Inr out" "l \<in> set out"
  obtains p entry facts where "perms = Some p" "al_Raw l \<in> set logs" "log_entry_of_json (al_Raw l) = Some entry"
    "fst (log_facts al profile p (map to_lower own) prov vis admins (first_matcher profile) (al_Raw l) entry) = Inr facts"
    "ld_Admit (DecideLogEmitter profile facts)" "al_Payload l = ld_Payload (DecideLogEmitter profile facts)"
proof -
  obtain p where p: "perms = Some p" using assms by (cases perms) (auto simp: FilterEventLogsDetailed_def)
  from assms(1) [unfolded p FilterEventLogsDetailed_spec] assms(2) obtain d where d:
    "al_Raw l \<in> set logs" "log_verdict al profile p (map to_lower own) prov vis admins (al_Raw l) = Inr d"
    "ld_Admit d" "al_Payload l = ld_Payload d" by auto
  then obtain entry facts where "log_entry_of_json (al_Raw l) = Some entry" and
    "fst (log_facts al profile p (map to_lower own) prov vis admins (first_matcher profile) (al_Raw l) entry) = Inr facts"
    "d = DecideLogEmitter profile facts"
    by (auto simp: log_verdict_def map_sum_def split: option.splits sum.splits)
  with that p d show thesis by blast
qed

text \<open>Each fact of a log, on its own.\<close>

lemma rule_facts_fields:
  assumes "rule_facts al access entry addrs addr prov f = Inr facts" "lef_Rules f = LogEventRulesDeny"
  shows "lef_IsAdmin facts = lef_IsAdmin f" "lef_Unlocked facts = lef_Unlocked f" "lef_HasGrant facts = lef_HasGrant f"
    "lef_ABIResolvable facts = lef_ABIResolvable f" "lef_DynamicPayloadDropped facts = lef_DynamicPayloadDropped f"
    "lef_IsParticipant facts = lef_IsParticipant f" "lef_InVisibleTo facts = lef_InVisibleTo f"
    "lef_HasTopic0 facts = lef_HasTopic0 f" "lef_IndexedSelf facts = lef_IndexedSelf f"
  using assms by (auto simp: rule_facts_def Let_def split: option.splits if_splits list.splits sum.splits)

lemma rule_facts_rules:
  assumes "rule_facts al access entry addrs addr prov f = Inr facts" "lef_Rules f = LogEventRulesDeny"
    "\<not> lef_EventAllowed f" "\<not> lef_Topic0Allowlisted f" "lef_HasTopic0 f \<longleftrightarrow> le_Topics entry \<noteq> []"
  shows "rules_admit facts visible \<longleftrightarrow>
     (\<exists>a ef. access = Some a \<and> ca_EventRules a = Some ef
        \<and> (IsWildcard ef
           \<or> \<not> IsWildcard ef \<and> le_Topics entry \<noteq> []
             \<and> (eventAllowed al (to_lower (hd (le_Topics entry))) entry (GetRules ef) addrs addr prov = Inr True
                \<or> visible \<and> lef_InVisibleTo f \<and> eventTopic0Matches (to_lower (hd (le_Topics entry))) (GetRules ef))))"
  using assms
  by (auto simp: rule_facts_def rules_admit_def Let_def eventRulesGetRules_def eventTopic0Matches_def
      split: option.splits if_splits list.splits sum.splits)

abbreviation provider_abi :: "abi_provider option \<Rightarrow> string \<Rightarrow> string" where
  "provider_abi prov addr \<equiv> (case prov of None \<Rightarrow> '''' | Some p \<Rightarrow> ap_GetContractABI p addr)"

definition unlocked_for :: "tx_visibility_context option \<Rightarrow> json \<Rightarrow> string \<Rightarrow> bool" where
  "unlocked_for vis raw addr \<longleftrightarrow>
     (\<exists>v h dids. vis = Some v \<and> map_of (tvc_UnlockableContracts v) addr = Some True
        \<and> log_tx_hash raw = Some h \<and> h \<noteq> '''' \<and> map_of (tvc_TxVisibility v) (to_lower h) = Some dids
        \<and> tvc_ViewerDID v \<noteq> '''' \<and> tvc_ViewerDID v \<in> set dids)"

definition rule_admits ::
  "abi_lib \<Rightarrow> contract_access option \<Rightarrow> log_entry \<Rightarrow> string list \<Rightarrow> string \<Rightarrow> abi_provider option \<Rightarrow> bool \<Rightarrow> bool" where
  "rule_admits al access entry addrs addr prov visible \<longleftrightarrow>
     (\<exists>a ef. access = Some a \<and> ca_EventRules a = Some ef
        \<and> (IsWildcard ef
           \<or> \<not> IsWildcard ef \<and> le_Topics entry \<noteq> []
             \<and> (eventAllowed al (to_lower (hd (le_Topics entry))) entry (GetRules ef) addrs addr prov = Inr True
                \<or> visible \<and> eventTopic0Matches (to_lower (hd (le_Topics entry))) (GetRules ef))))"

text \<open>The facts of a log before its event rules are consulted.\<close>

definition base_facts ::
  "abi_lib \<Rightarrow> read_profile \<Rightarrow> effective_permissions \<Rightarrow> string list \<Rightarrow> abi_provider option
     \<Rightarrow> tx_visibility_context option \<Rightarrow> (string \<times> bool) list \<Rightarrow> json \<Rightarrow> log_entry \<Rightarrow> log_emitter_facts" where
  "base_facts al profile p addrs prov vis admins raw entry =
     (let addr = to_lower (le_Address entry); abi = provider_abi prov addr in
      \<lparr>lef_IsAdmin = flag admins addr,
       lef_Unlocked = (case vis of None \<Rightarrow> False | Some v \<Rightarrow> flag (tvc_UnlockableContracts v) addr) \<and> isViewerInVisibleTo vis raw,
       lef_HasGrant = GetContractAccess p addr \<noteq> None,
       lef_ABIResolvable = (prov = None \<or> abi \<noteq> ''''),
       lef_DynamicPayloadDropped =
         abi \<noteq> '''' \<and> le_Topics entry \<noteq> []
         \<and> \<not> (case prov of None \<Rightarrow> False | Some p \<Rightarrow> (case ap_IsEventsAllowDynamicPayload p of None \<Rightarrow> False | Some f \<Rightarrow> f addr))
         \<and> eventHasDynamicNonIndexedParam al abi (hd (le_Topics entry)),
       lef_IsParticipant = logTxIsParticipant vis raw, lef_InVisibleTo = isViewerInVisibleTo vis raw,
       lef_Rules = LogEventRulesDeny, lef_HasTopic0 = le_Topics entry \<noteq> [], lef_EventAllowed = False,
       lef_Topic0Allowlisted = False,
       lef_IndexedSelf = (Strict profile \<and> names_viewer al abi (le_Topics entry) (le_Data entry) addrs)\<rparr>)"

lemma log_facts_base:
  "fst (log_facts al profile p addrs prov vis admins (first_matcher profile) raw entry) =
     rule_facts al (GetContractAccess p (to_lower (le_Address entry))) entry addrs (to_lower (le_Address entry)) prov
       (base_facts al profile p addrs prov vis admins raw entry)"
  using ism_Match_spec [OF matcher_ok_new, of al "provider_abi prov (to_lower (le_Address entry))" "le_Topics entry" "le_Data entry" addrs]
  by (cases prov) (simp_all add: log_facts_def base_facts_def Let_def split_beta first_matcher_def)

lemma log_facts_fields:
  assumes "fst (log_facts al profile p addrs prov vis admins (first_matcher profile) raw entry) = Inr facts"
  defines "addr \<equiv> to_lower (le_Address entry)"
  shows "lef_IsAdmin facts \<longleftrightarrow> map_of admins addr = Some True"
    "lef_Unlocked facts \<longleftrightarrow> unlocked_for vis raw addr"
    "lef_HasGrant facts \<longleftrightarrow> GetContractAccess p addr \<noteq> None"
    "lef_ABIResolvable facts \<longleftrightarrow> prov = None \<or> provider_abi prov addr \<noteq> ''''"
    "lef_IsParticipant facts \<longleftrightarrow> logTxIsParticipant vis raw"
    "lef_IndexedSelf facts \<longleftrightarrow> Strict profile \<and> names_viewer al (provider_abi prov addr) (le_Topics entry) (le_Data entry) addrs"
    "rules_admit facts visible \<longleftrightarrow>
       rule_admits al (GetContractAccess p addr) entry addrs addr prov (visible \<and> isViewerInVisibleTo vis raw)"
proof -
  let ?f = "base_facts al profile p addrs prov vis admins raw entry"
  have r: "rule_facts al (GetContractAccess p addr) entry addrs addr prov ?f = Inr facts"
    using assms(1) log_facts_base unfolding addr_def by metis
  have f: "lef_Rules ?f = LogEventRulesDeny" "\<not> lef_EventAllowed ?f" "\<not> lef_Topic0Allowlisted ?f"
    "lef_HasTopic0 ?f \<longleftrightarrow> le_Topics entry \<noteq> []" by (simp_all add: base_facts_def Let_def)
  note g = rule_facts_fields [OF r f(1)]
  show "lef_IsAdmin facts \<longleftrightarrow> map_of admins addr = Some True"
    "lef_HasGrant facts \<longleftrightarrow> GetContractAccess p addr \<noteq> None"
    "lef_ABIResolvable facts \<longleftrightarrow> prov = None \<or> provider_abi prov addr \<noteq> ''''"
    "lef_IsParticipant facts \<longleftrightarrow> logTxIsParticipant vis raw"
    "lef_IndexedSelf facts \<longleftrightarrow> Strict profile \<and> names_viewer al (provider_abi prov addr) (le_Topics entry) (le_Data entry) addrs"
    unfolding g addr_def by (simp_all add: base_facts_def Let_def flag_def)
  show "lef_Unlocked facts \<longleftrightarrow> unlocked_for vis raw addr"
    by (simp only: g) (auto simp: base_facts_def Let_def addr_def unlocked_for_def flag_def isViewerInVisibleTo_def
        split: option.splits if_splits)
  have "lef_InVisibleTo ?f = isViewerInVisibleTo vis raw" by (simp add: base_facts_def Let_def)
  then show "rules_admit facts visible \<longleftrightarrow>
       rule_admits al (GetContractAccess p addr) entry addrs addr prov (visible \<and> isViewerInVisibleTo vis raw)"
    using rule_facts_rules [OF r f, of visible] by (simp add: rule_admits_def conj_assoc)
qed

lemma verdict_profiles:
  assumes "log_verdict al profile p addrs prov vis admins raw = Inr d" "Strict profile"
  shows "\<exists>e. log_verdict al ReadProfileStandard p addrs prov vis admins raw = Inr e \<and> (ld_Admit d \<longrightarrow> ld_Admit e)"
proof (cases "log_entry_of_json raw")
  case (Some entry)
  let ?addr = "to_lower (le_Address entry)"
  let ?R = "rule_facts al (GetContractAccess p ?addr) entry addrs ?addr prov"
  let ?f = "base_facts al ReadProfileStandard p addrs prov vis admins raw entry"
  obtain b where f: "base_facts al profile p addrs prov vis admins raw entry = ?f\<lparr>lef_IndexedSelf := b\<rparr>"
    by (simp add: base_facts_def Let_def)
  have upd: "?R (?f\<lparr>lef_IndexedSelf := b\<rparr>) = map_sum id (\<lambda>g. g\<lparr>lef_IndexedSelf := b\<rparr>) (?R ?f)"
    by (auto simp: rule_facts_def Let_def split: option.splits list.splits sum.splits)
  from assms(1) Some f upd obtain g where g: "?R ?f = Inr g" "d = DecideLogEmitter profile (g\<lparr>lef_IndexedSelf := b\<rparr>)"
    by (auto simp: log_verdict_def log_facts_base map_sum_def split: sum.splits)
  have "ld_Admit d \<longrightarrow> ld_Admit (DecideLogEmitter ReadProfileStandard g)"
    using g(2) assms(2) by (auto simp: DecideLogEmitter_def [of profile] strict_admit_iff standard_admit_iff rules_admit_def)
  with Some g(1) show ?thesis by (simp add: log_verdict_def log_facts_base)
qed (use assms in \<open>simp add: log_verdict_def\<close>)

section \<open>Properties\<close>

text \<open>
  C18. The grounds of every log shown under the standard profile. A log is returned verbatim only through
  the unlock: its own contract is unlockable for the viewer and its own transaction lists the viewer.
  Otherwise its addresses are masked and either the viewer is an admin of its contract, or the viewer has
  a grant on the contract, the contract has an ABI (when a provider is given), and the viewer took part in
  the transaction or the grant's event rules admit the event, where being listed on the transaction only
  replaces the parameter rules of a listed event.
\<close>

theorem log_admission_grounds:
  assumes "FilterEventLogsDetailed al profile logs (Some perms) own prov vis admins = Inr out"
    and "l \<in> set out" "\<not> Strict profile"
  shows "\<exists>entry. al_Raw l \<in> set logs \<and> log_entry_of_json (al_Raw l) = Some entry
     \<and> (let addr = to_lower (le_Address entry); access = GetContractAccess perms addr in
        (al_Payload l = LogPayloadFull \<longleftrightarrow> unlocked_for vis (al_Raw l) addr)
        \<and> (unlocked_for vis (al_Raw l) addr \<or> map_of admins addr = Some True
           \<or> access \<noteq> None \<and> (prov = None \<or> provider_abi prov addr \<noteq> '''')
             \<and> (logTxIsParticipant vis (al_Raw l)
                \<or> rule_admits al access entry (map to_lower own) addr prov (isViewerInVisibleTo vis (al_Raw l)))))"
  using assms(1,2)
proof (rule admitted_verdict)
  fix p entry facts
  assume p: "Some perms = Some p" and e: "al_Raw l \<in> set logs" "log_entry_of_json (al_Raw l) = Some entry"
    and f: "fst (log_facts al profile p (map to_lower own) prov vis admins (first_matcher profile) (al_Raw l) entry) = Inr facts"
    and d: "ld_Admit (DecideLogEmitter profile facts)" "al_Payload l = ld_Payload (DecideLogEmitter profile facts)"
  note ff = log_facts_fields [OF f]
  show ?thesis
    using e p d assms(3) full_payload_iff [of profile facts] standard_admit_iff [OF assms(3), of facts] ff(1-5) ff(7) [of True]
    by (intro exI [of _ entry]) (auto simp: Let_def)
qed

text \<open>
  C19. The strict profile. Every log it shows is masked, comes from a contract the viewer has a grant on,
  and names the viewer: of the events the contract's ABI declares for the log's topic0, exactly one fits
  the log, it is not anonymous, and one of its indexed address parameters holds, canonically padded, one of
  the viewer's linked addresses. An unset or unknown profile counts as strict.
\<close>

theorem strict_log_names_viewer:
  assumes "FilterEventLogsDetailed al profile logs (Some perms) own prov vis admins = Inr out"
    and "l \<in> set out" "profile \<noteq> ReadProfileStandard"
  shows "al_Payload l = LogPayloadMasked
     \<and> (\<exists>entry p parsed ev inp topic. al_Raw l \<in> set logs \<and> log_entry_of_json (al_Raw l) = Some entry
          \<and> GetContractAccess perms (to_lower (le_Address entry)) \<noteq> None
          \<and> prov = Some p \<and> al_JSON al (ap_GetContractABI p (to_lower (le_Address entry))) = Inr parsed
          \<and> filter (\<lambda>e. ''0x'' @ encode_hex (ev_ID e) = to_lower (hd (le_Topics entry))
                        \<and> fst (eventNamesLinked al e (le_Topics entry) (le_Data entry) (map to_lower own)))
              (abi_Events parsed) = [ev]
          \<and> \<not> ev_Anonymous ev
          \<and> (inp, topic) \<in> set (zip (filter arg_Indexed (ev_Inputs ev)) (tl (le_Topics entry)))
          \<and> arg_Type inp = AddressTy \<and> topicMatchesAddr topic (map to_lower own))"
  using assms(1,2)
proof (rule admitted_verdict)
  fix p entry facts
  assume p: "Some perms = Some p" and e: "al_Raw l \<in> set logs" "log_entry_of_json (al_Raw l) = Some entry"
    and f: "fst (log_facts al profile p (map to_lower own) prov vis admins (first_matcher profile) (al_Raw l) entry) = Inr facts"
    and d: "ld_Admit (DecideLogEmitter profile facts)" "al_Payload l = ld_Payload (DecideLogEmitter profile facts)"
  have s: "Strict profile" using assms(3) by (simp add: Strict_def)
  note ff = log_facts_fields [OF f]
  from s d(1) have strict: "lef_IndexedSelf facts" "lef_HasGrant facts"
    by (simp_all add: DecideLogEmitter_def strict_admit_iff)
  have pay: "al_Payload l = LogPayloadMasked"
    using d(2) s full_payload_iff [of profile facts] by (cases "al_Payload l") auto
  from strict(1) ff(6) have nv:
    "names_viewer al (provider_abi prov (to_lower (le_Address entry))) (le_Topics entry) (le_Data entry) (map to_lower own)" by simp
  then obtain pr where pr: "prov = Some pr" by (cases prov) (auto simp: names_viewer_def)
  with nv obtain parsed ev where ev: "al_JSON al (ap_GetContractABI pr (to_lower (le_Address entry))) = Inr parsed"
    "filter (\<lambda>e. ''0x'' @ encode_hex (ev_ID e) = to_lower (hd (le_Topics entry))
        \<and> fst (eventNamesLinked al e (le_Topics entry) (le_Data entry) (map to_lower own))) (abi_Events parsed) = [ev]"
    "snd (eventNamesLinked al ev (le_Topics entry) (le_Data entry) (map to_lower own))"
    by (auto simp: names_viewer_def)
  from ev(3) have an: "\<not> ev_Anonymous ev" by (auto simp: eventNamesLinked_def)
  from ev(3) obtain inp topic where
    "(inp, topic) \<in> set (zip (filter arg_Indexed (ev_Inputs ev)) (tl (le_Topics entry)))"
    "arg_Type inp = AddressTy" "topicMatchesAddr topic (map to_lower own)"
    by (auto simp: eventNamesLinked_iff)
  with pay e pr ev an p ff(3) strict(2) show ?thesis by blast
qed

text \<open>
  C26. The strict profile only ever removes logs: with the same inputs, what it returns is a subsequence of
  what the standard profile returns, which is a subsequence of the node's logs; and whether a pass panics
  does not depend on the profile.
\<close>

theorem strict_within_standard:
  assumes "FilterEventLogs al profile logs perms own prov vis admins = Inr strict" "profile \<noteq> ReadProfileStandard"
  shows "\<exists>standard. FilterEventLogs al ReadProfileStandard logs perms own prov vis admins = Inr standard
     \<and> subseq strict standard \<and> subseq standard logs"
proof (cases "logs = [] \<or> perms = None")
  case True
  with assms show ?thesis by (auto simp: FilterEventLogs_def FilterEventLogsDetailed_def)
next
  case False
  then obtain p where p: "perms = Some p" by auto
  let ?v = "\<lambda>profile. log_verdict al profile p (map to_lower own) prov vis admins"
  have s: "Strict profile" using assms(2) by (simp add: Strict_def)
  have same: "\<exists>e. ?v ReadProfileStandard raw = Inr e \<and> (ld_Admit d \<longrightarrow> ld_Admit e)" if "?v profile raw = Inr d" for raw d
    by (rule verdict_profiles [OF that s])
  obtain out where out: "FilterEventLogsDetailed al profile logs (Some p) own prov vis admins = Inr out" "strict = map al_Raw out"
    using assms(1) False p by (auto simp: FilterEventLogs_def map_sum_def split: sum.splits)
  from out(1) [unfolded FilterEventLogsDetailed_spec] have total: "\<forall>raw \<in> set logs. \<exists>d. ?v profile raw = Inr d"
    and st: "strict = filter (\<lambda>raw. ld_Admit (projr (?v profile raw))) logs"
    using out(2) by (auto simp: comp_def)
  have "\<forall>raw \<in> set logs. \<exists>d. ?v ReadProfileStandard raw = Inr d" using total same by blast
  then obtain sout where sout: "FilterEventLogsDetailed al ReadProfileStandard logs (Some p) own prov vis admins = Inr sout"
    "map al_Raw sout = filter (\<lambda>raw. ld_Admit (projr (?v ReadProfileStandard raw))) logs"
    by (simp add: FilterEventLogsDetailed_spec comp_def)
  then have std: "FilterEventLogs al ReadProfileStandard logs perms own prov vis admins
      = Inr (filter (\<lambda>raw. ld_Admit (projr (?v ReadProfileStandard raw))) logs)"
    using False p by (simp add: FilterEventLogs_def)
  have "subseq (filter (\<lambda>raw. ld_Admit (projr (?v profile raw))) xs) (filter (\<lambda>raw. ld_Admit (projr (?v ReadProfileStandard raw))) xs)"
    if "set xs \<subseteq> set logs" for xs
    using that
  proof (induction xs)
    case (Cons x xs)
    then obtain d where "?v profile x = Inr d" using total by auto
    with same [of x d] Cons show ?case by auto
  qed simp
  with std st show ?thesis by auto
qed

section \<open>Examples\<close>

definition demo_event :: abi_event where
  "demo_event =
     \<lparr>ev_Name = ''Sent'', ev_Sig = ''Sent(address)'', ev_ID = [1], ev_Anonymous = False,
      ev_Inputs = [\<lparr>arg_Name = ''from'', arg_Type = AddressTy, arg_TypeString = ''address'', arg_Indexed = True\<rparr>]\<rparr>"

definition demo_abi :: abi_lib where
  "demo_abi = empty_abi_lib\<lparr>al_JSON := (\<lambda>_. Inr \<lparr>abi_Events = [demo_event], abi_MethodById = \<lambda>_. Inl ''none''\<rparr>)\<rparr>"

definition demo_own :: string where
  "demo_own = ''0x'' @ replicate 40 CHR ''a''"

definition demo_log :: "string \<Rightarrow> json" where
  "demo_log who =
     JObj [(''address'', JStr ''0xABC''), (''data'', JStr ''0x''), (''transactionHash'', JStr ''0xF''),
           (''topics'', JArr [JStr ''0x01'', JStr (''0x'' @ replicate 24 CHR ''0'' @ drop 2 who)])]"

definition demo_viewer :: effective_permissions where
  "demo_viewer =
     \<lparr>ep_ID = '''', ep_UserID = ''u'', ep_OrgID = ''o'', ep_AllowedMethods = [],
      ep_ContractAccess = [(''0xabc'', \<lparr>ca_Claims = [], ca_Functions = None,
        ca_EventRules = Some \<lparr>erf_Wildcard = False, erf_Rules =
          [\<lparr>er_Topic0 = ''0x01'', er_Name = ''Sent'', er_ParamRules = [\<lparr>pr_Index = 0, pr_MustBe = ''self''\<rparr>]\<rparr>]\<rparr>\<rparr>)],
      ep_Claims = [], ep_RPCAPIKey = '''', ep_ComputedAt = 0, ep_ExpiresAt = 9\<rparr>"

definition demo_provider :: "abi_provider option" where
  "demo_provider = Some \<lparr>ap_GetContractABI = \<lambda>_. ''[]'', ap_IsEventsAllowDynamicPayload = None\<rparr>"

definition demo_node_logs :: "json list" where
  "demo_node_logs = [demo_log (''0x'' @ replicate 40 CHR ''b''), demo_log demo_own]"

lemma demo_filter_strict:
  "FilterEventLogsDetailed demo_abi ReadProfileStrict demo_node_logs (Some demo_viewer) [demo_own] demo_provider None []
     = Inr [\<lparr>al_Raw = demo_log demo_own, al_Payload = LogPayloadMasked\<rparr>]"
  by code_simp

lemma demo_filter_standard:
  "FilterEventLogsDetailed demo_abi ReadProfileStandard demo_node_logs (Some demo_viewer) [demo_own] demo_provider None []
     = Inr [\<lparr>al_Raw = demo_log demo_own, al_Payload = LogPayloadMasked\<rparr>]"
  by code_simp

theorem log_admission_grounds_witness:
  "\<exists>entry. log_entry_of_json (demo_log demo_own) = Some entry
     \<and> rule_admits demo_abi (GetContractAccess demo_viewer (to_lower (le_Address entry))) entry [to_lower demo_own]
         (to_lower (le_Address entry)) demo_provider False"
proof -
  let ?l = "\<lparr>al_Raw = demo_log demo_own, al_Payload = LogPayloadMasked\<rparr>"
  have "?l \<in> set [?l]" by simp
  from log_admission_grounds [OF demo_filter_standard this] show ?thesis
    by (auto simp: Let_def unlocked_for_def logTxIsParticipant_def isViewerInVisibleTo_def)
qed

theorem strict_log_names_viewer_witness:
  "\<exists>topic. topicMatchesAddr topic [to_lower demo_own] \<and> ReadProfileStrict \<noteq> ReadProfileStandard"
proof -
  let ?l = "\<lparr>al_Raw = demo_log demo_own, al_Payload = LogPayloadMasked\<rparr>"
  have "?l \<in> set [?l]" "ReadProfileStrict \<noteq> ReadProfileStandard" by (simp_all add: ReadProfileStrict_def ReadProfileStandard_def)
  from strict_log_names_viewer [OF demo_filter_strict this] this(2) show ?thesis by auto
qed

theorem strict_within_standard_witness:
  "\<exists>standard. FilterEventLogs demo_abi ReadProfileStandard demo_node_logs (Some demo_viewer) [demo_own] demo_provider None [] = Inr standard
     \<and> subseq [demo_log demo_own] standard"
proof -
  have "FilterEventLogs demo_abi ReadProfileStrict demo_node_logs (Some demo_viewer) [demo_own] demo_provider None [] = Inr [demo_log demo_own]"
    by (simp add: FilterEventLogs_def demo_filter_strict) (simp add: demo_node_logs_def)
  from strict_within_standard [OF this] show ?thesis by (auto simp: ReadProfileStrict_def ReadProfileStandard_def)
qed

section \<open>Panics\<close>

text \<open>
  Parameter indices for which the topic guessed without a declaration is not negative: the source adds one
  to the index in a 64-bit integer.
\<close>

definition index_ok :: "param_rule \<Rightarrow> bool" where
  "index_ok pr \<longleftrightarrow> - 1 \<le> pr_Index pr \<and> pr_Index pr < 2 ^ 63 - 1"

lemma guessed_topic_total: "- 1 \<le> i \<Longrightarrow> i < 2 ^ 63 - 1 \<Longrightarrow> \<exists>b. guessed_topic entry i P = Inr b"
  by (auto simp: guessed_topic_def go_int_def Let_def signed_take_bit_int_eq_self)

lemma matches_total:
  assumes "index_ok pr"
  shows "\<exists>b. matchesParamSelf al entry (pr_Index pr) addrs ev = Inr b"
    and "\<exists>b. matchesParamCustom al entry (pr_Index pr) m ev = Inr b"
proof -
  have g: "\<exists>b. guessed_topic entry (pr_Index pr) P = Inr b" for P
    using assms guessed_topic_total by (simp add: index_ok_def)
  show "\<exists>b. matchesParamSelf al entry (pr_Index pr) addrs ev = Inr b"
    by (cases ev) (auto simp: g matchesParamSelf_def Let_def)
  show "\<exists>b. matchesParamCustom al entry (pr_Index pr) m ev = Inr b"
    by (cases ev) (auto simp: g matchesParamCustom_def Let_def)
qed

lemma match_rules_total:
  "list_all index_ok prs \<Longrightarrow> \<exists>b. match_param_rules al entry addrs ev prs = Inr b"
proof (induction prs)
  case (Cons pr prs)
  then have pr: "index_ok pr" and IH: "\<exists>b. match_param_rules al entry addrs ev prs = Inr b" by simp_all
  obtain b c where "matchesParamSelf al entry (pr_Index pr) addrs ev = Inr b"
    "matchesParamCustom al entry (pr_Index pr) (pr_MustBe pr) ev = Inr c"
    using matches_total [OF pr] by blast
  then show ?case using IH by (cases b; cases c) auto
qed auto

lemma eventAllowed_total:
  "list_all (\<lambda>r. list_all index_ok (er_ParamRules r)) rules \<Longrightarrow> \<exists>b. eventAllowed al topic0 entry rules addrs addr prov = Inr b"
proof (induction rules)
  case (Cons r rules)
  then have r: "list_all index_ok (er_ParamRules r)" by simp
  have "\<exists>b. checkEventParamRules al entry (er_ParamRules r) addrs addr prov = Inr b"
    using match_rules_total [OF r]
    by (cases "er_ParamRules r = []"; cases "le_Topics entry") (auto simp: checkEventParamRules_def MatchesEventParamRules_def)
  then obtain b where b: "checkEventParamRules al entry (er_ParamRules r) addrs addr prov = Inr b" ..
  from Cons show ?case by (cases b) (auto simp: b)
qed auto

text \<open>
  C28. The log filter returns. When every parameter rule in the viewer's permissions has an index between
  -1 and 2^63 - 2, a pass over any logs, with any ABI and profile, ends with a result: no index panics.
\<close>

theorem log_filter_returns:
  assumes "list_all (\<lambda>(_, a). list_all (\<lambda>r. list_all index_ok (er_ParamRules r)) (eventRulesGetRules (ca_EventRules a))) (ep_ContractAccess perms)"
  shows "\<exists>out. FilterEventLogs al profile logs (Some perms) own prov vis admins = Inr out"
proof -
  have rules: "list_all (\<lambda>r. list_all index_ok (er_ParamRules r)) (eventRulesGetRules (ca_EventRules a))"
    if "GetContractAccess perms addr = Some a" for addr a
  proof (cases "map_of (ep_ContractAccess perms) (to_lower addr)")
    case None
    then have "ca_EventRules a = None" using that by (auto simp: GetContractAccess_def Let_def split: if_splits)
    then show ?thesis by (simp add: eventRulesGetRules_def)
  next
    case (Some b)
    then have "(to_lower addr, a) \<in> set (ep_ContractAccess perms)"
      using that by (auto simp: GetContractAccess_def Let_def dest: map_of_SomeD)
    with assms show ?thesis by (force simp: list_all_iff)
  qed
  have "\<exists>d. log_verdict al profile perms (map to_lower own) prov vis admins raw = Inr d" for raw
  proof (cases "log_entry_of_json raw")
    case (Some entry)
    let ?a = "to_lower (le_Address entry)"
    have "\<exists>f. rule_facts al (GetContractAccess perms ?a) entry addrs ?a prov b = Inr f" for addrs b
    proof (cases "GetContractAccess perms ?a")
      case (Some a)
      have "\<exists>b. eventAllowed al t entry (eventRulesGetRules (ca_EventRules a)) addrs ?a prov = Inr b" for t
        by (rule eventAllowed_total [OF rules [OF Some]])
      then have "eventAllowed al t entry (eventRulesGetRules (ca_EventRules a)) addrs ?a prov \<noteq> Inl e" for t e
        by (metis Inl_Inr_False)
      then show ?thesis using Some by (auto simp: rule_facts_def Let_def split: list.splits sum.splits)
    qed (simp add: rule_facts_def)
    from this [of "map to_lower own" "base_facts al profile perms (map to_lower own) prov vis admins raw entry"]
    show ?thesis using Some by (elim exE) (simp add: log_verdict_def log_facts_base)
  qed (simp add: log_verdict_def)
  then have "\<exists>out. FilterEventLogsDetailed al profile logs (Some perms) own prov vis admins = Inr out"
    by (simp add: FilterEventLogsDetailed_spec)
  then show ?thesis by (auto simp: FilterEventLogs_def)
qed

theorem log_filter_returns_witness:
  "\<exists>out. FilterEventLogs demo_abi ReadProfileUnset demo_node_logs (Some demo_viewer) [] None None [] = Inr out"
  by (rule log_filter_returns) (simp add: demo_viewer_def eventRulesGetRules_def GetRules_def index_ok_def)

text \<open>
  An index of -2 makes the filter panic on a log whose event the ABI does not declare.
\<close>

lemma negative_index_panics:
  "guessed_topic entry (- 2) P = Inl ''panic: index out of range''"
  by (simp add: guessed_topic_def go_int_def Let_def signed_take_bit_int_eq_self)

end
