(* ===== verification/Response_Properties.thy ===== *)
theory Response_Properties
  imports Filter_Inputs Access_Properties Event_Properties "HOL-Library.Multiset"
begin

text \<open>
  What the response filters let through: the envelope of an answer, blocks and counts, transactions and
  receipts, rendered logs, and the inputs the filters are run with, under an impersonation scope or not.
\<close>

section \<open>The shared opening\<close>

lemma with_result_cases:
  assumes "with_result body closed k = Inr out"
  obtains "out = closed"
  | resp e where "rpc_envelope_of body = Some resp" "re_Result resp = None" "re_Error resp = Some e"
      "out = rpc_answer (re_ID resp) ''error'' e"
  | resp where "rpc_envelope_of body = Some resp" "re_Result resp = None" "re_Error resp = None"
      "out = rpc_answer (re_ID resp) ''result'' JNull"
  | resp raw where "rpc_envelope_of body = Some resp" "re_Result resp = Some raw" "re_Error resp = None" "raw \<noteq> JNull"
      "k (re_ID resp) raw = Inr out"
  | resp where "rpc_envelope_of body = Some resp" "re_Result resp = Some JNull" "re_Error resp = None"
      "out = rpc_answer (re_ID resp) ''result'' JNull"
proof (cases "rpc_envelope_of body")
  case None
  then show ?thesis using assms that(1) by (simp add: with_result_def)
next
  case (Some resp)
  show ?thesis
  proof (cases "re_Error resp"; cases "re_Result resp")
    fix e r assume "re_Error resp = Some e" "re_Result resp = Some r"
    then show ?thesis using Some assms that(1) by (simp add: with_result_def)
  next
    fix e assume "re_Error resp = Some e" "re_Result resp = None"
    then show ?thesis using Some assms that(2) by (simp add: with_result_def rpcResponseFromParsed_def)
  next
    fix r assume r: "re_Error resp = None" "re_Result resp = Some r"
    show ?thesis
    proof (cases "r = JNull")
      case True
      then show ?thesis using r Some assms that(5) by (simp add: with_result_def rpcResponseFromParsed_def)
    next
      case False
      then show ?thesis using r Some assms that(4) by (simp add: with_result_def)
    qed
  next
    assume "re_Error resp = None" "re_Result resp = None"
    then show ?thesis using Some assms that(3) by (simp add: with_result_def rpcResponseFromParsed_def)
  qed
qed

text \<open>The \<^verbatim>\<open>result\<close> member of an answer.\<close>

definition answer_result :: "json \<Rightarrow> json option" where
  "answer_result out = (case out of JObj fs \<Rightarrow> map_of fs ''result'' | _ \<Rightarrow> None)"

lemma answer_result_simps [simp]:
  "answer_result (rpc_answer rid ''result'' v) = Some v" "answer_result (rpc_answer rid ''error'' v) = None"
  "answer_result (nullResult body) = Some JNull" "answer_result (emptyLogsResponse body) = Some (JArr [])"
  by (simp_all add: answer_result_def rpc_answer_def nullResult_def emptyLogsResponse_def)

lemma with_result_released:
  assumes "with_result body closed k = Inr out" "answer_result out = Some v" "v \<noteq> JNull" "answer_result closed \<noteq> Some v"
  obtains resp raw where "rpc_envelope_of body = Some resp" "re_Result resp = Some raw" "re_Error resp = None"
    "k (re_ID resp) raw = Inr out"
  using assms(1)
  by (rule with_result_cases) (use assms(2-) that in auto)

text \<open>A well-formed answer: the three members, and an error only where the node sent one and no result.\<close>

definition answer_ok :: "json option \<Rightarrow> json \<Rightarrow> bool" where
  "answer_ok body out =
     (case out of
        JObj [(k1, v1), (k2, v2), (k3, v3)] \<Rightarrow>
          k1 = ''jsonrpc'' \<and> v1 = JStr ''2.0'' \<and> k2 = ''id'' \<and>
          (k3 = ''result'' \<or>
           k3 = ''error'' \<and> (case rpc_envelope_of body of None \<Rightarrow> False
                             | Some resp \<Rightarrow> re_Error resp = Some v3 \<and> re_Result resp = None))
      | _ \<Rightarrow> False)"

lemma answer_ok_result [simp]: "answer_ok body (rpc_answer rid ''result'' v)"
  by (simp add: answer_ok_def rpc_answer_def)

lemma answer_ok_closed [simp]: "answer_ok body (nullResult body')" "answer_ok body (emptyLogsResponse body')"
  by (simp_all add: nullResult_def emptyLogsResponse_def)

lemma with_result_ok:
  assumes "with_result body closed k = Inr out" "answer_ok body closed" "\<And>rid raw. k rid raw = Inr out \<Longrightarrow> answer_ok body out"
  shows "answer_ok body out"
  using assms(1) by (rule with_result_cases) (use assms(2,3) in \<open>auto simp: answer_ok_def rpc_answer_def\<close>)

lemma map_sum_Inr: "map_sum id f x = Inr y \<longleftrightarrow> (\<exists>z. x = Inr z \<and> y = f z)"
  by (cases x) auto

text \<open>
  C27. Whatever the node returns, every response filter answers with exactly the three members jsonrpc, id and
  one of result and error, in that order: no other member of the upstream body, and no case variant of one,
  reaches the caller, and an error appears only where the node returned that error and no result.
\<close>

theorem response_envelope_closed:
  assumes "Inr out \<in> {FilterTransactionByHash profile body addrs isAdmin inVis,
                      FilterBlockTransactions profile body addrs full,
                      FilterBlockTransactionCount body addrs,
                      FilterBlockReceipts al profile body addrs perms prov visCtx admins render,
                      filterLogsWithEventRules al profile body addrs perms prov visCtx admins render,
                      filterReceiptLogsWithEventRules al profile body addrs perms prov visCtx admins render}"
  shows "answer_ok body out"
  using assms
proof (elim insertE emptyE)
  assume "Inr out = FilterTransactionByHash profile body addrs isAdmin inVis"
  from this [unfolded FilterTransactionByHash_def, symmetric] show ?thesis
    by (rule with_result_ok) (auto simp: Let_def rpcResponseFromParsed_def split: option.splits if_splits)
next
  assume "Inr out = FilterBlockTransactions profile body addrs full"
  from this [unfolded FilterBlockTransactions_def, symmetric] show ?thesis
    by (rule with_result_ok) (auto split: option.splits)
next
  assume "Inr out = FilterBlockTransactionCount body addrs"
  from this [unfolded FilterBlockTransactionCount_def, symmetric] show ?thesis
    by (rule with_result_ok) (auto simp: Let_def split: option.splits)
next
  assume "Inr out = FilterBlockReceipts al profile body addrs perms prov visCtx admins render"
  from this [unfolded FilterBlockReceipts_def, symmetric] show ?thesis
    by (rule with_result_ok) (auto simp: map_sum_Inr split: option.splits)
next
  assume "Inr out = filterLogsWithEventRules al profile body addrs perms prov visCtx admins render"
  from this [unfolded filterLogsWithEventRules_def, symmetric] show ?thesis
    by (rule with_result_ok) (auto simp: map_sum_Inr split: option.splits sum.splits)
next
  assume "Inr out = filterReceiptLogsWithEventRules al profile body addrs perms prov visCtx admins render"
  from this [unfolded filterReceiptLogsWithEventRules_def, symmetric] show ?thesis
    by (rule with_result_ok) (auto split: option.splits sum.splits)
qed

definition demo_block :: json where
  "demo_block =
     JObj [(''number'', JStr ''0x1''), (''gasUsed'', JStr ''0x5208''), (''transactions'',
       JArr [JObj [(''from'', JStr ''0xaa''), (''to'', JStr ''0xbb''), (''hash'', JStr ''0x01'')],
             JObj [(''from'', JStr ''0xcc''), (''to'', JStr ''0xdd''), (''hash'', JStr ''0x02'')]])]"

definition demo_block_body :: json where
  "demo_block_body = JObj [(''jsonrpc'', JStr ''2.0''), (''id'', JNum ''7''), (''trace'', JStr ''node-3''), (''result'', demo_block)]"

definition demo_block_out :: json where
  "demo_block_out =
     rpc_answer (Some (JNum ''7'')) ''result''
       (JObj [(''gasUsed'', JStr ''0x0''), (''number'', JStr ''0x1''), (''transactions'', JArr [JStr ''0x01''])])"

lemma demo_block_run: "FilterBlockTransactions ReadProfileStandard (Some demo_block_body) [''0xAA''] False = Inr demo_block_out"
  by code_simp

theorem response_envelope_closed_witness:
  "FilterBlockTransactions ReadProfileStandard (Some demo_block_body) [''0xAA''] False = Inr demo_block_out \<and>
   answer_ok (Some demo_block_body) demo_block_out"
  using response_envelope_closed [where profile = ReadProfileStandard and body = "Some demo_block_body" and addrs = "[''0xAA'']"
      and full = False and out = demo_block_out] demo_block_run by simp

section \<open>Blocks and counts\<close>

lemma map_of_marshal: "distinct (map fst m) \<Longrightarrow> map_of (sort_key fst m) k = map_of m k"
proof -
  assume d: "distinct (map fst m)"
  have "mset (map fst (sort_key fst m)) = mset (map fst m)" by simp
  then have "distinct (map fst (sort_key fst m))" using d by (metis mset_eq_imp_distinct_iff)
  then show ?thesis using d by (metis map_of_inject_set set_sort)
qed

lemma json_map_distinct: "json_map v = Some (Some m) \<Longrightarrow> distinct (map fst m)"
proof (cases v)
  case (JObj kvs)
  have "distinct (map fst acc) \<Longrightarrow> distinct (map fst (fold (\<lambda>(k, v). AList.update k v) kvs acc))" for acc :: "(string \<times> json) list"
    by (induction kvs arbitrary: acc) (auto simp: distinct_update split: prod.splits)
  then show "json_map v = Some (Some m) \<Longrightarrow> ?thesis" using JObj by auto
qed simp_all

lemma map_of_overwrite:
  "map_of (overwrite k v m) k' = (if k' = k \<and> map_of m k \<noteq> None then Some v else map_of m k')"
  by (auto simp: overwrite_def update_conv')

lemma distinct_overwrite [simp]: "distinct (map fst m) \<Longrightarrow> distinct (map fst (overwrite k v m))"
  by (simp add: overwrite_def distinct_update)

definition zeroed_block_fields :: "(string \<times> json) list" where
  "zeroed_block_fields =
     [(''logsBloom'', zeroLogsBloomJSON), (''gasUsed'', zeroGasUsedJSON), (''blobGasUsed'', zeroGasUsedJSON), (''size'', zeroSizeJSON)]"

definition zero_aggregates :: "(string \<times> json) list \<Rightarrow> (string \<times> json) list" where
  "zero_aggregates block =
     overwrite ''size'' zeroSizeJSON (overwrite ''blobGasUsed'' zeroGasUsedJSON
       (overwrite ''gasUsed'' zeroGasUsedJSON (overwrite ''logsBloom'' zeroLogsBloomJSON block)))"

lemma zero_aggregates_lookup:
  "map_of (zero_aggregates block) k =
     (case map_of block k of None \<Rightarrow> None | Some v \<Rightarrow> (case map_of zeroed_block_fields k of Some z \<Rightarrow> Some z | None \<Rightarrow> Some v))"
  by (auto simp: zero_aggregates_def map_of_overwrite zeroed_block_fields_def split: option.splits)

text \<open>The transactions array after the filter, from the upstream value.\<close>

definition kept_transactions :: "read_profile \<Rightarrow> string list \<Rightarrow> bool \<Rightarrow> json \<Rightarrow> json" where
  "kept_transactions profile addrs full txsRaw =
     (case json_array txsRaw of
        None \<Rightarrow> JArr []
      | Some [] \<Rightarrow> txsRaw
      | Some (JStr _ # _) \<Rightarrow> JArr []
      | Some txs \<Rightarrow> JArr (filter_block_txs profile addrs full txs))"

lemma filter_block_lookup:
  "map_of (filter_block profile addrs full block) k =
     (if k = ''transactions'' then map_option (kept_transactions profile addrs full) (map_of block k)
      else map_of (zero_aggregates block) k)"
proof -
  have fb: "filter_block profile addrs full block =
      (case map_of (zero_aggregates block) ''transactions'' of
         None \<Rightarrow> zero_aggregates block
       | Some txsRaw \<Rightarrow>
           (case json_array txsRaw of
              None \<Rightarrow> AList.update ''transactions'' (JArr []) (zero_aggregates block)
            | Some [] \<Rightarrow> zero_aggregates block
            | Some (first # rest) \<Rightarrow>
                (case first of
                   JStr _ \<Rightarrow> AList.update ''transactions'' (JArr []) (zero_aggregates block)
                 | _ \<Rightarrow> AList.update ''transactions'' (JArr (filter_block_txs profile addrs full (first # rest))) (zero_aggregates block))))"
    unfolding filter_block_def zero_aggregates_def Let_def by (rule refl)
  have tx: "map_of (zero_aggregates block) ''transactions'' = map_of block ''transactions''"
    by (simp add: zero_aggregates_lookup zeroed_block_fields_def split: option.splits)
  show ?thesis
  proof (cases "map_of block ''transactions''")
    case None
    then show ?thesis unfolding fb tx by (simp add: tx)
  next
    case (Some txsRaw)
    show ?thesis
    proof (cases "json_array txsRaw")
      case None
      then show ?thesis unfolding fb tx using Some by (simp add: kept_transactions_def update_conv' tx)
    next
      case arr: (Some txs)
      show ?thesis
      proof (cases txs)
        case Nil
        then show ?thesis unfolding fb tx using Some arr by (simp add: kept_transactions_def tx)
      next
        case (Cons first rest)
        then show ?thesis unfolding fb tx using Some arr
          by (cases first) (simp_all add: kept_transactions_def update_conv' tx)
      qed
    qed
  qed
qed

lemma filter_block_distinct: "distinct (map fst block) \<Longrightarrow> distinct (map fst (filter_block profile addrs full block))"
  by (auto simp: filter_block_def Let_def distinct_update split: option.splits list.splits json.splits)

lemma filter_block_txs_own:
  assumes "tx \<in> set (filter_block_txs profile addrs full txs)"
  shows "\<exists>raw r. raw \<in> set txs \<and> struct_strings [''from'', ''to'', ''hash''] raw = Some r \<and>
           isTxParticipant addrs (r ''from'') (r ''to'') \<and> tx = (if full then raw else JStr (r ''hash''))"
proof -
  from assms obtain raw r where raw: "raw \<in> set txs" "struct_strings [''from'', ''to'', ''hash''] raw = Some r"
    and dec: "DecideTxEnvelope profile (block_entry_facts (isTxParticipant addrs (r ''from'') (r ''to'')))"
    and tx: "tx = (if full then raw else JStr (r ''hash''))"
    unfolding filter_block_txs_def in_map_filter by (auto split: option.splits if_splits)
  from dec have "isTxParticipant addrs (r ''from'') (r ''to'')"
    by (simp add: DecideTxEnvelope_def block_entry_facts_def split: if_splits)
  with raw tx show ?thesis by blast
qed

text \<open>The upstream block of a response body.\<close>

definition upstream_block :: "json option \<Rightarrow> (string \<times> json) list option" where
  "upstream_block body =
     (case rpc_envelope_of body of
        None \<Rightarrow> None
      | Some resp \<Rightarrow> (case re_Result resp of None \<Rightarrow> None
                     | Some raw \<Rightarrow> (case json_map raw of Some (Some m) \<Rightarrow> Some m | _ \<Rightarrow> None)))"

lemma block_released:
  assumes "FilterBlockTransactions profile body addrs full = Inr out" "answer_result out = Some (JObj fs)"
  obtains block where "upstream_block body = Some block"
    "\<And>k. map_of fs k = map_of (filter_block profile addrs full block) k"
proof -
  obtain resp raw where resp: "rpc_envelope_of body = Some resp" "re_Result resp = Some raw"
    and k: "(case json_map raw of None \<Rightarrow> Inr (nullResult body) | Some None \<Rightarrow> Inr (rpc_answer (re_ID resp) ''result'' JNull)
       | Some (Some block) \<Rightarrow> Inr (rpc_answer (re_ID resp) ''result'' (marshal_map (filter_block profile addrs full block)))) = (Inr out :: json res)"
    using assms(1)[unfolded FilterBlockTransactions_def] assms(2)
    by (rule with_result_released) (use assms(2) in simp_all)
  from k assms(2) obtain block where block: "json_map raw = Some (Some block)"
    and fs: "fs = sort_key fst (filter_block profile addrs full block)"
    by (auto simp: marshal_map_def split: option.splits)
  have "map_of fs x = map_of (filter_block profile addrs full block) x" for x
    unfolding fs by (rule map_of_marshal [OF filter_block_distinct [OF json_map_distinct [OF block]]])
  then show ?thesis using that resp block by (simp add: upstream_block_def)
qed

text \<open>
  C21. A block that reaches the caller shows no activity but the caller's own. Its bloom filter, gas totals
  and size are the zero values, every listed transaction is one of the node's block in which the sender or
  the recipient is one of the caller's linked addresses (the whole object, or its hash if hashes were asked
  for), and every other field is the node's.
\<close>

theorem block_shows_own_activity:
  assumes "FilterBlockTransactions profile body addrs full = Inr out" "answer_result out = Some (JObj fs)"
  shows "\<exists>block. upstream_block body = Some block \<and>
      (\<forall>(k, z) \<in> set zeroed_block_fields. map_of fs k = None \<or> map_of fs k = Some z) \<and>
      (\<forall>txs. map_of fs ''transactions'' = Some (JArr txs) \<longrightarrow> (\<forall>tx \<in> set txs.
         \<exists>upstream raw r. map_of block ''transactions'' = Some (JArr upstream) \<and> raw \<in> set upstream \<and>
           struct_strings [''from'', ''to'', ''hash''] raw = Some r \<and>
           isTxParticipant addrs (r ''from'') (r ''to'') \<and> tx = (if full then raw else JStr (r ''hash'')))) \<and>
      (\<forall>k. k \<noteq> ''transactions'' \<longrightarrow> k \<notin> fst ` set zeroed_block_fields \<longrightarrow> map_of fs k = map_of block k)"
proof -
  obtain block where up: "upstream_block body = Some block"
    and look: "\<And>k. map_of fs k = map_of (filter_block profile addrs full block) k"
    using block_released [OF assms] by blast
  have zero: "map_of fs k = None \<or> map_of fs k = Some z" if "(k, z) \<in> set zeroed_block_fields" for k z
    using that unfolding look filter_block_lookup zero_aggregates_lookup
    by (auto simp: zeroed_block_fields_def split: option.splits)
  have own: "\<exists>upstream raw r. map_of block ''transactions'' = Some (JArr upstream) \<and> raw \<in> set upstream \<and>
             struct_strings [''from'', ''to'', ''hash''] raw = Some r \<and>
             isTxParticipant addrs (r ''from'') (r ''to'') \<and> tx = (if full then raw else JStr (r ''hash''))"
    if txs: "map_of fs ''transactions'' = Some (JArr txs)" and tx: "tx \<in> set txs" for txs tx
  proof -
    obtain v where v: "map_of block ''transactions'' = Some v" "JArr txs = kept_transactions profile addrs full v"
      using txs unfolding look filter_block_lookup by auto
    then obtain ups where ups: "v = JArr ups" "txs = filter_block_txs profile addrs full ups"
      using tx by (cases v) (auto simp: kept_transactions_def split: list.splits json.splits)
    from filter_block_txs_own [OF tx [unfolded ups(2)]] show ?thesis using v(1) ups(1) by blast
  qed
  have keep: "map_of fs k = map_of block k" if "k \<noteq> ''transactions''" "k \<notin> fst ` set zeroed_block_fields" for k
  proof -
    have "map_of zeroed_block_fields k = None" using that by (simp add: map_of_eq_None_iff)
    then show ?thesis using that unfolding look filter_block_lookup zero_aggregates_lookup by (auto split: option.splits)
  qed
  show ?thesis
  proof (intro exI [of _ block] conjI allI impI ballI)
    show "upstream_block body = Some block" by (rule up)
    show "case p of (k, z) \<Rightarrow> map_of fs k = None \<or> map_of fs k = Some z" if "p \<in> set zeroed_block_fields" for p
      using that zero by (cases p rule: prod.exhaust) simp
    show "\<exists>upstream raw r. map_of block ''transactions'' = Some (JArr upstream) \<and> raw \<in> set upstream \<and>
           struct_strings [''from'', ''to'', ''hash''] raw = Some r \<and>
           isTxParticipant addrs (r ''from'') (r ''to'') \<and> tx = (if full then raw else JStr (r ''hash''))"
      if "map_of fs ''transactions'' = Some (JArr txs)" "tx \<in> set txs" for txs tx
      by (rule own [OF that])
    show "map_of fs k = map_of block k" if "k \<noteq> ''transactions''" "k \<notin> fst ` set zeroed_block_fields" for k
      by (rule keep [OF that])
  qed
qed

theorem block_shows_own_activity_witness:
  "answer_result demo_block_out =
     Some (JObj [(''gasUsed'', JStr ''0x0''), (''number'', JStr ''0x1''), (''transactions'', JArr [JStr ''0x01''])]) \<and>
   (\<exists>raw r. struct_strings [''from'', ''to'', ''hash''] raw = Some r \<and>
      isTxParticipant [''0xAA''] (r ''from'') (r ''to'') \<and> r ''hash'' = ''0x01'')"
proof -
  let ?fs = "[(''gasUsed'', JStr ''0x0''), (''number'', JStr ''0x1''), (''transactions'', JArr [JStr ''0x01''])]"
  have res: "answer_result demo_block_out = Some (JObj ?fs)" by (simp add: demo_block_out_def)
  from block_shows_own_activity [OF demo_block_run res]
  have "\<exists>raw r. struct_strings [''from'', ''to'', ''hash''] raw = Some r \<and>
      isTxParticipant [''0xAA''] (r ''from'') (r ''to'') \<and> JStr ''0x01'' = (if False then raw else JStr (r ''hash''))"
    by force
  with res show ?thesis by (metis json.inject(3))
qed

text \<open>Decoding fewer members of the same object agrees on the shared ones.\<close>

lemma fold_bind_None: "fold (\<lambda>kv acc. case acc of None \<Rightarrow> None | Some v \<Rightarrow> upd kv v) kvs None = None"
  by (induction kvs) simp_all

lemma tx_fields_step:
  assumes "(case struct_field [''from'', ''to'', ''hash''] k of None \<Rightarrow> Some r
            | Some f \<Rightarrow> map_option (\<lambda>s. r(f := s)) (json_string (r f) v)) = Some r'"
    and "q ''from'' = r ''from''" "q ''to'' = r ''to''"
  shows "\<exists>q'. (case struct_field [''from'', ''to''] k of None \<Rightarrow> Some q
            | Some f \<Rightarrow> map_option (\<lambda>s. q(f := s)) (json_string (q f) v)) = Some q' \<and>
           q' ''from'' = r' ''from'' \<and> q' ''to'' = r' ''to''"
proof -
  consider "struct_field [''from'', ''to'', ''hash''] k = Some ''from''" "struct_field [''from'', ''to''] k = Some ''from''"
    | "struct_field [''from'', ''to'', ''hash''] k = Some ''to''" "struct_field [''from'', ''to''] k = Some ''to''"
    | "struct_field [''from'', ''to'', ''hash''] k = Some ''hash''" "struct_field [''from'', ''to''] k = None"
    | "struct_field [''from'', ''to'', ''hash''] k = None" "struct_field [''from'', ''to''] k = None"
  proof -
    have ex: "\<not> equal_fold ''from'' ''hash''" "\<not> equal_fold ''to'' ''hash''" by code_simp+
    show thesis
      by (cases "k = ''from''"; cases "k = ''to''"; cases "k = ''hash''"; cases "equal_fold ''from'' k"; cases "equal_fold ''to'' k";
          cases "equal_fold ''hash'' k") (use that ex in \<open>simp_all add: struct_field_def\<close>)
  qed
  then show ?thesis using assms by cases auto
qed

lemma tx_fields_agree:
  assumes "struct_strings [''from'', ''to'', ''hash''] v = Some r"
  shows "\<exists>q. struct_strings [''from'', ''to''] v = Some q \<and> q ''from'' = r ''from'' \<and> q ''to'' = r ''to''"
proof (cases v)
  case (JObj kvs)
  let ?u = "\<lambda>names kv r. case struct_field names (fst kv) of None \<Rightarrow> Some r
              | Some f \<Rightarrow> map_option (\<lambda>s. r(f := s)) (json_string (r f) (snd kv))"
  have "fold (\<lambda>kv acc. case acc of None \<Rightarrow> None | Some v \<Rightarrow> ?u [''from'', ''to'', ''hash''] kv v) kvs (Some r0) = Some r \<Longrightarrow>
        q0 ''from'' = r0 ''from'' \<Longrightarrow> q0 ''to'' = r0 ''to'' \<Longrightarrow>
        \<exists>q. fold (\<lambda>kv acc. case acc of None \<Rightarrow> None | Some v \<Rightarrow> ?u [''from'', ''to''] kv v) kvs (Some q0) = Some q \<and>
            q ''from'' = r ''from'' \<and> q ''to'' = r ''to''" for r0 q0
  proof (induction kvs arbitrary: r0 q0)
    case (Cons kv kvs)
    from Cons.prems(1) obtain r1 where r1: "?u [''from'', ''to'', ''hash''] kv r0 = Some r1"
      "fold (\<lambda>kv acc. case acc of None \<Rightarrow> None | Some v \<Rightarrow> ?u [''from'', ''to'', ''hash''] kv v) kvs (Some r1) = Some r"
      by (cases "?u [''from'', ''to'', ''hash''] kv r0") (simp_all add: fold_bind_None)
    from tx_fields_step [OF r1(1) Cons.prems(2,3)] obtain q1 where "?u [''from'', ''to''] kv q0 = Some q1"
      "q1 ''from'' = r1 ''from''" "q1 ''to'' = r1 ''to''" by blast
    with Cons.IH [OF r1(2)] show ?case by simp
  qed auto
  from this [of "\<lambda>_. ''''" "\<lambda>_. ''''"] assms JObj show ?thesis by (simp add: struct_strings_def)
qed (use assms in \<open>auto simp: struct_strings_def\<close>)

lemma count_entry:
  assumes "struct_strings [''from'', ''to'', ''hash''] tx \<noteq> None" "'''' \<notin> to_lower ` set addrs"
  shows "(case struct_strings [''from'', ''to''] tx of None \<Rightarrow> False
          | Some q \<Rightarrow> to_lower (q ''from'') \<in> set (addrSetFromLinked addrs) \<or>
                      to_lower (q ''to'') \<noteq> '''' \<and> to_lower (q ''to'') \<in> set (addrSetFromLinked addrs)) \<longleftrightarrow>
         (case struct_strings [''from'', ''to'', ''hash''] tx of None \<Rightarrow> False
          | Some r \<Rightarrow> isTxParticipant addrs (r ''from'') (r ''to''))"
proof -
  obtain r where r: "struct_strings [''from'', ''to'', ''hash''] tx = Some r" using assms(1) by blast
  obtain q where q: "struct_strings [''from'', ''to''] tx = Some q" "q ''from'' = r ''from''" "q ''to'' = r ''to''"
    using tx_fields_agree [OF r] by blast
  show ?thesis using assms(2) r q
    by (auto simp: isTxParticipant_def addrSetFromLinked_def Let_def image_iff)
qed

lemma filter_block_txs_length:
  "length (filter_block_txs profile addrs full txs) =
     length (filter (\<lambda>tx. case struct_strings [''from'', ''to'', ''hash''] tx of None \<Rightarrow> False
                          | Some r \<Rightarrow> isTxParticipant addrs (r ''from'') (r ''to'')) txs)"
proof (induction txs)
  case (Cons tx txs)
  have "DecideTxEnvelope profile (block_entry_facts b) = b" for b
    by (simp add: DecideTxEnvelope_def block_entry_facts_def)
  with Cons show ?case by (simp add: filter_block_txs_def List.map_filter_simps split: option.splits)
qed (simp add: filter_block_txs_def List.map_filter_simps)

text \<open>
  The two views of a block agree: for a block of transaction objects the count the caller is given is the
  number of transactions the caller would be listed, whichever form of the list is asked for and whatever the
  read profile.
\<close>

theorem count_matches_listing:
  assumes "rpc_envelope_of body = Some resp" "re_Error resp = None" "re_Result resp = Some raw"
    and "json_map raw = Some (Some block)" "map_of block ''transactions'' = Some (JArr txs)"
    and "list_all (\<lambda>tx. struct_strings [''from'', ''to'', ''hash''] tx \<noteq> None) txs"
    and "'''' \<notin> to_lower ` set addrs"
  shows "\<exists>fs kept. FilterBlockTransactions profile body addrs full = Inr (rpc_answer (re_ID resp) ''result'' (JObj fs)) \<and>
           map_of fs ''transactions'' = Some (JArr kept) \<and>
           FilterBlockTransactionCount body addrs =
             Inr (rpc_answer (re_ID resp) ''result'' (JStr (''0x'' @ fmt_x (length kept))))"
proof -
  have raw: "raw \<noteq> JNull" using assms(4) by auto
  let ?fs = "sort_key fst (filter_block profile addrs full block)"
  have list: "FilterBlockTransactions profile body addrs full = Inr (rpc_answer (re_ID resp) ''result'' (JObj ?fs))"
    using assms(1-4) raw by (simp add: FilterBlockTransactions_def with_result_def marshal_map_def)
  have obj: "struct_strings [''from'', ''to'', ''hash''] (JStr s) = None" for s by (simp add: struct_strings_def)
  have "kept_transactions profile addrs full (JArr txs) = JArr (filter_block_txs profile addrs full txs)"
    using assms(6) obj
    by (auto simp: kept_transactions_def filter_block_txs_def List.map_filter_simps split: list.splits json.splits)
  then have kept: "map_of ?fs ''transactions'' = Some (JArr (filter_block_txs profile addrs full txs))"
    using assms(5) by (simp add: map_of_marshal filter_block_distinct json_map_distinct [OF assms(4)] filter_block_lookup)
  have "filter (\<lambda>tx. case struct_strings [''from'', ''to''] tx of None \<Rightarrow> False
          | Some q \<Rightarrow> to_lower (q ''from'') \<in> set (addrSetFromLinked addrs) \<or>
                      to_lower (q ''to'') \<noteq> '''' \<and> to_lower (q ''to'') \<in> set (addrSetFromLinked addrs)) txs =
        filter (\<lambda>tx. case struct_strings [''from'', ''to'', ''hash''] tx of None \<Rightarrow> False
          | Some r \<Rightarrow> isTxParticipant addrs (r ''from'') (r ''to'')) txs"
    using assms(6,7) by (intro filter_cong refl count_entry) (auto simp: list_all_iff)
  then have "FilterBlockTransactionCount body addrs =
      Inr (rpc_answer (re_ID resp) ''result'' (JStr (''0x'' @ fmt_x (length (filter_block_txs profile addrs full txs)))))"
    using assms(1-5) raw by (simp add: FilterBlockTransactionCount_def with_result_def Let_def filter_block_txs_length)
  with list kept show ?thesis by blast
qed

theorem count_matches_listing_witness:
  "\<exists>fs kept. FilterBlockTransactions ReadProfileStandard (Some demo_block_body) [''0xAA''] True =
       Inr (rpc_answer (Some (JNum ''7'')) ''result'' (JObj fs)) \<and>
     map_of fs ''transactions'' = Some (JArr kept) \<and> length kept = 1 \<and>
     FilterBlockTransactionCount (Some demo_block_body) [''0xAA''] =
       Inr (rpc_answer (Some (JNum ''7'')) ''result'' (JStr (''0x'' @ fmt_x 1)))"
proof -
  have env: "rpc_envelope_of (Some demo_block_body) = Some \<lparr>re_ID = Some (JNum ''7''), re_Result = Some demo_block, re_Error = None\<rparr>"
    by code_simp
  define txs where "txs = [JObj [(''from'', JStr ''0xaa''), (''to'', JStr ''0xbb''), (''hash'', JStr ''0x01'')],
             JObj [(''from'', JStr ''0xcc''), (''to'', JStr ''0xdd''), (''hash'', JStr ''0x02'')]]"
  define block where "block = [(''number'', JStr ''0x1''), (''gasUsed'', JStr ''0x5208''), (''transactions'', JArr txs)]"
  have jm: "json_map demo_block = Some (Some block)" unfolding demo_block_def block_def txs_def by simp
  have tx: "map_of block ''transactions'' = Some (JArr txs)" by (simp add: block_def)
  have dec: "list_all (\<lambda>tx. case struct_strings [''from'', ''to'', ''hash''] tx of None \<Rightarrow> False | Some _ \<Rightarrow> True) txs"
    unfolding txs_def by code_simp
  have all: "list_all (\<lambda>tx. struct_strings [''from'', ''to'', ''hash''] tx \<noteq> None) txs"
    using dec by (auto simp: list_all_iff split: option.splits)
  have ne: "'''' \<notin> to_lower ` set [''0xAA'']" by code_simp
  from count_matches_listing [OF env _ _ jm tx all ne, where full = True and profile = ReadProfileStandard]
  obtain fs kept where 1: "FilterBlockTransactions ReadProfileStandard (Some demo_block_body) [''0xAA''] True =
       Inr (rpc_answer (Some (JNum ''7'')) ''result'' (JObj fs))" "map_of fs ''transactions'' = Some (JArr kept)"
     "FilterBlockTransactionCount (Some demo_block_body) [''0xAA''] =
       Inr (rpc_answer (Some (JNum ''7'')) ''result'' (JStr (''0x'' @ fmt_x (length kept))))" by auto
  have "FilterBlockTransactions ReadProfileStandard (Some demo_block_body) [''0xAA''] True =
     Inr (rpc_answer (Some (JNum ''7'')) ''result''
       (JObj [(''gasUsed'', JStr ''0x0''), (''number'', JStr ''0x1''), (''transactions'',
         JArr [JObj [(''from'', JStr ''0xaa''), (''to'', JStr ''0xbb''), (''hash'', JStr ''0x01'')]])]))"
    by code_simp
  with 1 have "length kept = 1" by (auto simp: rpc_answer_def)
  with 1 show ?thesis by auto
qed

section \<open>Transactions and receipts\<close>

text \<open>
  A transaction object reaches the caller only unchanged and only on one of the documented grounds: the
  sender or the recipient is one of the caller's linked addresses, or, under the standard read profile alone,
  the caller administers the recipient contract or the transaction was shared with the caller.
\<close>

theorem transaction_release_grounds:
  assumes "FilterTransactionByHash profile body addrs isAdminOnTo inVisibleTo = Inr out"
    and "answer_result out = Some v" "v \<noteq> JNull"
  shows "\<exists>resp tx. rpc_envelope_of body = Some resp \<and> re_Result resp = Some v \<and> re_Error resp = None \<and>
           struct_strings [''from'', ''to''] v = Some tx \<and>
           (isTxParticipant addrs (tx ''from'') (tx ''to'') \<or> \<not> Strict profile \<and> (isAdminOnTo \<or> inVisibleTo = Some True))"
proof -
  have closed: "answer_result (nullResult body) \<noteq> Some v" using assms(3) by simp
  obtain resp raw where resp: "rpc_envelope_of body = Some resp" "re_Result resp = Some raw" "re_Error resp = None"
    and k: "(case struct_strings [''from'', ''to''] raw of
         None \<Rightarrow> Inr (nullResult body)
       | Some tx \<Rightarrow>
           let isParticipant = isTxParticipant addrs (tx ''from'') (tx ''to'');
               facts = \<lparr>tef_Surface = TxSurfaceTransaction, tef_IsParticipant = isParticipant, tef_IsAdminOnTo = isAdminOnTo,
                        tef_InVisibleTo = (\<not> isParticipant \<and> \<not> isAdminOnTo \<and> \<not> Strict profile \<and> inVisibleTo = Some True),
                        tef_EntitledLogs = 0, tef_IsDeployment = False\<rparr>
           in if DecideTxEnvelope profile facts then Inr (rpcResponseFromParsed (re_ID resp) (Some raw) None)
              else Inr (nullResult body)) = (Inr out :: json res)"
    using assms(1)[unfolded FilterTransactionByHash_def] assms(2,3) closed by (rule with_result_released)
  obtain tx where tx: "struct_strings [''from'', ''to''] raw = Some tx"
    using k assms(2,3) by (cases "struct_strings [''from'', ''to''] raw") auto
  have "v = raw" and "isTxParticipant addrs (tx ''from'') (tx ''to'') \<or> \<not> Strict profile \<and> (isAdminOnTo \<or> inVisibleTo = Some True)"
    using k assms(2,3) unfolding tx by (auto simp: Let_def DecideTxEnvelope_def rpcResponseFromParsed_def split: if_splits)
  with resp tx show ?thesis by blast
qed

definition demo_tx :: json where
  "demo_tx = JObj [(''from'', JStr ''0xaa''), (''to'', JStr ''0xbb''), (''hash'', JStr ''0x01'')]"

theorem transaction_release_grounds_witness:
  "FilterTransactionByHash ReadProfileStrict (Some (JObj [(''id'', JNum ''1''), (''result'', demo_tx)])) [''0xBB''] False None =
     Inr (rpc_answer (Some (JNum ''1'')) ''result'' demo_tx) \<and>
   (\<exists>tx. struct_strings [''from'', ''to''] demo_tx = Some tx \<and> isTxParticipant [''0xBB''] (tx ''from'') (tx ''to''))"
proof
  show run: "FilterTransactionByHash ReadProfileStrict (Some (JObj [(''id'', JNum ''1''), (''result'', demo_tx)])) [''0xBB''] False None =
     Inr (rpc_answer (Some (JNum ''1'')) ''result'' demo_tx)" by code_simp
  have "Strict ReadProfileStrict" by code_simp
  moreover have "demo_tx \<noteq> JNull" by (simp add: demo_tx_def)
  ultimately show "\<exists>tx. struct_strings [''from'', ''to''] demo_tx = Some tx \<and> isTxParticipant [''0xBB''] (tx ''from'') (tx ''to'')"
    using transaction_release_grounds [OF run answer_result_simps(1)] by auto
qed

lemma TxSurfaceTransaction_ne: "TxSurfaceTransaction \<noteq> TxSurfaceBlockEntry"
  by code_simp

text \<open>The facts of one receipt, as the decision reads them.\<close>

definition receipt_entitled ::
  "abi_lib \<Rightarrow> read_profile \<Rightarrow> json \<Rightarrow> string list \<Rightarrow> effective_permissions option \<Rightarrow> abi_provider option
     \<Rightarrow> tx_visibility_context option \<Rightarrow> (string \<times> bool) list \<Rightarrow> bool" where
  "receipt_entitled al profile raw addrs perms prov visCtx admins =
     (case json_map raw of
        Some (Some m) \<Rightarrow>
          (case map_of m ''logs'' of
             None \<Rightarrow> False
           | Some logs \<Rightarrow>
               (case json_array logs of
                  None \<Rightarrow> False
                | Some arr \<Rightarrow>
                    (case FilterEventLogsDetailed al profile arr perms addrs prov visCtx admins of
                       Inl _ \<Rightarrow> False | Inr admitted \<Rightarrow> admitted \<noteq> [])))
      | _ \<Rightarrow> False)"

text \<open>The logs of an admitted receipt: none but the rendered ones, and no bloom filter to probe.\<close>

definition receipt_logs_filtered ::
  "abi_lib \<Rightarrow> read_profile \<Rightarrow> json \<Rightarrow> string list \<Rightarrow> effective_permissions option \<Rightarrow> abi_provider option
     \<Rightarrow> tx_visibility_context option \<Rightarrow> (string \<times> bool) list \<Rightarrow> admitted_log_renderer option \<Rightarrow> json \<Rightarrow> bool" where
  "receipt_logs_filtered al profile raw addrs perms prov visCtx admins render result =
     (result = JNull \<or> result = raw \<and> (\<forall>m. json_map raw = Some (Some m) \<longrightarrow> map_of m ''logs'' = None) \<or>
      (\<exists>fs ls. result = JObj fs \<and> map_of fs ''logsBloom'' = Some zeroLogsBloomJSON \<and> map_of fs ''logs'' = Some (JArr ls) \<and>
         (ls = [] \<or> (\<exists>m v arr admitted. json_map raw = Some (Some m) \<and> map_of m ''logs'' = Some v \<and> json_array v = Some arr \<and>
            FilterEventLogsDetailed al profile arr perms addrs prov visCtx admins = Inr admitted \<and>
            renderer render admitted = Inr ls))))"

lemma marshal_receipt:
  assumes "json_map raw = Some (Some m)"
  shows "map_of (sort_key fst (AList.update ''logsBloom'' b (AList.update ''logs'' v m))) ''logsBloom'' = Some b"
    "map_of (sort_key fst (AList.update ''logsBloom'' b (AList.update ''logs'' v m))) ''logs'' = Some v"
  by (simp_all add: map_of_marshal distinct_update json_map_distinct [OF assms] update_conv')

lemma receiptWithEmptyLogs_ok:
  "receiptWithEmptyLogs raw = Inr result \<Longrightarrow> receipt_logs_filtered al profile raw addrs perms prov visCtx admins render result"
  by (auto simp: receiptWithEmptyLogs_def receipt_logs_filtered_def marshal_map_def marshal_receipt split: option.splits)

lemma applyEventRulesToReceipt_ok:
  assumes "applyEventRulesToReceipt al profile raw perms addrs prov visCtx admins render = Inr (result, n)"
  shows "receipt_logs_filtered al profile raw addrs perms prov visCtx admins render result"
    and "0 < n \<Longrightarrow> receipt_entitled al profile raw addrs perms prov visCtx admins"
proof -
  consider (none) "json_map raw = None" | (nil) "json_map raw = Some None" | (map) m where "json_map raw = Some (Some m)"
    by (cases "json_map raw") auto
  then have "receipt_logs_filtered al profile raw addrs perms prov visCtx admins render result \<and>
             (0 < n \<longrightarrow> receipt_entitled al profile raw addrs perms prov visCtx admins)"
  proof cases
    case none
    then show ?thesis using assms
      by (auto simp: applyEventRulesToReceipt_def map_sum_Inr intro: receiptWithEmptyLogs_ok)
  next
    case nil
    then show ?thesis using assms by (auto simp: applyEventRulesToReceipt_def receipt_logs_filtered_def)
  next
    case (map m)
    consider (nolog) "map_of m ''logs'' = None" | (bad) v where "map_of m ''logs'' = Some v" "json_array v = None"
      | (arr) v arr where "map_of m ''logs'' = Some v" "json_array v = Some arr"
      by (cases "map_of m ''logs''") auto
    then show ?thesis
    proof cases
      case nolog
      then show ?thesis using assms map by (auto simp: applyEventRulesToReceipt_def receipt_logs_filtered_def)
    next
      case bad
      then show ?thesis using assms map
        by (auto simp: applyEventRulesToReceipt_def map_sum_Inr intro: receiptWithEmptyLogs_ok)
    next
      case arr
      from assms map arr obtain admitted rendered
        where adm: "FilterEventLogsDetailed al profile arr perms addrs prov visCtx admins = Inr admitted"
          "renderer render admitted = Inr rendered" "n = int (length admitted)"
          "result = marshal_map (AList.update ''logsBloom'' zeroLogsBloomJSON (AList.update ''logs'' (JArr rendered) m))"
        by (auto simp: applyEventRulesToReceipt_def map_sum_Inr split: sum.splits)
      have "0 < n \<longrightarrow> receipt_entitled al profile raw addrs perms prov visCtx admins"
        using map arr adm by (auto simp: receipt_entitled_def)
      moreover have "receipt_logs_filtered al profile raw addrs perms prov visCtx admins render result"
        using adm map arr marshal_receipt [OF map] by (auto simp: receipt_logs_filtered_def marshal_map_def)
      ultimately show ?thesis by blast
    qed
  qed
  then show "receipt_logs_filtered al profile raw addrs perms prov visCtx admins render result"
    and "0 < n \<Longrightarrow> receipt_entitled al profile raw addrs perms prov visCtx admins" by blast+
qed


definition demo_receipt :: json where
  "demo_receipt = JObj [(''from'', JStr ''0xaa''), (''to'', JStr ''0xbb''), (''transactionHash'', JStr ''0x01''), (''logs'', JArr [])]"


section \<open>Rendered logs\<close>

text \<open>The shape of a masked log: the log's own fields, with topics and data replaced.\<close>

definition masked_as :: "abi_lib \<Rightarrow> abi_provider \<Rightarrow> visibility_map \<Rightarrow> json \<Rightarrow> json \<Rightarrow> bool" where
  "masked_as al p vis raw l \<longleftrightarrow>
     (\<exists>pl fs ts d. parse_admitted p raw = Some pl \<and> pl_fields pl = Some fs \<and>
        RedactLogAddressFields al (map Some (pl_topics pl)) (pl_data pl) (pl_abi pl) (pl_topic0 pl) vis = (ts, d) \<and>
        l = marshal_map (AList.update ''data'' (JStr d)
              (AList.update ''topics'' (JArr (map (\<lambda>t. JStr (case t of None \<Rightarrow> '''' | Some s \<Rightarrow> s)) ts)) fs)))"

definition rendered_as :: "abi_lib \<Rightarrow> abi_provider \<Rightarrow> visibility_map \<Rightarrow> json \<Rightarrow> admitted_log \<Rightarrow> bool" where
  "rendered_as al p vis l a = (if al_Payload a = LogPayloadFull then l = al_Raw a else masked_as al p vis (al_Raw a) l)"

lemma render_logs_spec:
  assumes "render_logs al p vis admitted = Inr out" "l \<in> set out"
  shows "\<exists>a \<in> set admitted. rendered_as al p vis l a"
  using assms
proof (induction admitted arbitrary: out)
  case (Cons a admitted)
  show ?case
  proof (cases "al_Payload a = LogPayloadFull")
    case True
    then obtain rest where "render_logs al p vis admitted = Inr rest" "out = al_Raw a # rest"
      using Cons.prems(1) by (auto simp: map_sum_Inr)
    then show ?thesis using Cons.IH Cons.prems(2) True by (auto simp: rendered_as_def [of _ _ _ _ a])
  next
    case False
    show ?thesis
    proof (cases "parse_admitted p (al_Raw a)")
      case None
      then show ?thesis using Cons False by auto
    next
      case (Some pl)
      obtain ts d where red: "RedactLogAddressFields al (map Some (pl_topics pl)) (pl_data pl) (pl_abi pl) (pl_topic0 pl) vis = (ts, d)"
        by fastforce
      obtain fs where fs: "pl_fields pl = Some fs" using Cons.prems(1) False Some by (cases "pl_fields pl") auto
      obtain rest where rest: "render_logs al p vis admitted = Inr rest"
        and out: "out = marshal_map (AList.update ''data'' (JStr d)
              (AList.update ''topics'' (JArr (map (\<lambda>t. JStr (case t of None \<Rightarrow> '''' | Some s \<Rightarrow> s)) ts)) fs)) # rest"
        using Cons.prems(1) False Some fs red by (auto simp: map_sum_Inr Let_def)
      show ?thesis
      proof (cases "l \<in> set rest")
        case True
        then show ?thesis using Cons.IH [OF rest] by auto
      next
        case new: False
        then have "masked_as al p vis (al_Raw a) l" using Cons.prems(2) Some fs red unfolding out masked_as_def by auto
        then show ?thesis using False by (auto simp: rendered_as_def)
      qed
    qed
  qed
qed simp

lemma full_payload_unlocked:
  assumes "FilterEventLogsDetailed al profile logs perms own prov vis admins = Inr out" "l \<in> set out"
    "al_Payload l = LogPayloadFull"
  shows "\<not> Strict profile \<and> (\<exists>entry. log_entry_of_json (al_Raw l) = Some entry \<and>
           unlocked_for vis (al_Raw l) (to_lower (le_Address entry)))"
  using assms(1,2)
proof (rule admitted_verdict)
  fix p entry facts
  assume entry: "log_entry_of_json (al_Raw l) = Some entry"
    and facts: "fst (log_facts al profile p (map to_lower own) prov vis admins (first_matcher profile) (al_Raw l) entry) = Inr facts"
    and adm: "ld_Admit (DecideLogEmitter profile facts)" "al_Payload l = ld_Payload (DecideLogEmitter profile facts)"
  have "\<not> Strict profile \<and> lef_Unlocked facts"
    using adm assms(3)
    by (auto simp: DecideLogEmitter_def decideLogEmitterStrict_def admitMasked_def drop_log_def split: if_splits log_event_rule_mode.splits)
  then show ?thesis using log_facts_fields(2) [OF facts] entry by blast
qed

lemma vis_level_resolved:
  assumes "vis_level (resolved_vis_map resolver did addrs) a = VisibilityFull"
  shows "\<exists>detailed a' v. resolver did addrs = Inr detailed \<and> (a', v) \<in> set detailed \<and> to_lower a' = a \<and> av_Level v = VisibilityFull"
proof -
  have fold: "map_of (fold (\<lambda>(a, v). AList.update (to_lower a) (av_Level v)) detailed m) a = Some l \<Longrightarrow>
      map_of m a = Some l \<or> (\<exists>a' v. (a', v) \<in> set detailed \<and> to_lower a' = a \<and> av_Level v = l)"
    for detailed :: "(string \<times> address_visibility) list" and m l
  proof (induction detailed arbitrary: m)
    case (Cons x xs)
    obtain k v where x: "x = (k, v)" by (cases x)
    from Cons.IH [of "AList.update (to_lower k) (av_Level v) m"] Cons.prems show ?case
      by (auto simp: x update_conv' split: if_splits)
  qed simp
  have "VisibilityFull \<noteq> ''''" by (simp add: VisibilityFull_def)
  with assms obtain detailed where d: "resolver did addrs = Inr detailed"
    "map_of (fold (\<lambda>(a, v). AList.update (to_lower a) (av_Level v)) detailed []) a = Some VisibilityFull"
    by (auto simp: vis_level_def resolved_vis_map_def split: option.splits if_splits sum.splits)
  from fold [OF d(2)] d(1) show ?thesis by auto
qed

text \<open>The visibility database marks the address as fully visible to the viewer, in one lookup of \<^verbatim>\<open>addrs\<close>.\<close>

definition viewer_sees :: "visibility_resolver \<Rightarrow> string \<Rightarrow> string list \<Rightarrow> string \<Rightarrow> bool" where
  "viewer_sees resolver did addrs a \<longleftrightarrow>
     (\<exists>detailed a' v. resolver did addrs = Inr detailed \<and> (a', v) \<in> set detailed \<and> to_lower a' = a \<and> av_Level v = VisibilityFull)"

text \<open>What a log of an answer discloses of an admitted log.\<close>

definition log_disclosed ::
  "abi_lib \<Rightarrow> read_profile \<Rightarrow> abi_provider \<Rightarrow> tx_visibility_context option \<Rightarrow> (string \<Rightarrow> bool) \<Rightarrow> admitted_log \<Rightarrow> json \<Rightarrow> bool" where
  "log_disclosed al profile p visCtx sees a l =
     (if al_Payload a = LogPayloadFull
            then l = al_Raw a \<and> \<not> Strict profile \<and>
                 (\<exists>entry. log_entry_of_json (al_Raw a) = Some entry \<and> unlocked_for visCtx (al_Raw a) (to_lower (le_Address entry)))
            else \<exists>pl fs ts d. parse_admitted p (al_Raw a) = Some pl \<and> pl_fields pl = Some fs \<and>
                   l = marshal_map (AList.update ''data'' (JStr d)
                         (AList.update ''topics'' (JArr (map (\<lambda>t. JStr (case t of None \<Rightarrow> '''' | Some s \<Rightarrow> s)) ts)) fs)) \<and>
                   (\<forall>x \<in> set (ExtractLogAddresses al ts d (pl_abi pl) (pl_topic0 pl)).
                      sees x
                      \<or> x = ''0x'' @ replicate 40 CHR ''0'' \<or> x = to_lower (al_Hex al (replicate 20 0))))"


definition demo_vis_resolver :: visibility_resolver where
  "demo_vis_resolver = (\<lambda>did addrs. Inr (map (\<lambda>a. (a, \<lparr>av_Address = a, av_Visible = (a = demo_own),
     av_Level = (if a = demo_own then VisibilityFull else VisibilityHidden), av_Reason = ''''\<rparr>)) addrs))"

definition demo_logs_out :: json where
  "demo_logs_out =
     rpc_answer (Some (JNum ''1'')) ''result''
       (JArr [JObj [(''address'', JStr ''0xABC''), (''data'', JStr ''0x''),
                    (''topics'', JArr [JStr ''0x01'', JStr (''0x'' @ replicate 24 CHR ''0'' @ drop 2 demo_own)]),
                    (''transactionHash'', JStr ''0xF'')]])"


section \<open>Where the filter inputs come from\<close>

text \<open>The controller states that permission reads for one user lead to.\<close>

inductive permission_reads :: "env \<Rightarrow> string \<Rightarrow> access_controller \<Rightarrow> access_controller \<Rightarrow> bool" for en userID where
  reads_none: "permission_reads en userID c c"
| reads_one: "permission_reads en userID c c1 \<Longrightarrow> GetEffectivePermissionsByIDs en c1 userID orgID = (r, c2) \<Longrightarrow>
    permission_reads en userID c c2"

text \<open>The permissions read for an organization in one of those states.\<close>

definition org_permissions :: "env \<Rightarrow> string \<Rightarrow> access_controller \<Rightarrow> string \<Rightarrow> effective_permissions \<Rightarrow> bool" where
  "org_permissions en userID c orgID p \<longleftrightarrow>
     (\<exists>c1. permission_reads en userID c c1 \<and> fst (GetEffectivePermissionsByIDs en c1 userID orgID) = Inr p)"

text \<open>The organizations that count for the viewer: the memberships, narrowed by an impersonation scope.\<close>

definition viewer_orgs :: "env \<Rightarrow> string \<Rightarrow> string list" where
  "viewer_orgs en userID =
     (case GetUserOrgIDs (en_store en) userID of Inl _ \<Rightarrow> [] | Inr ids \<Rightarrow> restrictToViewerOrgScope (en_viewscope en) ids)"

lemma viewer_orgs_scope:
  "en_viewscope en = Some scope \<Longrightarrow> org \<in> set (viewer_orgs en userID) \<Longrightarrow> org = scope \<and> scope \<noteq> ''''"
  by (auto simp: viewer_orgs_def restrictToViewerOrgScope_def list_ex_iff split: sum.splits if_splits)

lemma merge_access_sources:
  assumes "map_of (ep_ContractAccess (merge_access m p)) a = Some ca"
  shows "(\<exists>q. m = Some q \<and> map_of (ep_ContractAccess q) a = Some ca) \<or> (a, ca) \<in> set (ep_ContractAccess p)"
proof -
  have "map_of (fold (\<lambda>(addr, ca) acc. if map_of acc addr = None then AList.update addr ca acc else acc) xs acc) a = Some ca \<Longrightarrow>
      map_of acc a = Some ca \<or> (a, ca) \<in> set xs" for xs :: "(string \<times> contract_access) list" and acc
  proof (induction xs arbitrary: acc)
    case (Cons x xs)
    obtain b cb where x: "x = (b, cb)" by (cases x)
    let ?acc = "if map_of acc b = None then AList.update b cb acc else acc"
    from Cons.IH [of ?acc] Cons.prems have "map_of ?acc a = Some ca \<or> (a, ca) \<in> set xs" by (simp add: x)
    then show ?case by (cases "map_of acc b"; cases "a = b") (auto simp: x update_conv')
  qed simp
  then show ?thesis using assms by (cases m) (auto simp: merge_access_def dest: map_of_SomeD)
qed

lemma permission_reads_trans:
  "permission_reads en uid c c1 \<Longrightarrow> permission_reads en uid c1 c2 \<Longrightarrow> permission_reads en uid c c2"
  by (rotate_tac, induction rule: permission_reads.induct) (auto intro: permission_reads.intros)

lemma merge_orgs_sources:
  assumes "merge_orgs en uid orgs c1 merged = (Some p, c')" "permission_reads en uid c c1"
    and "map_of (ep_ContractAccess p) a = Some ca"
  shows "(\<exists>m. merged = Some m \<and> map_of (ep_ContractAccess m) a = Some ca) \<or>
         (\<exists>org \<in> set orgs. \<exists>q. org_permissions en uid c org q \<and> (a, ca) \<in> set (ep_ContractAccess q))"
  using assms(1,2)
proof (induction orgs arbitrary: c1 merged)
  case Nil
  then show ?case using assms(3) by simp
next
  case (Cons org orgs)
  obtain r c2 where r: "GetEffectivePermissionsByIDs en c1 uid org = (r, c2)" by fastforce
  have reach: "permission_reads en uid c c2" using Cons.prems(2) r by (rule reads_one)
  show ?case
  proof (cases r)
    case (Inl e)
    have "merge_orgs en uid orgs c2 merged = (Some p, c')" using Cons.prems(1) r Inl by simp
    from Cons.IH [OF this reach] show ?thesis by auto
  next
    case (Inr q)
    have "merge_orgs en uid orgs c2 (Some (merge_access merged q)) = (Some p, c')" using Cons.prems(1) r Inr by simp
    from Cons.IH [OF this reach] have "map_of (ep_ContractAccess (merge_access merged q)) a = Some ca \<or>
       (\<exists>org \<in> set orgs. \<exists>q. org_permissions en uid c org q \<and> (a, ca) \<in> set (ep_ContractAccess q))" by auto
    moreover have "org_permissions en uid c org q"
      unfolding org_permissions_def using Cons.prems(2) r Inr by (intro exI [of _ c1]) simp
    ultimately show ?thesis using merge_access_sources [of merged q a ca] by auto
  qed
qed


definition perms_cache_ok ::
  "env \<Rightarrow> string \<Rightarrow> access_controller \<Rightarrow> (string \<times> effective_permissions option) list \<Rightarrow> bool" where
  "perms_cache_ok en uid c m \<longleftrightarrow> (\<forall>org p. map_of m org = Some (Some p) \<longrightarrow> org_permissions en uid c org p)"

definition admin_entry :: "env \<Rightarrow> string \<Rightarrow> access_controller \<Rightarrow> string list \<Rightarrow> string \<Rightarrow> bool" where
  "admin_entry en uid c orgs a \<longleftrightarrow>
     (\<exists>org p. st_GetContractOwnerOrgID (en_store en) a = Inr org \<and> org \<noteq> '''' \<and> org \<in> set orgs \<and>
        org_permissions en uid c org p \<and> HasAdminOnContract p a)"

lemma perms_cache_ok_update:
  "perms_cache_ok en uid c m \<Longrightarrow> (\<And>p. v = Some p \<Longrightarrow> org_permissions en uid c org p) \<Longrightarrow>
   perms_cache_ok en uid c (AList.update org v m)"
  unfolding perms_cache_ok_def by (simp add: update_conv')

lemma admin_contracts_sources:
  assumes "admin_contracts en uid orgs addrs m c1 out = (res, c')" "permission_reads en uid c c1" "perms_cache_ok en uid c m"
    and "flag res a" "\<not> flag out a"
  shows "admin_entry en uid c orgs a"
  using assms
proof (induction addrs arbitrary: m c1 out)
  case (Cons b addrs)
  let ?owner = "st_GetContractOwnerOrgID (en_store en) b"
  show ?case
  proof (cases "\<exists>org. ?owner = Inr org \<and> org \<noteq> '''' \<and> org \<in> set orgs")
    case False
    then have "admin_contracts en uid orgs addrs m c1 out = (res, c')"
      using Cons.prems(1) by (cases ?owner) auto
    from Cons.IH [OF this Cons.prems(2-5)] show ?thesis .
  next
    case True
    then obtain org where org: "?owner = Inr org" "org \<noteq> ''''" "org \<in> set orgs" by blast
    let ?step = "(case map_of m org of Some p \<Rightarrow> (p, m, c1)
        | None \<Rightarrow> (case GetEffectivePermissionsByIDs en c1 uid org of
              (Inl _, c') \<Rightarrow> (None, AList.update org None m, c')
            | (Inr op, c') \<Rightarrow> (Some op, AList.update org (Some op) m, c')))"
    obtain op m2 c2 where step: "?step = (op, m2, c2)" by (cases ?step rule: prod_cases3)
    have ok: "permission_reads en uid c c2 \<and> perms_cache_ok en uid c m2 \<and> (\<forall>p. op = Some p \<longrightarrow> org_permissions en uid c org p)"
    proof (cases "map_of m org")
      case (Some q)
      then have "op = q" "m2 = m" "c2 = c1" using step by simp_all
      then show ?thesis using Some Cons.prems(2,3) by (simp add: perms_cache_ok_def)
    next
      case None
      obtain r c3 where r: "GetEffectivePermissionsByIDs en c1 uid org = (r, c3)" by fastforce
      have reach: "permission_reads en uid c c3" using Cons.prems(2) r by (rule reads_one)
      have src: "org_permissions en uid c org q" if "r = Inr q" for q
        unfolding org_permissions_def using Cons.prems(2) r that by (intro exI [of _ c1]) simp
      show ?thesis
      proof (cases r)
        case (Inl e)
        then have "op = None" "m2 = AList.update org None m" "c2 = c3" using step None r by simp_all
        then show ?thesis using reach Cons.prems(3) by (auto intro!: perms_cache_ok_update)
      next
        case (Inr q)
        then have "op = Some q" "m2 = AList.update org (Some q) m" "c2 = c3" using step None r by auto
        then show ?thesis using reach src [OF Inr] Cons.prems(3) by (auto intro!: perms_cache_ok_update)
      qed
    qed
    let ?out = "case op of None \<Rightarrow> out | Some p \<Rightarrow> if HasAdminOnContract p b then AList.update b True out else out"
    have nxt: "admin_contracts en uid orgs addrs m2 c2 ?out = (res, c')"
      using Cons.prems(1) org step by simp
    show ?thesis
    proof (cases "flag ?out a")
      case False
      from Cons.IH [OF nxt conjunct1 [OF ok] conjunct1 [OF conjunct2 [OF ok]] Cons.prems(4) this] show ?thesis .
    next
      case True
      then have "a = b \<and> (\<exists>p. op = Some p \<and> HasAdminOnContract p b)"
        using Cons.prems(5) by (simp split: option.splits if_splits)
      then show ?thesis using ok org unfolding admin_entry_def by blast
    qed
  qed
qed simp

text \<open>
  The administrator exemption of the response filters holds per contract and per organization: a contract
  is exempt for the viewer only when the organization that owns it is one the viewer is a member of (and the
  scope organization, under an impersonation scope) and the viewer's permissions in that very organization
  carry the admin claim on the contract. Administering another organization never helps.
\<close>

theorem admin_exemption_own_org:
  assumes "viewerAdminContracts en c uid addrs = (res, c')" "flag res a"
  shows "\<exists>org p ids. st_GetContractOwnerOrgID (en_store en) a = Inr org \<and> org \<noteq> '''' \<and>
           GetUserOrgIDs (en_store en) uid = Inr ids \<and> org \<in> set ids \<and>
           (en_viewscope en = None \<or> en_viewscope en = Some org) \<and>
           org_permissions en uid c org p \<and> HasAdminOnContract p a"
proof -
  have no: "\<not> flag [] a" by (simp add: flag_def)
  obtain ids unique where ids: "GetUserOrgIDs (en_store en) uid = Inr ids"
    and run: "admin_contracts en uid (restrictToViewerOrgScope (en_viewscope en) ids) unique [] c [] = (res, c')"
    using assms no by (auto simp: viewerAdminContracts_def Let_def split: if_splits sum.splits)
  have "perms_cache_ok en uid c []" by (simp add: perms_cache_ok_def)
  from admin_contracts_sources [OF run reads_none this assms(2) no]
  obtain org p where "st_GetContractOwnerOrgID (en_store en) a = Inr org" "org \<noteq> ''''"
    "org \<in> set (restrictToViewerOrgScope (en_viewscope en) ids)" "org_permissions en uid c org p" "HasAdminOnContract p a"
    unfolding admin_entry_def by blast
  with ids show ?thesis
    by (auto simp: restrictToViewerOrgScope_def list_ex_iff split: option.splits if_splits)
qed

lemma demo_admin_run:
  "fst (viewerAdminContracts demo_storage_env demo_controller ''u'' [''0xABC'', ''0xdef'']) = [(''0xabc'', True)]"
  by code_simp

theorem admin_exemption_own_org_witness:
  "\<exists>p. org_permissions demo_storage_env ''u'' demo_controller ''o'' p \<and> HasAdminOnContract p ''0xabc''"
proof -
  obtain res c' where run: "viewerAdminContracts demo_storage_env demo_controller ''u'' [''0xABC'', ''0xdef''] = (res, c')"
    by fastforce
  have res: "res = [(''0xabc'', True)]" using demo_admin_run run by simp
  have "flag res ''0xabc''" by (simp add: res flag_def)
  from admin_exemption_own_org [OF run this] show ?thesis
    by (auto simp: demo_storage_env_def demo_access_env_def demo_access_store_def)
qed

definition demo_result :: access_check_result where
  "demo_result =
     \<lparr>acx_Allowed = True, acx_AuthRequired = False, acx_Reason = '''', acx_OrgID = ''o'', acx_UserID = ''u'', acx_RPCAPIKey = '''',
      acx_Claims = []\<rparr>"

lemma demo_filter_perms:
  "map_option (\<lambda>p. map_of (ep_ContractAccess p) ''0xabc'' \<noteq> None)
     (fst (resolvePermsForFilter (demo_access_env\<lparr>en_viewscope := Some ''o''\<rparr>) demo_controller (Some demo_result))) = Some True"
  by code_simp


end
