(* ===== verification/Go_Digest.thy ===== *)
theory Go_Digest
  imports Go_Prelude
begin

text \<open>
  The part of Go's standard library that the audit packages use and the other components do not:
  SHA-256 (\<^verbatim>\<open>crypto/sha256\<close>, FIPS 180-4), HMAC-SHA-256 (\<^verbatim>\<open>crypto/hmac\<close>, RFC 2104),
  \<^verbatim>\<open>time.Time.UTC().Format(time.RFC3339Nano)\<close>, \<^verbatim>\<open>Truncate(time.Microsecond)\<close> and \<^verbatim>\<open>UnixMicro\<close>, and
  \<^verbatim>\<open>strings.Join(xs, "|")\<close>. The digests are executable. No theorem of the development assumes that SHA-256 has no
  collision: a statement about tampering names the two inputs that would have to collide.
\<close>

unbundle bit_operations_syntax

section \<open>SHA-256\<close>

type_synonym w32 = "32 word"

definition str_bytes :: "string \<Rightarrow> bytes" where
  "str_bytes s = map of_char s"

definition rotr :: "nat \<Rightarrow> w32 \<Rightarrow> w32" where
  "rotr n x = drop_bit n x OR push_bit (32 - n) x"

definition sha_sigma0 :: "w32 \<Rightarrow> w32" where
  "sha_sigma0 x = (rotr 7 x XOR rotr 18 x) XOR drop_bit 3 x"

definition sha_sigma1 :: "w32 \<Rightarrow> w32" where
  "sha_sigma1 x = (rotr 17 x XOR rotr 19 x) XOR drop_bit 10 x"

definition sha_Sigma0 :: "w32 \<Rightarrow> w32" where
  "sha_Sigma0 x = (rotr 2 x XOR rotr 13 x) XOR rotr 22 x"

definition sha_Sigma1 :: "w32 \<Rightarrow> w32" where
  "sha_Sigma1 x = (rotr 6 x XOR rotr 11 x) XOR rotr 25 x"

definition sha_K :: "w32 list" where
  "sha_K =
     [0x428a2f98, 0x71374491, 0xb5c0fbcf, 0xe9b5dba5,
      0x3956c25b, 0x59f111f1, 0x923f82a4, 0xab1c5ed5,
      0xd807aa98, 0x12835b01, 0x243185be, 0x550c7dc3,
      0x72be5d74, 0x80deb1fe, 0x9bdc06a7, 0xc19bf174,
      0xe49b69c1, 0xefbe4786, 0x0fc19dc6, 0x240ca1cc,
      0x2de92c6f, 0x4a7484aa, 0x5cb0a9dc, 0x76f988da,
      0x983e5152, 0xa831c66d, 0xb00327c8, 0xbf597fc7,
      0xc6e00bf3, 0xd5a79147, 0x06ca6351, 0x14292967,
      0x27b70a85, 0x2e1b2138, 0x4d2c6dfc, 0x53380d13,
      0x650a7354, 0x766a0abb, 0x81c2c92e, 0x92722c85,
      0xa2bfe8a1, 0xa81a664b, 0xc24b8b70, 0xc76c51a3,
      0xd192e819, 0xd6990624, 0xf40e3585, 0x106aa070,
      0x19a4c116, 0x1e376c08, 0x2748774c, 0x34b0bcb5,
      0x391c0cb3, 0x4ed8aa4a, 0x5b9cca4f, 0x682e6ff3,
      0x748f82ee, 0x78a5636f, 0x84c87814, 0x8cc70208,
      0x90befffa, 0xa4506ceb, 0xbef9a3f7, 0xc67178f2]"

definition sha_H0 :: "w32 list" where
  "sha_H0 =
     [0x6a09e667, 0xbb67ae85, 0x3c6ef372, 0xa54ff53a,
      0x510e527f, 0x9b05688c, 0x1f83d9ab, 0x5be0cd19]"

text \<open>
  The message schedule keeps the last sixteen words, newest first; a round consumes the oldest.
\<close>

definition sha_next_word :: "w32 list \<Rightarrow> w32" where
  "sha_next_word ws = sha_sigma1 (ws ! 1) + ws ! 6 + sha_sigma0 (ws ! 14) + ws ! 15"

fun sha_schedule :: "nat \<Rightarrow> w32 list \<Rightarrow> w32 list" where
  "sha_schedule 0 ws = rev ws"
| "sha_schedule (Suc n) ws = sha_schedule n (sha_next_word ws # ws)"

fun sha_round :: "w32 list \<Rightarrow> w32 \<times> w32 \<Rightarrow> w32 list" where
  "sha_round [a, b, c, d, e, f, g, h] (k, w) =
     (let t1 = h + sha_Sigma1 e + ((e AND f) XOR ((NOT e) AND g)) + k + w;
          t2 = sha_Sigma0 a + (((a AND b) XOR (a AND c)) XOR (b AND c))
      in [t1 + t2, a, b, c, d + t1, e, f, g])"
| "sha_round hs _ = hs"

definition sha_block :: "w32 list \<Rightarrow> w32 list \<Rightarrow> w32 list" where
  "sha_block hs block =
     map2 (+) hs (foldl sha_round hs (zip sha_K (sha_schedule 48 (rev block))))"

definition be_bytes :: "nat \<Rightarrow> nat \<Rightarrow> bytes" where
  "be_bytes len n = map (\<lambda>i. word_of_nat (n div 256 ^ (len - 1 - i))) [0..<len]"

definition sha_pad :: "bytes \<Rightarrow> bytes" where
  "sha_pad m =
     m @ [0x80] @ replicate ((119 - length m mod 64) mod 64) 0 @ be_bytes 8 (8 * length m)"

fun be_words :: "bytes \<Rightarrow> w32 list" where
  "be_words (a # b # c # d # bs) =
     (push_bit 24 (ucast a) OR push_bit 16 (ucast b) OR push_bit 8 (ucast c) OR ucast d) # be_words bs"
| "be_words _ = []"

fun sha_blocks :: "nat \<Rightarrow> w32 list \<Rightarrow> w32 list \<Rightarrow> w32 list" where
  "sha_blocks 0 hs ws = hs"
| "sha_blocks (Suc n) hs ws = sha_blocks n (sha_block hs (take 16 ws)) (drop 16 ws)"

definition word_bytes :: "w32 \<Rightarrow> bytes" where
  "word_bytes w = [ucast (drop_bit 24 w), ucast (drop_bit 16 w), ucast (drop_bit 8 w), ucast w]"

definition sha256 :: "bytes \<Rightarrow> bytes" where
  "sha256 m =
     (let p = sha_pad m in concat (map word_bytes (sha_blocks (length p div 64) sha_H0 (be_words p))))"

section \<open>HMAC-SHA-256\<close>

definition hmac_key :: "bytes \<Rightarrow> bytes" where
  "hmac_key k = (let k' = (if length k > 64 then sha256 k else k) in k' @ replicate (64 - length k') 0)"

definition hmac_sha256 :: "bytes \<Rightarrow> bytes \<Rightarrow> bytes" where
  "hmac_sha256 k m =
     sha256 (map (\<lambda>b. b XOR 0x5c) (hmac_key k) @ sha256 (map (\<lambda>b. b XOR 0x36) (hmac_key k) @ m))"

section \<open>Times and joined fields\<close>

text \<open>
  A time is a number of nanoseconds since the zero \<^verbatim>\<open>Time\<close>, midnight UTC on 1 January of year 1. The
  date of a day number follows the 400-, 100-, 4- and 1-year cycles of the Gregorian calendar.
\<close>

definition truncate_micro :: "time \<Rightarrow> time" where
  "truncate_micro t = t - t mod 1000"

definition unix_micro :: "time \<Rightarrow> int" where
  "unix_micro t = t div 1000 - 62135596800 * 10 ^ 6"

definition leap_year :: "int \<Rightarrow> bool" where
  "leap_year y = (y mod 4 = 0 \<and> (y mod 100 \<noteq> 0 \<or> y mod 400 = 0))"

definition year_of_day :: "int \<Rightarrow> int \<times> int" where
  "year_of_day d =
     (let n400 = d div 146097; d1 = d mod 146097;
          n100 = min 3 (d1 div 36524); d2 = d1 - n100 * 36524;
          n4 = d2 div 1461; d3 = d2 mod 1461;
          n1 = min 3 (d3 div 365)
      in (400 * n400 + 100 * n100 + 4 * n4 + n1 + 1, d3 - n1 * 365))"

fun month_of_yday :: "int list \<Rightarrow> int \<Rightarrow> int \<Rightarrow> int \<times> int" where
  "month_of_yday [] m d = (m, d + 1)"
| "month_of_yday (n # ns) m d = (if d < n then (m, d + 1) else month_of_yday ns (m + 1) (d - n))"

definition month_lengths :: "int \<Rightarrow> int list" where
  "month_lengths y = [31, if leap_year y then 29 else 28, 31, 30, 31, 30, 31, 31, 30, 31, 30, 31]"

definition pad_digits :: "nat \<Rightarrow> int \<Rightarrow> string" where
  "pad_digits w n = (let s = itoa n in replicate (w - length s) CHR ''0'' @ s)"

definition trim_fraction :: "string \<Rightarrow> string" where
  "trim_fraction s = rev (dropWhile (\<lambda>c. c = CHR ''0'') (rev s))"

definition rfc3339_nano :: "time \<Rightarrow> string" where
  "rfc3339_nano t =
     (let secs = t div 10 ^ 9; frac = trim_fraction (pad_digits 9 (t mod 10 ^ 9));
          (y, yd) = year_of_day (secs div 86400); (m, d) = month_of_yday (month_lengths y) 1 yd;
          sod = secs mod 86400
      in pad_digits 4 y @ ''-'' @ pad_digits 2 m @ ''-'' @ pad_digits 2 d @ ''T'' @
         pad_digits 2 (sod div 3600) @ '':'' @ pad_digits 2 (sod div 60 mod 60) @ '':'' @
         pad_digits 2 (sod mod 60) @ (if frac = [] then [] else ''.'' @ frac) @ ''Z'')"

fun join_bar :: "string list \<Rightarrow> string" where
  "join_bar [] = []"
| "join_bar [x] = x"
| "join_bar (x # y # xs) = x @ ''|'' @ join_bar (y # xs)"

section \<open>Shape of the digests\<close>

lemma length_sha_round [simp]: "length (sha_round hs kw) = length hs"
  by (induction hs kw rule: sha_round.induct) (simp_all add: Let_def)

lemma length_sha_rounds [simp]: "length (foldl sha_round hs kws) = length hs"
  by (induction kws arbitrary: hs) simp_all

lemma length_sha_blocks: "length (sha_blocks n hs ws) = length hs"
  by (induction n hs ws rule: sha_blocks.induct) (simp_all add: sha_block_def)

lemma length_sha256 [simp]: "length (sha256 m) = 32"
proof -
  have "length (concat (map word_bytes ws)) = 4 * length ws" for ws
    by (induction ws) (simp_all add: word_bytes_def)
  then show ?thesis
    by (simp add: sha256_def Let_def length_sha_blocks sha_H0_def)
qed

lemma length_hmac_sha256 [simp]: "length (hmac_sha256 k m) = 32"
  by (simp add: hmac_sha256_def)

lemma truncate_micro_idem [simp]: "truncate_micro (truncate_micro t) = truncate_micro t"
  by (simp add: truncate_micro_def)

text \<open>
  What Postgres keeps of a time (microseconds) has the microsecond count that was signed.
\<close>

lemma unix_micro_truncate [simp]: "unix_micro (truncate_micro t) = unix_micro t"
  by (simp add: truncate_micro_def unix_micro_def minus_mod_eq_mult_div)

lemma nat_digits_numeral:
  "numeral n < (10 :: nat) \<Longrightarrow> nat_digits (numeral n) = [digit_char (numeral n)]"
  "\<not> numeral n < (10 :: nat) \<Longrightarrow>
     nat_digits (numeral n) = nat_digits (numeral n div 10) @ [digit_char (numeral n mod 10)]"
  "nat_digits 0 = [digit_char 0]" "nat_digits (Suc 0) = [digit_char (Suc 0)]"
  by (subst nat_digits.simps, simp)+

lemma digit_char_values:
  "digit_char 0 = CHR ''0''" "digit_char (Suc 0) = CHR ''1''" "digit_char 2 = CHR ''2''"
  "digit_char 3 = CHR ''3''" "digit_char 4 = CHR ''4''" "digit_char 5 = CHR ''5''"
  "digit_char 6 = CHR ''6''" "digit_char 7 = CHR ''7''" "digit_char 8 = CHR ''8''"
  "digit_char 9 = CHR ''9''"
  by code_simp+

lemmas itoa_eval = itoa_def nat_digits_numeral digit_char_values

text \<open>
  A value of the calendar part, at the end of February of a leap year.
\<close>

lemma rfc3339_nano_demo:
  "rfc3339_nano 63844806896120340000 = ''2024-02-29T12:34:56.12034Z''"
proof -
  have "year_of_day (63844806896 div 86400) = (2024, 59)"
    by (simp add: year_of_day_def Let_def)
  moreover have "month_of_yday (month_lengths 2024) 1 59 = (2, 29)"
    by (simp add: month_lengths_def leap_year_def)
  ultimately show ?thesis
    by (simp add: rfc3339_nano_def pad_digits_def itoa_eval trim_fraction_def)
qed

end
