(* ===== verification/Audit_Chain.thy ===== *)
theory Audit_Chain
  imports Go_Digest
begin

text \<open>
  The audit hash chain and its signed checkpoints (\<^verbatim>\<open>internal/audit/hashchain.go\<close>,
  \<^verbatim>\<open>checkpoint.go\<close>, \<^verbatim>\<open>reanchor.go\<close> and the content builders of \<^verbatim>\<open>verifier.go\<close>,
  \<^verbatim>\<open>db/db.go\<close> and \<^verbatim>\<open>db/rbac_store_audit.go\<close>).

  A chain is its head hash. \<open>Append\<close> runs the caller's \<^verbatim>\<open>build\<close> and \<^verbatim>\<open>write\<close> callbacks on an explicit
  state and moves the head only when the write succeeded; the mutex makes the calls a sequence. The
  locale \<open>audit_chain_api\<close> is the interface \<^verbatim>\<open>db.RBACAuditChain\<close>, \<open>signer_api\<close> is \<^verbatim>\<open>audit.Signer\<close>; both
  are interpreted on the model of the code (\<open>hc\<close>, \<open>hmac\<close>). \<open>chained\<close> is what a verified chain is: each
  stored hash is the hash of its predecessor's and its own content.
\<close>

section \<open>The chain\<close>

record HashChain =
  lastHash :: string

definition NewHashChain :: "string \<Rightarrow> HashChain" where
  "NewHashChain lastKnownHash = \<lparr>lastHash = lastKnownHash\<rparr>"

definition computeChainHash :: "string \<Rightarrow> string \<Rightarrow> string" where
  "computeChainHash prev content = encode_hex (sha256 (str_bytes prev @ str_bytes content))"

definition ComputeNext :: "HashChain \<Rightarrow> string \<Rightarrow> HashChain \<times> string" where
  "ComputeNext h entryContent =
     (let hash = encode_hex (sha256 (str_bytes (lastHash h) @ str_bytes entryContent))
      in (h\<lparr>lastHash := hash\<rparr>, hash))"

definition LastHash :: "HashChain \<Rightarrow> string" where
  "LastHash h = lastHash h"

text \<open>
  A write callback takes the hash and the caller's state and says what went wrong, if anything; a
  build callback takes the head and returns the content with the write callback.
\<close>

type_synonym 's chain_write = "string \<Rightarrow> 's \<Rightarrow> 's \<times> string option"
type_synonym 's chain_build = "string \<Rightarrow> 's \<Rightarrow> 's \<times> (string \<times> 's chain_write option) res"

definition errAppendNilWrite :: string where
  "errAppendNilWrite = ''hashchain: Append build callback returned nil write''"

definition Append :: "HashChain \<Rightarrow> 's \<Rightarrow> 's chain_build \<Rightarrow> HashChain \<times> 's \<times> string res" where
  "Append h s build =
     (let prev = lastHash h in
      case build prev s of
        (s1, Inl err) \<Rightarrow> (h, s1, Inl err)
      | (s1, Inr (content, None)) \<Rightarrow> (h, s1, Inl errAppendNilWrite)
      | (s1, Inr (content, Some write)) \<Rightarrow>
          (let hash = encode_hex (sha256 (str_bytes prev @ str_bytes content)) in
           case write hash s1 of
             (s2, Some err) \<Rightarrow> (h, s2, Inl err)
           | (s2, None) \<Rightarrow> (h\<lparr>lastHash := hash\<rparr>, s2, Inr hash)))"

section \<open>Canonical contents\<close>

text \<open>
  The writers' formats live in package \<^verbatim>\<open>db\<close>, the verifier's in package \<^verbatim>\<open>audit\<close>. All of them are
  \<^verbatim>\<open>fmt.Sprintf\<close> with \<^verbatim>\<open>|\<close> between the verbs.
\<close>

definition AccessLogChainContent ::
  "int \<Rightarrow> string \<Rightarrow> string \<Rightarrow> string \<Rightarrow> int \<Rightarrow> int \<Rightarrow> time \<Rightarrow> string \<Rightarrow> string \<Rightarrow> string" where
  "AccessLogChainContent rowID externalID method' ipAddress statusCode responseStatus createdAt
     correlationID paramsDigest =
     join_bar [''v2'', itoa rowID, externalID, method', ipAddress, itoa statusCode, itoa responseStatus,
       rfc3339_nano createdAt, correlationID, paramsDigest]"

definition AccessLogChainContentV2 ::
  "int \<Rightarrow> string \<Rightarrow> string \<Rightarrow> string \<Rightarrow> int \<Rightarrow> int \<Rightarrow> time \<Rightarrow> string \<Rightarrow> string \<Rightarrow> string" where
  "AccessLogChainContentV2 rowID externalID method' ipAddress statusCode responseStatus createdAt
     correlationID paramsDigest =
     join_bar [''v2'', itoa rowID, externalID, method', ipAddress, itoa statusCode, itoa responseStatus,
       rfc3339_nano createdAt, correlationID, paramsDigest]"

definition RBACAuditChainContentV1 ::
  "int \<Rightarrow> string \<Rightarrow> string \<Rightarrow> string \<Rightarrow> string \<Rightarrow> string \<Rightarrow> string \<Rightarrow> string \<Rightarrow> time \<Rightarrow> string \<Rightarrow> string \<Rightarrow> string" where
  "RBACAuditChainContentV1 rowID actorExternalID action resourceType resourceID resourceName orgID
     ipAddress createdAt oldValue newValue =
     join_bar [''v1'', itoa rowID, actorExternalID, action, resourceType, resourceID, resourceName, orgID,
       ipAddress, rfc3339_nano createdAt, oldValue, newValue]"

section \<open>Signers, checkpoints and re-anchors\<close>

record HMACSigner =
  hs_keyID :: string
  hs_key :: bytes

definition NewHMACSigner :: "string \<Rightarrow> bytes \<Rightarrow> HMACSigner" where
  "NewHMACSigner keyID key = \<lparr>hs_keyID = keyID, hs_key = key\<rparr>"

definition Sign :: "HMACSigner \<Rightarrow> bytes \<Rightarrow> (string \<times> string) res" where
  "Sign s content =
     (if hs_key s = [] then Inl ''hmac signer: empty key''
      else Inr (encode_hex (hmac_sha256 (hs_key s) content), hs_keyID s))"

definition Verify_sig :: "HMACSigner \<Rightarrow> bytes \<Rightarrow> string \<Rightarrow> string \<Rightarrow> string option" where
  "Verify_sig s content sig keyID =
     (if keyID \<noteq> hs_keyID s
      then Some (''checkpoint key id '' @ fmt_q keyID @ '' does not match verifier key '' @ fmt_q (hs_keyID s))
      else case Sign s content of
        Inl err \<Rightarrow> Some err
      | Inr (want, _) \<Rightarrow>
          (case decode_hex want of
             None \<Rightarrow> Some ''internal: bad recomputed signature: encoding/hex: invalid byte''
           | Some wantB \<Rightarrow>
               (case decode_hex sig of
                  None \<Rightarrow> Some ''checkpoint signature is not valid hex: encoding/hex: invalid byte''
                | Some gotB \<Rightarrow> if wantB \<noteq> gotB then Some ''checkpoint signature mismatch'' else None)))"

record Checkpoint =
  ck_ChainName :: string
  ck_HeadID :: int
  ck_HeadHash :: string
  ck_RowCount :: int
  ck_CreatedAt :: time
  ck_KeyID :: string
  ck_Signature :: string

definition ckpt_signedContent :: "Checkpoint \<Rightarrow> bytes" where
  "ckpt_signedContent c =
     str_bytes (join_bar [''ckpt-v2'', ck_ChainName c, itoa (ck_HeadID c), ck_HeadHash c,
       itoa (ck_RowCount c), itoa (unix_micro (ck_CreatedAt c))])"

definition SignCheckpoint :: "HMACSigner \<Rightarrow> Checkpoint \<Rightarrow> Checkpoint res" where
  "SignCheckpoint s c =
     (case Sign s (ckpt_signedContent c) of
        Inl err \<Rightarrow> Inl (''sign checkpoint: '' @ err)
      | Inr (sig, keyID) \<Rightarrow> Inr (c\<lparr>ck_Signature := sig, ck_KeyID := keyID\<rparr>))"

definition VerifyCheckpoint :: "HMACSigner \<Rightarrow> Checkpoint \<Rightarrow> string option" where
  "VerifyCheckpoint s c = Verify_sig s (ckpt_signedContent c) (ck_Signature c) (ck_KeyID c)"

record ReAnchor =
  ra_ChainName :: string
  ra_Reason :: string
  ra_Actor :: string
  ra_FromHeadID :: int
  ra_FromHash :: string
  ra_ToHeadID :: int
  ra_ToHash :: string
  ra_CreatedAt :: time
  ra_KeyID :: string
  ra_Signature :: string

definition reanchor_signedContent :: "ReAnchor \<Rightarrow> bytes" where
  "reanchor_signedContent r =
     str_bytes (join_bar [''reanchor-v2'', ra_ChainName r, ra_Reason r, ra_Actor r,
       itoa (ra_FromHeadID r), ra_FromHash r, itoa (ra_ToHeadID r), ra_ToHash r,
       itoa (unix_micro (ra_CreatedAt r))])"

definition SignReAnchor :: "HMACSigner \<Rightarrow> ReAnchor \<Rightarrow> ReAnchor res" where
  "SignReAnchor s r =
     (case Sign s (reanchor_signedContent r) of
        Inl err \<Rightarrow> Inl (''sign re-anchor: '' @ err)
      | Inr (sig, keyID) \<Rightarrow> Inr (r\<lparr>ra_Signature := sig, ra_KeyID := keyID\<rparr>))"

definition VerifyReAnchor :: "HMACSigner \<Rightarrow> ReAnchor \<Rightarrow> string option" where
  "VerifyReAnchor s r = Verify_sig s (reanchor_signedContent r) (ra_Signature r) (ra_KeyID r)"

text \<open>
  \<^verbatim>\<open>checkpointTruncated\<close>; the head is \<^const>\<open>None\<close> for \<^verbatim>\<open>!curHeadValid\<close>.
\<close>

definition checkpointTruncated :: "Checkpoint option \<Rightarrow> int option \<Rightarrow> bool" where
  "checkpointTruncated c curHead =
     (case c of
        None \<Rightarrow> False
      | Some c \<Rightarrow> (case curHead of None \<Rightarrow> ck_HeadID c > 0 | Some curHeadID \<Rightarrow> curHeadID < ck_HeadID c))"

section \<open>Chained hashes\<close>

text \<open>
  A list of (content, stored hash) pairs is chained from a seed when every stored hash is the one the
  verifier recomputes; \<open>chain_tail\<close> is the last stored hash and \<open>hash_inputs\<close> are the byte strings fed to
  SHA-256 along the way.
\<close>

fun chained :: "string \<Rightarrow> (string \<times> string) list \<Rightarrow> bool" where
  "chained prev [] = True"
| "chained prev ((content, h) # rows) = (h = computeChainHash prev content \<and> chained h rows)"

fun chain_tail :: "string \<Rightarrow> (string \<times> string) list \<Rightarrow> string" where
  "chain_tail prev [] = prev"
| "chain_tail prev ((content, h) # rows) = chain_tail h rows"

fun hash_inputs :: "string \<Rightarrow> (string \<times> string) list \<Rightarrow> bytes list" where
  "hash_inputs prev [] = []"
| "hash_inputs prev ((content, h) # rows) = (str_bytes prev @ str_bytes content) # hash_inputs h rows"

lemma length_computeChainHash [simp]: "length (computeChainHash prev content) = 64"
  by (simp add: computeChainHash_def)

lemma computeChainHash_nonempty [simp]: "computeChainHash prev content \<noteq> []" "[] \<noteq> computeChainHash prev content"
  by (metis length_computeChainHash length_0_conv zero_neq_numeral)+

lemma chained_append [simp]:
  "chained prev (xs @ ys) \<longleftrightarrow> chained prev xs \<and> chained (chain_tail prev xs) ys"
  by (induction prev xs rule: chained.induct) auto

lemma chain_tail_append [simp]: "chain_tail prev (xs @ ys) = chain_tail (chain_tail prev xs) ys"
  by (induction prev xs rule: chain_tail.induct) auto

lemma length_hash_inputs [simp]: "length (hash_inputs prev rows) = length rows"
  by (induction prev rows rule: hash_inputs.induct) auto

lemma of_char_inj8: "(of_char c :: 8 word) = of_char d \<Longrightarrow> c = d"
proof -
  assume "(of_char c :: 8 word) = of_char d"
  then have "unat (of_nat (of_char c) :: 8 word) = unat (of_nat (of_char d) :: 8 word)"
    by (simp only: of_nat_of_char)
  moreover have "of_char x < (2 :: nat) ^ 8" for x
    using nat_of_char_less_256 [of x] by simp
  ultimately have "(of_char c :: nat) = of_char d"
    by (simp add: unat_of_nat take_bit_nat_eq_self_iff)
  then show "c = d"
    by simp
qed

lemma str_bytes_inj [simp]: "str_bytes s = str_bytes t \<longleftrightarrow> s = t"
  by (auto simp: str_bytes_def inj_map_eq_map [OF injI, OF of_char_inj8])

lemma encode_hex_inj [simp]: "encode_hex a = encode_hex b \<longleftrightarrow> a = b"
  by (metis decode_encode_hex option.inject)

text \<open>
  Two chains over the same seed that end in the same hash after the same number of rows are the same
  chain, or some step of them feeds SHA-256 two different inputs with one digest.
\<close>

definition collides_at :: "string \<Rightarrow> (string \<times> string) list \<Rightarrow> (string \<times> string) list \<Rightarrow> nat \<Rightarrow> bool" where
  "collides_at seed xs ys i \<longleftrightarrow>
     i < length xs \<and> i < length ys \<and> hash_inputs seed xs ! i \<noteq> hash_inputs seed ys ! i \<and>
     sha256 (hash_inputs seed xs ! i) = sha256 (hash_inputs seed ys ! i)"

lemma hash_inputs_append:
  "hash_inputs prev (xs @ ys) = hash_inputs prev xs @ hash_inputs (chain_tail prev xs) ys"
  by (induction prev xs rule: hash_inputs.induct) auto

lemma collides_at_append: "collides_at seed xs ys i \<Longrightarrow> collides_at seed (xs @ us) (ys @ vs) i"
  by (auto simp: collides_at_def hash_inputs_append nth_append)

lemma length_chain_tail: "chained seed xs \<Longrightarrow> xs \<noteq> [] \<Longrightarrow> length (chain_tail seed xs) = 64"
  by (induction xs rule: rev_induct) auto

lemma chained_tail_determines:
  assumes "chained seed xs" "chained seed ys" "length xs = length ys"
    and "chain_tail seed xs = chain_tail seed ys"
  shows "xs = ys \<or> (\<exists>i. collides_at seed xs ys i)"
  using assms(3, 1, 2, 4)
proof (induction xs ys rule: rev_induct2)
  case (4 x xs y ys)
  obtain c h c' h' where xy: "x = (c, h)" "y = (c', h')"
    by (cases x, cases y)
  let ?p = "chain_tail seed xs" and ?q = "chain_tail seed ys"
  have len: "length xs = length ys"
    using 4 by simp
  have ch: "chained seed xs" "chained seed ys" "h = computeChainHash ?p c" "h' = computeChainHash ?q c'" "h = h'"
    using 4 xy by auto
  have dig: "sha256 (str_bytes ?p @ str_bytes c) = sha256 (str_bytes ?q @ str_bytes c')"
    using ch by (simp add: computeChainHash_def)
  show ?case
  proof (cases "str_bytes ?p @ str_bytes c = str_bytes ?q @ str_bytes c'")
    case False
    then have "collides_at seed (xs @ [x]) (ys @ [y]) (length xs)"
      using dig len by (simp add: collides_at_def hash_inputs_append xy nth_append)
    then show ?thesis by blast
  next
    case True
    have "length ?p = length ?q"
      using len ch length_chain_tail by (cases "xs = []") fastforce+
    then have "?p = ?q" "c = c'"
      using True by (simp_all add: str_bytes_def)
        (metis str_bytes_inj str_bytes_def)+
    then show ?thesis
      using 4 xy len ch collides_at_append by fastforce
  qed
qed auto

section \<open>The interface of the writers\<close>

text \<open>
  \<open>appends_entry I log build\<close>: in states that satisfy \<open>I\<close>, the callbacks of \<open>build\<close> change the log only by
  the entry that is written, and only when the write reports success; \<open>I\<close> survives.
\<close>

definition appends_entry :: "('s \<Rightarrow> bool) \<Rightarrow> ('s \<Rightarrow> (string \<times> string) list) \<Rightarrow> 's chain_build \<Rightarrow> bool" where
  "appends_entry I log build \<longleftrightarrow>
     (\<forall>prev s. I s \<longrightarrow>
        (case build prev s of
           (s1, Inl _) \<Rightarrow> I s1 \<and> log s1 = log s
         | (s1, Inr (_, None)) \<Rightarrow> I s1 \<and> log s1 = log s
         | (s1, Inr (content, Some write)) \<Rightarrow>
             (\<forall>h. h \<noteq> [] \<longrightarrow> (case write h s1 of
                (s2, None) \<Rightarrow> I s2 \<and> log s2 = log s @ [(content, h)]
              | (s2, Some _) \<Rightarrow> I s2 \<and> log s2 = log s))))"

lemma appends_entry_write:
  assumes "appends_entry I log b" "I s" "b prev s = (s1, Inr (content, Some w))" "w h s1 = (s2, r)" "h \<noteq> []"
  shows "I s2 \<and> log s2 = (if r = None then log s @ [(content, h)] else log s)"
proof -
  have "\<forall>h. h \<noteq> [] \<longrightarrow> (case w h s1 of
      (s2, None) \<Rightarrow> I s2 \<and> log s2 = log s @ [(content, h)] | (s2, Some _) \<Rightarrow> I s2 \<and> log s2 = log s)"
    using assms(1) [unfolded appends_entry_def, rule_format, OF assms(2), of prev] assms(3) by simp
  from spec [OF this, of h] show ?thesis
    using assms(4, 5) by (cases r) simp_all
qed

lemma appends_entry_skip:
  assumes "appends_entry I log b" "I s" "b prev s = (s', Inl e) \<or> b prev s = (s', Inr (content, None))"
  shows "I s' \<and> log s' = log s"
  using assms(1) [unfolded appends_entry_def, rule_format, OF assms(2), of prev] assms(3) by auto

locale audit_chain_api =
  fixes append :: "'c \<Rightarrow> 's \<Rightarrow> 's chain_build \<Rightarrow> 'c \<times> 's \<times> string res"
    and head :: "'c \<Rightarrow> string"
  assumes append_ok:
    "append c s b = (c', s', Inr h) \<Longrightarrow>
       \<exists>s1 content w. b (head c) s = (s1, Inr (content, Some w)) \<and>
         h = computeChainHash (head c) content \<and> w h s1 = (s', None) \<and> head c' = h"
    and append_err:
    "append c s b = (c', s', Inl e) \<Longrightarrow> c' = c \<and>
       (b (head c) s = (s', Inl e) \<or> (\<exists>content. b (head c) s = (s', Inr (content, None))) \<or>
        (\<exists>s1 content w. b (head c) s = (s1, Inr (content, Some w)) \<and>
           w (computeChainHash (head c) content) s1 = (s', Some e)))"
begin

definition in_step :: "string \<Rightarrow> ('s \<Rightarrow> (string \<times> string) list) \<Rightarrow> 'c \<Rightarrow> 's \<Rightarrow> bool" where
  "in_step seed log c s \<longleftrightarrow> chained seed (log s) \<and> head c = chain_tail seed (log s)"

lemma append_in_step:
  assumes b: "appends_entry I log b" and I: "I s" and st: "in_step seed log c s"
    and app: "append c s b = (c', s', r)"
  shows "I s' \<and> in_step seed log c' s'"
proof (cases r)
  case (Inr h)
  obtain s1 content w where w: "b (head c) s = (s1, Inr (content, Some w))"
    "h = computeChainHash (head c) content" "w h s1 = (s', None)" "head c' = h"
    using append_ok [OF app [unfolded Inr]] by blast
  have "I s' \<and> log s' = log s @ [(content, h)]"
    using appends_entry_write [OF b I w(1, 3)] w(2) by simp
  then show ?thesis
    using st w by (auto simp: in_step_def)
next
  case (Inl e)
  note err = append_err [OF app [unfolded Inl]]
  have "I s' \<and> log s' = log s"
    using err appends_entry_write [OF b I] appends_entry_skip [OF b I]
    by (metis computeChainHash_nonempty(1) option.distinct(1))
  then show ?thesis
    using st err by (auto simp: in_step_def)
qed

end

interpretation hc: audit_chain_api Append lastHash
  by unfold_locales
    (auto simp: Append_def Let_def computeChainHash_def split: prod.splits sum.splits option.splits)

section \<open>The interface of the signer\<close>

locale signer_api =
  fixes sign :: "bytes \<Rightarrow> (string \<times> string) res"
    and verify :: "bytes \<Rightarrow> string \<Rightarrow> string \<Rightarrow> string option"
  assumes sign_verifies: "sign content = Inr (sig, keyID) \<Longrightarrow> verify content sig keyID = None"
    and verify_deterministic:
      "verify content sig keyID = None \<Longrightarrow> \<exists>sig'. sign content = Inr (sig', keyID) \<and> decode_hex sig = decode_hex sig'"
begin

lemma no_signer_no_trust: "sign content = Inl e \<Longrightarrow> verify content sig keyID \<noteq> None"
  using verify_deterministic by fastforce

end

interpretation hmac: signer_api "Sign s" "Verify_sig s" for s
  by unfold_locales
    (auto simp: Sign_def Verify_sig_def split: if_splits option.splits)

lemma signed_checkpoint_verifies:
  "SignCheckpoint s c = Inr c' \<Longrightarrow> VerifyCheckpoint s (c'\<lparr>ck_CreatedAt := truncate_micro (ck_CreatedAt c')\<rparr>) = None"
  by (auto simp: SignCheckpoint_def VerifyCheckpoint_def ckpt_signedContent_def
      split: sum.splits prod.splits intro!: hmac.sign_verifies)

lemma signed_reanchor_verifies:
  "SignReAnchor s r = Inr r' \<Longrightarrow> VerifyReAnchor s (r'\<lparr>ra_CreatedAt := truncate_micro (ra_CreatedAt r')\<rparr>) = None"
  by (auto simp: SignReAnchor_def VerifyReAnchor_def reanchor_signedContent_def
      split: sum.splits prod.splits intro!: hmac.sign_verifies)

end
