(* ===== verification/Audit_Store.thy ===== *)
theory Audit_Store
  imports Audit_Chain
begin

text \<open>
  The audit tables and the statements of package \<^verbatim>\<open>db\<close> that read and write them: \<^verbatim>\<open>access_logs\<close>,
  \<^verbatim>\<open>rbac_audit_log\<close>, \<^verbatim>\<open>audit_chain_anchor\<close>, \<^verbatim>\<open>audit_chain_checkpoint\<close> and \<^verbatim>\<open>audit_chain_reanchor\<close>
  (\<^verbatim>\<open>db/db.go\<close>, \<^verbatim>\<open>db/audit_chain.go\<close>, \<^verbatim>\<open>db/rbac_store_audit.go\<close>).

  A table is the list of its rows in the order of insertion; a query with \<^verbatim>\<open>ORDER BY id\<close> sorts. A
  nullable column is an option. One \<open>audit_db\<close> is one database (the proxy keeps \<^verbatim>\<open>access_logs\<close> in a
  separate one). \<open>audit_io\<close> is what a call meets from outside: the clock, the driver error of a
  statement (by the label below), the error of the context before a walk's n-th row, the text Postgres gives back for a \<^verbatim>\<open>UUID\<close> it stored, and the text
  \<^verbatim>\<open>json.Marshal\<close> writes and \<^verbatim>\<open>json.Unmarshal\<close> reads. An \<^verbatim>\<open>INSERT\<close> of one row that reports no error affects one row, so the
  \<^verbatim>\<open>RowsAffected\<close> branches of the writers cannot be taken and are left out.
\<close>

section \<open>Tables\<close>

record access_row =
  al_id :: int
  al_external_id :: string
  al_method :: string
  al_status_code :: int
  al_ip_address :: "string option"
  al_correlation_id :: "string option"
  al_request_params :: "string option"
  al_response_status :: "int option"
  al_hash_format_version :: int
  al_created_at :: time
  al_entry_hash :: "string option"
  al_buffer_seq :: "int option"
  al_chain_name :: string
  al_org_id :: "string option"
  al_denial_reason :: "string option"

record rbac_row =
  rr_id :: int
  rr_actor_id :: "string option"
  rr_actor_external_id :: "string option"
  rr_action :: string
  rr_resource_type :: string
  rr_resource_id :: "string option"
  rr_resource_name :: "string option"
  rr_org_id :: "string option"
  rr_old_value :: "string option"
  rr_new_value :: "string option"
  rr_ip_address :: "string option"
  rr_created_at :: time
  rr_entry_hash :: "string option"
  rr_hash_format_version :: int

record AuditChainAnchor =
  an_LastPrunedID :: int
  an_LastPrunedEntryHash :: string
  an_LastPrunedAt :: time

record audit_db =
  ad_access_seq :: int
  ad_access :: "access_row list"
  ad_rbac_seq :: int
  ad_rbac :: "rbac_row list"
  ad_anchors :: "(string \<times> AuditChainAnchor) list"
  ad_checkpoints :: "Checkpoint list"
  ad_reanchors :: "ReAnchor list"

record audit_io =
  io_now :: time
  io_fail :: "string \<Rightarrow> string option"
  io_cancel :: "int \<Rightarrow> string option"
  io_uuid :: "string \<Rightarrow> string option"
  io_marshal :: "(string \<times> json) list \<Rightarrow> string res"
  io_unmarshal :: "string \<Rightarrow> (string \<times> json) list res"

definition ChainNameAccessLogs :: string where
  "ChainNameAccessLogs = ''access_logs''"

definition ChainNameRBACAuditLog :: string where
  "ChainNameRBACAuditLog = ''rbac_audit_log''"

definition access_by_id :: "(access_row \<Rightarrow> bool) \<Rightarrow> audit_db \<Rightarrow> access_row list" where
  "access_by_id P d = sort_key al_id (filter P (ad_access d))"

definition rbac_by_id :: "(rbac_row \<Rightarrow> bool) \<Rightarrow> audit_db \<Rightarrow> rbac_row list" where
  "rbac_by_id P d = sort_key rr_id (filter P (ad_rbac d))"

text \<open>
  \<^verbatim>\<open>nextval\<close>: a number once handed out is gone, whatever becomes of the row. The sequence of
  \<^verbatim>\<open>access_logs\<close> is declared \<^verbatim>\<open>AS integer\<close> and ends at 2147483647; \<^verbatim>\<open>rbac_audit_log.id\<close> is a
  \<^verbatim>\<open>BIGSERIAL\<close>.
\<close>

definition nextval_access :: "audit_io \<Rightarrow> audit_db \<Rightarrow> audit_db \<times> int res" where
  "nextval_access io d =
     (case io_fail io ''nextval access_logs'' of
        Some e \<Rightarrow> (d, Inl e)
      | None \<Rightarrow>
          if ad_access_seq d \<ge> 2147483647
          then (d, Inl ''nextval: reached maximum value of sequence access_logs_id_seq'')
          else (d\<lparr>ad_access_seq := ad_access_seq d + 1\<rparr>, Inr (ad_access_seq d + 1)))"

definition nextval_rbac :: "audit_io \<Rightarrow> audit_db \<Rightarrow> audit_db \<times> int res" where
  "nextval_rbac io d =
     (case io_fail io ''nextval rbac_audit_log'' of
        Some e \<Rightarrow> (d, Inl e)
      | None \<Rightarrow>
          if ad_rbac_seq d \<ge> 2 ^ 63 - 1
          then (d, Inl ''nextval: reached maximum value of sequence rbac_audit_log_id_seq'')
          else (d\<lparr>ad_rbac_seq := ad_rbac_seq d + 1\<rparr>, Inr (ad_rbac_seq d + 1)))"

text \<open>
  \<^verbatim>\<open>INSERT INTO access_logs\<close> with the constraints of the table: the primary key, and the unique index
  on \<^verbatim>\<open>buffer_seq\<close>, which ranges over all chains.
\<close>

definition insert_access :: "audit_io \<Rightarrow> access_row \<Rightarrow> audit_db \<Rightarrow> audit_db \<times> string option" where
  "insert_access io r d =
     (case io_fail io ''insert access_logs'' of
        Some e \<Rightarrow> (d, Some e)
      | None \<Rightarrow>
          if al_id r \<in> set (map al_id (ad_access d))
          then (d, Some ''duplicate key value violates unique constraint access_logs_pkey'')
          else if al_buffer_seq r \<noteq> None \<and> al_buffer_seq r \<in> set (map al_buffer_seq (ad_access d))
          then (d, Some ''duplicate key value violates unique constraint access_logs_buffer_seq_uniq'')
          else (d\<lparr>ad_access := ad_access d @ [r]\<rparr>, None))"

text \<open>
  \<^verbatim>\<open>INSERT INTO rbac_audit_log\<close>: the \<^verbatim>\<open>UUID\<close> columns are parsed, and read back in Postgres' own
  spelling.
\<close>

definition uuid_column :: "audit_io \<Rightarrow> string option \<Rightarrow> string option res" where
  "uuid_column io v =
     (case v of
        None \<Rightarrow> Inr None
      | Some s \<Rightarrow> (case io_uuid io s of
                    None \<Rightarrow> Inl ''invalid input syntax for type uuid''
                  | Some u \<Rightarrow> Inr (Some u)))"

definition insert_rbac :: "audit_io \<Rightarrow> rbac_row \<Rightarrow> audit_db \<Rightarrow> audit_db \<times> string option" where
  "insert_rbac io r d =
     (case io_fail io ''insert rbac_audit_log'' of
        Some e \<Rightarrow> (d, Some e)
      | None \<Rightarrow>
          (case uuid_column io (rr_actor_id r) of
             Inl e \<Rightarrow> (d, Some e)
           | Inr actor \<Rightarrow>
               (case uuid_column io (rr_resource_id r) of
                  Inl e \<Rightarrow> (d, Some e)
                | Inr resource \<Rightarrow>
                    (case uuid_column io (rr_org_id r) of
                       Inl e \<Rightarrow> (d, Some e)
                     | Inr org \<Rightarrow>
                         if rr_id r \<in> set (map rr_id (ad_rbac d))
                         then (d, Some ''duplicate key value violates unique constraint rbac_audit_log_pkey'')
                         else (d\<lparr>ad_rbac := ad_rbac d @
                                 [r\<lparr>rr_actor_id := actor, rr_resource_id := resource, rr_org_id := org\<rparr>]\<rparr>, None)))))"

section \<open>Writers of access\_logs\<close>

record AccessLogRecord =
  rec_ExternalID :: string
  rec_Method :: string
  rec_StatusCode :: int
  rec_IPAddress :: string
  rec_CorrelationID :: string
  rec_Params :: "string option"
  rec_ResponseStatus :: "int option"
  rec_OrgID :: string
  rec_DenialReason :: string

definition nullableText :: "string \<Rightarrow> string option" where
  "nullableText s = (if s = [] then None else Some s)"

definition access_row_of ::
  "AccessLogRecord \<Rightarrow> int \<Rightarrow> time \<Rightarrow> string option \<Rightarrow> int option \<Rightarrow> string \<Rightarrow> access_row" where
  "access_row_of rec rowID createdAt hash bufferSeq chainName =
     \<lparr>al_id = rowID, al_external_id = rec_ExternalID rec, al_method = rec_Method rec,
      al_status_code = rec_StatusCode rec, al_ip_address = Some (rec_IPAddress rec),
      al_correlation_id = (if rec_CorrelationID rec \<noteq> [] then Some (rec_CorrelationID rec) else None),
      al_request_params = rec_Params rec, al_response_status = rec_ResponseStatus rec,
      al_hash_format_version = 2, al_created_at = createdAt, al_entry_hash = hash,
      al_buffer_seq = bufferSeq, al_chain_name = chainName,
      al_org_id = nullableText (rec_OrgID rec), al_denial_reason = nullableText (rec_DenialReason rec)\<rparr>"

definition access_build ::
  "audit_io \<Rightarrow> string \<Rightarrow> AccessLogRecord \<Rightarrow> int option \<Rightarrow> string \<Rightarrow> audit_db chain_build" where
  "access_build io label rec bufferSeq chainName prev d =
     (let respStatus = (case rec_ResponseStatus rec of Some rs \<Rightarrow> rs | None \<Rightarrow> rec_StatusCode rec) in
      case nextval_access io d of
        (d1, Inl scanErr) \<Rightarrow> (d1, Inl (''reserve access_logs id: '' @ scanErr))
      | (d1, Inr rowID) \<Rightarrow>
          (let createdAt = truncate_micro (io_now io);
               paramsDigest = (case rec_Params rec of Some p \<Rightarrow> p | None \<Rightarrow> []);
               content = AccessLogChainContent rowID (rec_ExternalID rec) (rec_Method rec)
                 (rec_IPAddress rec) (rec_StatusCode rec) respStatus createdAt
                 (rec_CorrelationID rec) paramsDigest;
               write = (\<lambda>hash d2.
                 case insert_access io (access_row_of rec rowID createdAt (Some hash) bufferSeq chainName) d2 of
                   (d3, Some execErr) \<Rightarrow> (d3, Some (label @ execErr))
                 | (d3, None) \<Rightarrow> (d3, None))
           in (d1, Inr (content, Some write))))"

definition LogAccessEnhanced :: "audit_io \<Rightarrow> AccessLogRecord \<Rightarrow> audit_db \<Rightarrow> audit_db \<times> (int \<times> time) res" where
  "LogAccessEnhanced io rec d =
     (case nextval_access io d of
        (d1, Inl e) \<Rightarrow> (d1, Inl (''failed to log enhanced access: '' @ e))
      | (d1, Inr rowID) \<Rightarrow>
          (let createdAt = truncate_micro (io_now io) in
           case insert_access io (access_row_of rec rowID createdAt None None ChainNameAccessLogs) d1 of
             (d2, Some e) \<Rightarrow> (d2, Inl (''failed to log enhanced access: '' @ e))
           | (d2, None) \<Rightarrow> (d2, Inr (rowID, createdAt))))"

text \<open>
  \<^verbatim>\<open>LogAccess\<close>, the fallback of the hot path: a row without hash, correlation id, parameters or
  organization.
\<close>

definition LogAccess :: "audit_io \<Rightarrow> string \<Rightarrow> string \<Rightarrow> int \<Rightarrow> string \<Rightarrow> audit_db \<Rightarrow> audit_db \<times> string option" where
  "LogAccess io externalID method' statusCode ipAddress d =
     (case nextval_access io d of
        (d1, Inl e) \<Rightarrow> (d1, Some e)
      | (d1, Inr rowID) \<Rightarrow>
          insert_access io
            (access_row_of \<lparr>rec_ExternalID = externalID, rec_Method = method', rec_StatusCode = statusCode,
               rec_IPAddress = ipAddress, rec_CorrelationID = [], rec_Params = None,
               rec_ResponseStatus = None, rec_OrgID = [], rec_DenialReason = []\<rparr>
               rowID (truncate_micro (io_now io)) None None ChainNameAccessLogs) d1)"

text \<open>
  \<^verbatim>\<open>LogAccessChained\<close> and \<^verbatim>\<open>SealBufferedAccessLog\<close>. The first leaves \<^verbatim>\<open>chain_name\<close> and \<^verbatim>\<open>buffer_seq\<close> to
  their defaults. A \<^verbatim>\<open>nil\<close> chain is \<^const>\<open>None\<close>. The row's id is the value the sequence was
  left at.
\<close>

definition LogAccessChained ::
  "audit_io \<Rightarrow> HashChain option \<Rightarrow> AccessLogRecord \<Rightarrow> audit_db \<Rightarrow>
     HashChain option \<times> audit_db \<times> (int \<times> time \<times> string) res" where
  "LogAccessChained io chain rec d =
     (case chain of
        None \<Rightarrow>
          (case LogAccessEnhanced io rec d of
             (d', Inl e) \<Rightarrow> (None, d', Inl e)
           | (d', Inr (rowID, createdAt)) \<Rightarrow> (None, d', Inr (rowID, createdAt, [])))
      | Some h \<Rightarrow>
          (case Append h d (access_build io ''insert access_logs: '' rec None ChainNameAccessLogs) of
             (h', d', Inl e) \<Rightarrow> (Some h', d', Inl e)
           | (h', d', Inr hash) \<Rightarrow>
               (Some h', d', Inr (ad_access_seq d', truncate_micro (io_now io), hash))))"

definition SealBufferedAccessLog ::
  "audit_io \<Rightarrow> HashChain option \<Rightarrow> AccessLogRecord \<Rightarrow> int \<Rightarrow> string \<Rightarrow> audit_db \<Rightarrow>
     HashChain option \<times> audit_db \<times> string res" where
  "SealBufferedAccessLog io chain rec bufferSeq chainName d =
     (case chain of
        None \<Rightarrow> (None, d, Inl ''seal access log: nil chain'')
      | Some h \<Rightarrow>
          (case Append h d (access_build io ''insert access_logs (seal): '' rec (Some bufferSeq) chainName) of
             (h', d', r) \<Rightarrow> (Some h', d', r)))"

definition UpdateAccessLogHash :: "audit_io \<Rightarrow> int \<Rightarrow> string \<Rightarrow> audit_db \<Rightarrow> audit_db \<times> string option" where
  "UpdateAccessLogHash io rowID hash d =
     (case io_fail io ''update access_logs'' of
        Some e \<Rightarrow> (d, Some e)
      | None \<Rightarrow>
          (d\<lparr>ad_access := map (\<lambda>r. if al_id r = rowID then r\<lparr>al_entry_hash := Some hash\<rparr> else r) (ad_access d)\<rparr>,
           None))"

section \<open>Writers of rbac\_audit\_log\<close>

record AuditLogEntry =
  ae_ID :: int
  ae_ActorID :: "string option"
  ae_ActorExternalID :: string
  ae_Action :: string
  ae_ResourceType :: string
  ae_ResourceID :: "string option"
  ae_ResourceName :: string
  ae_OrgID :: "string option"
  ae_OldValue :: "(string \<times> json) list option"
  ae_NewValue :: "(string \<times> json) list option"
  ae_IPAddress :: string
  ae_CreatedAt :: time

definition deref :: "string option \<Rightarrow> string" where
  "deref v = (case v of Some s \<Rightarrow> s | None \<Rightarrow> [])"

definition buildRBACAuditContent ::
  "int \<Rightarrow> time \<Rightarrow> AuditLogEntry \<Rightarrow> string option \<Rightarrow> string option \<Rightarrow> string" where
  "buildRBACAuditContent rowID createdAt entry oldValue newValue =
     join_bar [''v1'', itoa rowID, ae_ActorExternalID entry, ae_Action entry, ae_ResourceType entry,
       deref (ae_ResourceID entry), ae_ResourceName entry, deref (ae_OrgID entry), ae_IPAddress entry,
       rfc3339_nano createdAt, deref oldValue, deref newValue]"

definition rbac_row_of ::
  "AuditLogEntry \<Rightarrow> string option \<Rightarrow> string option \<Rightarrow> int \<Rightarrow> time \<Rightarrow> string option \<Rightarrow> rbac_row" where
  "rbac_row_of entry oldValue newValue rowID createdAt hash =
     \<lparr>rr_id = rowID, rr_actor_id = ae_ActorID entry, rr_actor_external_id = Some (ae_ActorExternalID entry),
      rr_action = ae_Action entry, rr_resource_type = ae_ResourceType entry,
      rr_resource_id = ae_ResourceID entry, rr_resource_name = Some (ae_ResourceName entry),
      rr_org_id = ae_OrgID entry, rr_old_value = oldValue, rr_new_value = newValue,
      rr_ip_address = Some (ae_IPAddress entry), rr_created_at = createdAt, rr_entry_hash = hash,
      rr_hash_format_version = 1\<rparr>"

definition marshal_value :: "audit_io \<Rightarrow> string \<Rightarrow> (string \<times> json) list option \<Rightarrow> string option res" where
  "marshal_value io what v =
     (case v of
        None \<Rightarrow> Inr None
      | Some m \<Rightarrow> (case io_marshal io m of
                    Inl e \<Rightarrow> Inl (''failed to marshal '' @ what @ '' value: '' @ e)
                  | Inr b \<Rightarrow> Inr (Some b)))"

definition insertAuditLogLegacy ::
  "audit_io \<Rightarrow> AuditLogEntry \<Rightarrow> string option \<Rightarrow> string option \<Rightarrow> audit_db \<Rightarrow> audit_db \<times> AuditLogEntry res" where
  "insertAuditLogLegacy io entry oldValue newValue d =
     (case nextval_rbac io d of
        (d1, Inl e) \<Rightarrow> (d1, Inl e)
      | (d1, Inr rowID) \<Rightarrow>
          (let createdAt = truncate_micro (io_now io) in
           case insert_rbac io (rbac_row_of entry oldValue newValue rowID createdAt None) d1 of
             (d2, Some e) \<Rightarrow> (d2, Inl e)
           | (d2, None) \<Rightarrow> (d2, Inr (entry\<lparr>ae_ID := rowID, ae_CreatedAt := createdAt\<rparr>))))"

definition rbac_build ::
  "audit_io \<Rightarrow> AuditLogEntry \<Rightarrow> string option \<Rightarrow> string option \<Rightarrow> audit_db chain_build" where
  "rbac_build io entry oldValue newValue prev d =
     (case nextval_rbac io d of
        (d1, Inl scanErr) \<Rightarrow> (d1, Inl (''reserve rbac_audit_log id: '' @ scanErr))
      | (d1, Inr rowID) \<Rightarrow>
          (let createdAt = truncate_micro (io_now io);
               content = buildRBACAuditContent rowID createdAt entry oldValue newValue;
               write = (\<lambda>hash d2.
                 case insert_rbac io (rbac_row_of entry oldValue newValue rowID createdAt (Some hash)) d2 of
                   (d3, Some execErr) \<Rightarrow> (d3, Some (''insert rbac_audit_log: '' @ execErr))
                 | (d3, None) \<Rightarrow> (d3, None))
           in (d1, Inr (content, Some write))))"

definition CreateAuditLog ::
  "audit_io \<Rightarrow> HashChain option \<Rightarrow> AuditLogEntry \<Rightarrow> audit_db \<Rightarrow>
     HashChain option \<times> audit_db \<times> AuditLogEntry res" where
  "CreateAuditLog io chain entry d =
     (case marshal_value io ''old'' (ae_OldValue entry) of
        Inl e \<Rightarrow> (chain, d, Inl e)
      | Inr oldValue \<Rightarrow>
          (case marshal_value io ''new'' (ae_NewValue entry) of
             Inl e \<Rightarrow> (chain, d, Inl e)
           | Inr newValue \<Rightarrow>
               (case chain of
                  None \<Rightarrow>
                    (case insertAuditLogLegacy io entry oldValue newValue d of (d', r) \<Rightarrow> (None, d', r))
                | Some h \<Rightarrow>
                    (case Append h d (rbac_build io entry oldValue newValue) of
                       (h', d', Inl e) \<Rightarrow> (Some h', d', Inl e)
                     | (h', d', Inr _) \<Rightarrow>
                         (Some h', d', Inr (entry\<lparr>ae_ID := ad_rbac_seq d',
                                                ae_CreatedAt := truncate_micro (io_now io)\<rparr>))))))"

text \<open>
  \<^verbatim>\<open>LogAuditAction\<close>, the audit-of-the-audit row of the retention manager: a statement of its own, past
  the installed chain.
\<close>

definition LogAuditAction ::
  "audit_io \<Rightarrow> string \<Rightarrow> (string \<times> json) list \<Rightarrow> audit_db \<Rightarrow> audit_db \<times> string option" where
  "LogAuditAction io action details d =
     (case (if details = [] then Inr None else
              case io_marshal io details of
                Inl e \<Rightarrow> Inl (''marshal audit details: '' @ e) | Inr b \<Rightarrow> Inr (Some b)) of
        Inl e \<Rightarrow> (d, Some e)
      | Inr detailsJSON \<Rightarrow>
          (case nextval_rbac io d of
             (d1, Inl e) \<Rightarrow> (d1, Some (''insert rbac_audit_log: '' @ e))
           | (d1, Inr rowID) \<Rightarrow>
               (case insert_rbac io
                  \<lparr>rr_id = rowID, rr_actor_id = None, rr_actor_external_id = Some ''system:retention'',
                   rr_action = action, rr_resource_type = ''audit_log'', rr_resource_id = None,
                   rr_resource_name = None, rr_org_id = None, rr_old_value = None,
                   rr_new_value = detailsJSON, rr_ip_address = None,
                   rr_created_at = truncate_micro (io_now io), rr_entry_hash = None,
                   rr_hash_format_version = 1\<rparr> d1 of
                  (d2, Some e) \<Rightarrow> (d2, Some (''insert rbac_audit_log: '' @ e))
                | (d2, None) \<Rightarrow> (d2, None))))"

section \<open>Anchors, checkpoints, statistics, seeds\<close>

definition GetAuditChainAnchor :: "audit_io \<Rightarrow> string \<Rightarrow> audit_db \<Rightarrow> AuditChainAnchor option res" where
  "GetAuditChainAnchor io chainName d =
     (case io_fail io ''select audit_chain_anchor'' of
        Some e \<Rightarrow> Inl (''failed to read audit chain anchor '' @ fmt_q chainName @ '': '' @ e)
      | None \<Rightarrow> Inr (map_of (ad_anchors d) chainName))"

definition upsertAuditChainAnchorTx ::
  "audit_io \<Rightarrow> string \<Rightarrow> int \<Rightarrow> string \<Rightarrow> audit_db \<Rightarrow> audit_db res" where
  "upsertAuditChainAnchorTx io chainName lastPrunedID lastPrunedEntryHash d =
     (case io_fail io ''upsert audit_chain_anchor'' of
        Some e \<Rightarrow> Inl (''failed to upsert audit chain anchor '' @ fmt_q chainName @ '': '' @ e)
      | None \<Rightarrow>
          Inr (d\<lparr>ad_anchors := AList.update chainName
                   \<lparr>an_LastPrunedID = lastPrunedID, an_LastPrunedEntryHash = lastPrunedEntryHash,
                    an_LastPrunedAt = truncate_micro (io_now io)\<rparr> (ad_anchors d)\<rparr>))"

definition getAnchorHashTx :: "audit_io \<Rightarrow> string \<Rightarrow> audit_db \<Rightarrow> string res" where
  "getAnchorHashTx io chainName d =
     (case io_fail io ''select audit_chain_anchor'' of
        Some e \<Rightarrow> Inl (''failed to read existing anchor hash for '' @ fmt_q chainName @ '': '' @ e)
      | None \<Rightarrow> Inr (case map_of (ad_anchors d) chainName of None \<Rightarrow> [] | Some a \<Rightarrow> an_LastPrunedEntryHash a))"

definition WriteAuditChainCheckpoint :: "audit_io \<Rightarrow> Checkpoint \<Rightarrow> audit_db \<Rightarrow> audit_db res" where
  "WriteAuditChainCheckpoint io c d =
     (case io_fail io ''insert audit_chain_checkpoint'' of
        Some e \<Rightarrow> Inl (''write audit chain checkpoint: '' @ e)
      | None \<Rightarrow>
          Inr (d\<lparr>ad_checkpoints := ad_checkpoints d @ [c\<lparr>ck_CreatedAt := truncate_micro (ck_CreatedAt c)\<rparr>]\<rparr>))"

definition GetLatestAuditChainCheckpoint :: "audit_io \<Rightarrow> string \<Rightarrow> audit_db \<Rightarrow> Checkpoint option res" where
  "GetLatestAuditChainCheckpoint io chainName d =
     (case io_fail io ''select audit_chain_checkpoint'' of
        Some e \<Rightarrow> Inl (''get latest audit chain checkpoint: '' @ e)
      | None \<Rightarrow> Inr (find (\<lambda>c. ck_ChainName c = chainName) (rev (ad_checkpoints d))))"

definition WriteAuditChainReAnchor :: "audit_io \<Rightarrow> ReAnchor \<Rightarrow> audit_db \<Rightarrow> audit_db res" where
  "WriteAuditChainReAnchor io r d =
     (case io_fail io ''insert audit_chain_reanchor'' of
        Some e \<Rightarrow> Inl (''write audit chain re-anchor: '' @ e)
      | None \<Rightarrow> Inr (d\<lparr>ad_reanchors := ad_reanchors d @ [r\<lparr>ra_CreatedAt := truncate_micro (ra_CreatedAt r)\<rparr>]\<rparr>))"

definition GetAccessLogChainStats :: "audit_io \<Rightarrow> string \<Rightarrow> audit_db \<Rightarrow> (int \<times> int \<times> string) res" where
  "GetAccessLogChainStats io chainName d =
     (case io_fail io ''count access_logs'' of
        Some e \<Rightarrow> Inl (''count access_logs: '' @ e)
      | None \<Rightarrow>
          (let rows = access_by_id (\<lambda>r. al_chain_name r = chainName) d in
           if rows = [] then Inr (0, 0, [])
           else case io_fail io ''select access_logs'' of
             Some e \<Rightarrow> Inl (''head access_logs: '' @ e)
           | None \<Rightarrow> Inr (int (length rows), al_id (last rows), deref (al_entry_hash (last rows)))))"

text \<open>
  The two seed readers share the resolution order: the newest hash, else the anchor, else nothing. A
  newest row whose hash is the empty string falls through to the anchor.
\<close>

definition seed_or_anchor :: "audit_io \<Rightarrow> string \<Rightarrow> string option \<Rightarrow> audit_db \<Rightarrow> string res" where
  "seed_or_anchor io chainName newest d =
     (if newest \<noteq> None \<and> newest \<noteq> Some [] then Inr (deref newest)
      else case GetAuditChainAnchor io chainName d of
        Inl e \<Rightarrow> Inl e
      | Inr None \<Rightarrow> Inr []
      | Inr (Some anchor) \<Rightarrow> Inr (an_LastPrunedEntryHash anchor))"

definition GetLatestRBACAuditLogHash :: "audit_io \<Rightarrow> audit_db \<Rightarrow> string res" where
  "GetLatestRBACAuditLogHash io d =
     (case io_fail io ''select rbac_audit_log'' of
        Some e \<Rightarrow> Inl (''failed to get latest rbac audit log hash: '' @ e)
      | None \<Rightarrow>
          (let rows = rbac_by_id (\<lambda>r. rr_entry_hash r \<noteq> None) d
           in seed_or_anchor io ChainNameRBACAuditLog
                (if rows = [] then None else rr_entry_hash (last rows)) d))"

definition GetLatestAccessLogHash :: "audit_io \<Rightarrow> audit_db \<Rightarrow> string res" where
  "GetLatestAccessLogHash io d =
     (case io_fail io ''select access_logs'' of
        Some e \<Rightarrow> Inl (''failed to get latest access log hash: '' @ e)
      | None \<Rightarrow>
          (let rows = access_by_id (\<lambda>r. al_entry_hash r \<noteq> None) d
           in seed_or_anchor io ChainNameAccessLogs
                (if rows = [] then None else al_entry_hash (last rows)) d))"

definition GetLatestAccessLogHashForChain :: "audit_io \<Rightarrow> string \<Rightarrow> audit_db \<Rightarrow> string res" where
  "GetLatestAccessLogHashForChain io chainName d =
     (case io_fail io ''select access_logs'' of
        Some e \<Rightarrow> Inl (''get latest access log hash for chain '' @ fmt_q chainName @ '': '' @ e)
      | None \<Rightarrow>
          (let rows = access_by_id (\<lambda>r. al_chain_name r = chainName \<and> al_entry_hash r \<noteq> None) d
           in seed_or_anchor io chainName (if rows = [] then None else al_entry_hash (last rows)) d))"

definition GetMaxAccessLogBufferSeq :: "audit_io \<Rightarrow> string \<Rightarrow> audit_db \<Rightarrow> nat res" where
  "GetMaxAccessLogBufferSeq io chainName d =
     (case io_fail io ''max buffer_seq'' of
        Some e \<Rightarrow> Inl (''max access_logs buffer_seq: '' @ e)
      | None \<Rightarrow>
          (let seqs = List.map_filter al_buffer_seq (filter (\<lambda>r. al_chain_name r = chainName) (ad_access d))
           in if seqs = [] \<or> Max (set seqs) < 0 then Inr 0 else Inr (nat (Max (set seqs)))))"

section \<open>Listing rbac\_audit\_log\<close>

text \<open>
  \<^verbatim>\<open>scanAuditLogs\<close> reads \<^verbatim>\<open>actor_external_id\<close>, \<^verbatim>\<open>resource_name\<close> and \<^verbatim>\<open>ip_address\<close> into plain strings, which
  \<^verbatim>\<open>database/sql\<close> refuses for NULL.
\<close>

definition scan_string :: "string option \<Rightarrow> string res" where
  "scan_string v = (case v of None \<Rightarrow> Inl ''converting NULL to string is unsupported'' | Some s \<Rightarrow> Inr s)"

definition unmarshal_value :: "audit_io \<Rightarrow> string \<Rightarrow> string option \<Rightarrow> (string \<times> json) list option res" where
  "unmarshal_value io what v =
     (if deref v = [] then Inr None
      else case io_unmarshal io (deref v) of
        Inl e \<Rightarrow> Inl (''failed to unmarshal '' @ what @ '' value: '' @ e)
      | Inr m \<Rightarrow> Inr (Some m))"

definition scan_audit_row :: "audit_io \<Rightarrow> rbac_row \<Rightarrow> AuditLogEntry res" where
  "scan_audit_row io r =
     (case scan_string (rr_actor_external_id r) of
        Inl e \<Rightarrow> Inl (''failed to scan audit log: '' @ e)
      | Inr actorExt \<Rightarrow>
          (case scan_string (rr_resource_name r) of
             Inl e \<Rightarrow> Inl (''failed to scan audit log: '' @ e)
           | Inr resourceName \<Rightarrow>
               (case scan_string (rr_ip_address r) of
                  Inl e \<Rightarrow> Inl (''failed to scan audit log: '' @ e)
                | Inr ip \<Rightarrow>
                    (case unmarshal_value io ''old'' (rr_old_value r) of
                       Inl e \<Rightarrow> Inl e
                     | Inr oldValue \<Rightarrow>
                         (case unmarshal_value io ''new'' (rr_new_value r) of
                            Inl e \<Rightarrow> Inl e
                          | Inr newValue \<Rightarrow>
                              Inr \<lparr>ae_ID = rr_id r, ae_ActorID = rr_actor_id r, ae_ActorExternalID = actorExt,
                                   ae_Action = rr_action r, ae_ResourceType = rr_resource_type r,
                                   ae_ResourceID = rr_resource_id r, ae_ResourceName = resourceName,
                                   ae_OrgID = rr_org_id r, ae_OldValue = oldValue, ae_NewValue = newValue,
                                   ae_IPAddress = ip, ae_CreatedAt = rr_created_at r\<rparr>)))))"

fun scanAuditLogs :: "audit_io \<Rightarrow> rbac_row list \<Rightarrow> AuditLogEntry list res" where
  "scanAuditLogs io [] = Inr []"
| "scanAuditLogs io (r # rs) =
     (case scan_audit_row io r of
        Inl e \<Rightarrow> Inl e
      | Inr entry \<Rightarrow> (case scanAuditLogs io rs of Inl e \<Rightarrow> Inl e | Inr es \<Rightarrow> Inr (entry # es)))"

definition newest_page :: "(rbac_row \<Rightarrow> bool) \<Rightarrow> nat \<Rightarrow> nat \<Rightarrow> audit_db \<Rightarrow> rbac_row list" where
  "newest_page P limit offset d =
     take limit (drop offset (sort_key (\<lambda>r. - rr_created_at r) (filter P (ad_rbac d))))"

definition in_scope :: "string list option \<Rightarrow> rbac_row \<Rightarrow> bool" where
  "in_scope scopedOrgIDs r =
     (case scopedOrgIDs of
        None \<Rightarrow> True
      | Some orgs \<Rightarrow> (case rr_org_id r of None \<Rightarrow> False | Some org \<Rightarrow> org \<in> set orgs))"

definition ListAuditLogsScoped ::
  "audit_io \<Rightarrow> string \<Rightarrow> string option \<Rightarrow> string list option \<Rightarrow> nat \<Rightarrow> nat \<Rightarrow> audit_db \<Rightarrow> AuditLogEntry list res" where
  "ListAuditLogsScoped io resourceType resourceID scopedOrgIDs limit offset d =
     (if scopedOrgIDs = Some [] then Inr []
      else case io_fail io ''list rbac_audit_log'' of
        Some e \<Rightarrow> Inl (''failed to list audit logs: '' @ e)
      | None \<Rightarrow>
          scanAuditLogs io (newest_page (\<lambda>r. rr_resource_type r = resourceType \<and>
            (resourceID \<noteq> None \<longrightarrow> rr_resource_id r = resourceID) \<and> in_scope scopedOrgIDs r) limit offset d))"

definition ListAuditLogsByActorScoped ::
  "audit_io \<Rightarrow> string \<Rightarrow> string list option \<Rightarrow> nat \<Rightarrow> nat \<Rightarrow> audit_db \<Rightarrow> AuditLogEntry list res" where
  "ListAuditLogsByActorScoped io actorID scopedOrgIDs limit offset d =
     (if scopedOrgIDs = Some [] then Inr []
      else case io_fail io ''list rbac_audit_log'' of
        Some e \<Rightarrow> Inl (''failed to list audit logs: '' @ e)
      | None \<Rightarrow>
          scanAuditLogs io (newest_page (\<lambda>r. rr_actor_id r = Some actorID \<and> in_scope scopedOrgIDs r) limit offset d))"

section \<open>Pruning\<close>

record PruneResult =
  pr_Deleted :: int
  pr_LowestID :: int
  pr_HighestID :: int
  pr_AnchorHash :: string

definition no_prune :: PruneResult where
  "no_prune = \<lparr>pr_Deleted = 0, pr_LowestID = 0, pr_HighestID = 0, pr_AnchorHash = []\<rparr>"

text \<open>
  A transaction: an error of its body or of the commit leaves the tables as they were.
  \<^verbatim>\<open>tx_error\<close> is the first failure among the statements a body runs in order, with the text the code
  puts in front of it; \<^verbatim>\<open>RowsAffected\<close> does not fail with this driver.
\<close>

definition WithTx :: "audit_io \<Rightarrow> (audit_db \<Rightarrow> audit_db \<times> 'a res) \<Rightarrow> audit_db \<Rightarrow> audit_db \<times> 'a res" where
  "WithTx io fn d =
     (case io_fail io ''begin'' of
        Some e \<Rightarrow> (d, Inl (''failed to begin transaction: '' @ e))
      | None \<Rightarrow>
          (case fn d of
             (_, Inl e) \<Rightarrow>
               (d, Inl (case io_fail io ''rollback'' of
                          None \<Rightarrow> e
                        | Some rb \<Rightarrow> ''tx failed: '' @ e @ [CHR 0x0A] @ ''rollback failed: '' @ rb))
           | (d', Inr r) \<Rightarrow>
               (case io_fail io ''commit'' of Some e \<Rightarrow> (d, Inl e) | None \<Rightarrow> (d', Inr r))))"

fun tx_error :: "audit_io \<Rightarrow> (string \<times> string) list \<Rightarrow> string option" where
  "tx_error io [] = None"
| "tx_error io ((label, msg) # ls) =
     (case io_fail io label of Some e \<Rightarrow> Some (msg @ e) | None \<Rightarrow> tx_error io ls)"

text \<open>
  The end of both pruning transactions: the anchor of chain \<^verbatim>\<open>access_logs\<close> takes the last deleted row's id
  and hash, or keeps its old hash when that row has none.
\<close>

definition anchor_cut ::
  "audit_io \<Rightarrow> int \<Rightarrow> int \<Rightarrow> int \<Rightarrow> string option \<Rightarrow> audit_db \<Rightarrow> audit_db \<times> PruneResult res" where
  "anchor_cut io deleted firstID lastID cutHash d =
     (case (if deref cutHash = [] then getAnchorHashTx io ChainNameAccessLogs d else Inr (deref cutHash)) of
        Inl e \<Rightarrow> (d, Inl e)
      | Inr anchorHash \<Rightarrow>
          (case upsertAuditChainAnchorTx io ChainNameAccessLogs lastID anchorHash d of
             Inl e \<Rightarrow> (d, Inl e)
           | Inr d' \<Rightarrow> (d', Inr \<lparr>pr_Deleted = deleted, pr_LowestID = firstID, pr_HighestID = lastID,
                               pr_AnchorHash = anchorHash\<rparr>)))"

definition cleanup_access_tx :: "audit_io \<Rightarrow> time \<Rightarrow> audit_db \<Rightarrow> audit_db \<times> PruneResult res" where
  "cleanup_access_tx io olderThan d =
     (case tx_error io [(''prune lowest'', ''failed to read prune lowest id for access_logs: ''),
          (''prune cut'', ''failed to read prune cut for access_logs: ''),
          (''prune delete'', ''failed to cleanup access logs: '')] of
        Some e \<Rightarrow> (d, Inl e)
      | None \<Rightarrow>
          (let old = access_by_id (\<lambda>r. al_created_at r < olderThan) d;
               d' = d\<lparr>ad_access := filter (\<lambda>r. \<not> al_created_at r < olderThan) (ad_access d)\<rparr>
           in if old = [] then (d', Inr no_prune)
              else anchor_cut io (int (length old)) (al_id (hd old)) (al_id (last old))
                     (al_entry_hash (last old)) d'))"

definition CleanupAccessLogs :: "audit_io \<Rightarrow> time \<Rightarrow> audit_db \<Rightarrow> audit_db \<times> PruneResult res" where
  "CleanupAccessLogs io olderThan d = WithTx io (cleanup_access_tx io olderThan) d"

definition CountAccessLogsTotal :: "audit_io \<Rightarrow> audit_db \<Rightarrow> int res" where
  "CountAccessLogsTotal io d =
     (case io_fail io ''count access_logs'' of
        Some e \<Rightarrow> Inl (''failed to count access_logs: '' @ e)
      | None \<Rightarrow> Inr (int (length (ad_access d))))"

definition trim_tx :: "audit_io \<Rightarrow> int \<Rightarrow> int \<Rightarrow> audit_db \<Rightarrow> audit_db \<times> PruneResult res" where
  "trim_tx io maxRows batchSize d =
     (case tx_error io [(''trim count'', ''failed to count access_logs in trim: '')] of
        Some e \<Rightarrow> (d, Inl e)
      | None \<Rightarrow>
          (let total = int (length (ad_access d));
               excess = total - maxRows
           in if excess \<le> 0 then (d, Inr no_prune)
              else
                (case tx_error io [(''trim lowest'', ''failed to read FIFO lowest id: ''),
                     (''trim cut'', ''failed to read FIFO cut: ''),
                     (''trim delete'', ''failed to trim access_logs: '')] of
                   Some e \<Rightarrow> (d, Inl e)
                 | None \<Rightarrow>
                     (let toDelete = min excess batchSize;
                          rows = access_by_id (\<lambda>_. True) d;
                          cut = rows ! nat (toDelete - 1);
                          deleted = filter (\<lambda>r. al_id r \<le> al_id cut) (ad_access d);
                          d' = d\<lparr>ad_access := filter (\<lambda>r. \<not> al_id r \<le> al_id cut) (ad_access d)\<rparr>
                      in anchor_cut io (int (length deleted)) (al_id (hd rows)) (al_id cut)
                           (al_entry_hash cut) d'))))"

definition TrimAccessLogsFIFOBatch :: "audit_io \<Rightarrow> int \<Rightarrow> int \<Rightarrow> audit_db \<Rightarrow> audit_db \<times> PruneResult res" where
  "TrimAccessLogsFIFOBatch io maxRows batchSize d =
     (let maxRows' = (if maxRows < 0 then 0 else maxRows);
          batchSize' = (if batchSize \<le> 0 then 1000 else batchSize)
      in WithTx io (trim_tx io maxRows' batchSize') d)"

text \<open>
  The prune of \<^verbatim>\<open>rbac_audit_log\<close> is a bare \<^verbatim>\<open>DELETE\<close>.
\<close>

definition CleanupRBACAuditLogs :: "audit_io \<Rightarrow> time \<Rightarrow> audit_db \<Rightarrow> audit_db \<times> int res" where
  "CleanupRBACAuditLogs io olderThan d =
     (case io_fail io ''prune rbac_audit_log'' of
        Some e \<Rightarrow> (d, Inl (''failed to cleanup RBAC audit logs: '' @ e))
      | None \<Rightarrow>
          (d\<lparr>ad_rbac := filter (\<lambda>r. \<not> rr_created_at r < olderThan) (ad_rbac d)\<rparr>,
           Inr (int (length (filter (\<lambda>r. rr_created_at r < olderThan) (ad_rbac d))))))"

end
