(* ===== verification/Audit_Verifier.thy ===== *)
theory Audit_Verifier
  imports Audit_Store "HOL-Library.List_Lexorder" "HOL-Library.Char_ord"
begin

text \<open>
  The chain verifier with its truncation guard, the checkpoint worker, the break-glass re-anchor and the
  integrity worker's pass (\<^verbatim>\<open>audit/verifier.go\<close>, \<^verbatim>\<open>checkpoint_worker.go\<close>, \<^verbatim>\<open>reanchor.go\<close>,
  \<^verbatim>\<open>integrity_worker.go\<close>).

  A walk over rows either returns a result with an optional error, or finishes with the result so far and
  the last hash. \<open>Result\<close> leaves out \<^verbatim>\<open>StartedAt\<close> and \<^verbatim>\<open>FinishedAt\<close>, which nothing reads. The signer is
  \<^const>\<open>None\<close> when the guard is not configured; the checkpoint reader is the adapter over the database.
\<close>

section \<open>Results\<close>

record Result =
  vr_Chain :: string
  vr_OK :: bool
  vr_ScannedRows :: int
  vr_NullHashRows :: int
  vr_Seed :: string
  vr_TailHash :: string
  vr_FirstMismatchID :: int
  vr_FirstMismatchHash :: string
  vr_FirstMismatchExpect :: string
  vr_FirstMismatchTime :: time
  vr_FirstMismatchReason :: string

definition new_result :: "string \<Rightarrow> Result" where
  "new_result chain =
     \<lparr>vr_Chain = chain, vr_OK = True, vr_ScannedRows = 0, vr_NullHashRows = 0, vr_Seed = [],
      vr_TailHash = [], vr_FirstMismatchID = 0, vr_FirstMismatchHash = [], vr_FirstMismatchExpect = [],
      vr_FirstMismatchTime = 0, vr_FirstMismatchReason = []\<rparr>"

definition failed :: "string \<Rightarrow> Result \<Rightarrow> Result" where
  "failed reason res = res\<lparr>vr_OK := False, vr_FirstMismatchReason := reason\<rparr>"

datatype walk = Returned Result "string option" | Finished Result string

section \<open>Walking access\_logs\<close>

definition startingPrev :: "audit_io \<Rightarrow> string \<Rightarrow> audit_db \<Rightarrow> (string \<times> int) res" where
  "startingPrev io chain d =
     (case io_fail io ''select audit_chain_anchor'' of
        Some e \<Rightarrow> Inl (''read audit_chain_anchor for '' @ chain @ '': '' @ e)
      | None \<Rightarrow>
          (case map_of (ad_anchors d) chain of
             None \<Rightarrow> Inr ([], 0)
           | Some a \<Rightarrow> Inr (an_LastPrunedEntryHash a, an_LastPrunedID a)))"

definition access_content :: "access_row \<Rightarrow> string" where
  "access_content r =
     AccessLogChainContentV2 (al_id r) (al_external_id r) (al_method r) (deref (al_ip_address r))
       (al_status_code r)
       (case al_response_status r of None \<Rightarrow> al_status_code r | Some rs \<Rightarrow> rs)
       (al_created_at r) (deref (al_correlation_id r)) (deref (al_request_params r))"

definition null_hash :: "int \<Rightarrow> time \<Rightarrow> Result \<Rightarrow> Result" where
  "null_hash rowID createdAt res =
     (let res1 = res\<lparr>vr_NullHashRows := vr_NullHashRows res + 1\<rparr> in
      if vr_OK res1
      then res1\<lparr>vr_OK := False, vr_FirstMismatchReason := ''null_entry_hash'',
                vr_FirstMismatchID := rowID, vr_FirstMismatchTime := createdAt\<rparr>
      else res1)"

text \<open>
  The checks of one scanned row that both walks make: a stored hash, the format version, the hash.
\<close>

definition check_row ::
  "int \<Rightarrow> int \<Rightarrow> time \<Rightarrow> string option \<Rightarrow> int \<Rightarrow> string \<Rightarrow> Result \<Rightarrow> string \<Rightarrow> (Result \<Rightarrow> string \<Rightarrow> walk) \<Rightarrow> walk" where
  "check_row version rowID createdAt entryHash hashFormatVersion content res prev next_row =
     (let res1 = res\<lparr>vr_ScannedRows := vr_ScannedRows res + 1\<rparr>; stored = deref entryHash in
      if stored = [] then Finished (null_hash rowID createdAt res1) prev
      else if hashFormatVersion \<noteq> version
      then Returned ((failed ''unknown_hash_format_version'' res1)
             \<lparr>vr_FirstMismatchID := rowID, vr_FirstMismatchTime := createdAt,
              vr_FirstMismatchHash := stored\<rparr>) None
      else
        (let expect = computeChainHash prev content in
         if expect \<noteq> stored
         then Returned ((failed ''hash_mismatch'' res1)
                \<lparr>vr_FirstMismatchID := rowID, vr_FirstMismatchHash := stored,
                 vr_FirstMismatchExpect := expect, vr_FirstMismatchTime := createdAt\<rparr>) None
         else next_row res1 stored))"

fun walk_access :: "audit_io \<Rightarrow> access_row list \<Rightarrow> Result \<Rightarrow> string \<Rightarrow> walk" where
  "walk_access io [] res prev = Finished res prev"
| "walk_access io (r # rows) res prev =
     (case io_cancel io (vr_ScannedRows res) of
        Some e \<Rightarrow> Returned (failed ''context_canceled'' res) (Some e)
      | None \<Rightarrow>
          (case scan_string (al_ip_address r) of
             Inl e \<Rightarrow> Returned ((failed ''row_read_failed'' res)\<lparr>vr_FirstMismatchID := al_id r\<rparr>)
                       (Some (''scan access_logs row: '' @ e))
           | Inr _ \<Rightarrow>
               check_row 2 (al_id r) (al_created_at r) (al_entry_hash r) (al_hash_format_version r)
                 (access_content r) res prev (walk_access io rows)))"

definition verifyOneAccessLogChain ::
  "audit_io \<Rightarrow> string \<Rightarrow> audit_db \<Rightarrow> Result option \<times> string option" where
  "verifyOneAccessLogChain io chainName d =
     (let res = new_result ChainNameAccessLogs in
      case startingPrev io chainName d of
        Inl e \<Rightarrow> (Some (failed ''seed_read_failed'' res), Some e)
      | Inr (startPrev, anchorID) \<Rightarrow>
          (case io_fail io ''query access_logs'' of
             Some e \<Rightarrow> (None, Some (''query access_logs: '' @ e))
           | None \<Rightarrow>
               (case walk_access io (access_by_id (\<lambda>r. al_chain_name r = chainName \<and> al_id r > anchorID) d)
                       (res\<lparr>vr_Seed := startPrev\<rparr>) startPrev of
                  Returned res' e \<Rightarrow> (Some res', e)
                | Finished res' prev \<Rightarrow>
                    (case io_fail io ''iterate access_logs'' of
                       Some e \<Rightarrow> (None, Some (''iterate access_logs: '' @ e))
                     | None \<Rightarrow> (Some (res'\<lparr>vr_TailHash := prev\<rparr>), None)))))"

section \<open>The truncation guard and all chains of access\_logs\<close>

definition max_id :: "string \<Rightarrow> audit_db \<Rightarrow> int option" where
  "max_id chain d =
     (let rows = access_by_id (\<lambda>r. al_chain_name r = chain) d in
      if rows = [] then None else Some (al_id (last rows)))"

definition checkTruncation :: "audit_io \<Rightarrow> HMACSigner option \<Rightarrow> string \<Rightarrow> audit_db \<Rightarrow> Result \<Rightarrow> Result" where
  "checkTruncation io ckptSigner chain d res =
     (case ckptSigner of
        None \<Rightarrow> res
      | Some signer \<Rightarrow>
          (case GetLatestAuditChainCheckpoint io chain d of
             Inl _ \<Rightarrow> failed ''checkpoint_read_failed'' res
           | Inr None \<Rightarrow> res
           | Inr (Some c) \<Rightarrow>
               if VerifyCheckpoint signer c \<noteq> None then failed ''checkpoint_signature_invalid'' res
               else case io_fail io ''max id access_logs'' of
                 Some _ \<Rightarrow> failed ''checkpoint_read_failed'' res
               | None \<Rightarrow>
                   if checkpointTruncated (Some c) (max_id chain d)
                   then (failed ''chain_truncated'' res)
                          \<lparr>vr_FirstMismatchID := ck_HeadID c, vr_FirstMismatchExpect := ck_HeadHash c\<rparr>
                   else res))"

definition accessLogChainNames :: "audit_io \<Rightarrow> audit_db \<Rightarrow> string list res" where
  "accessLogChainNames io d =
     (case io_fail io ''distinct chain_name'' of
        Some e \<Rightarrow> Inl e
      | None \<Rightarrow>
          Inr (sort (remdups (filter (\<lambda>n. n \<noteq> [])
                 (map al_chain_name (ad_access d) @ map ck_ChainName (ad_checkpoints d))))))"

fun verify_chains ::
  "audit_io \<Rightarrow> HMACSigner option \<Rightarrow> audit_db \<Rightarrow> string list \<Rightarrow> Result \<Rightarrow> Result \<times> string option" where
  "verify_chains io signer d [] agg = (agg, None)"
| "verify_chains io signer d (cn # names) agg =
     (case verifyOneAccessLogChain io cn d of
        (None, e) \<Rightarrow> (agg, e)
      | (Some r, e) \<Rightarrow>
          (let agg1 = agg\<lparr>vr_ScannedRows := vr_ScannedRows agg + vr_ScannedRows r,
                          vr_NullHashRows := vr_NullHashRows agg + vr_NullHashRows r,
                          vr_TailHash := vr_TailHash r\<rparr>
           in if e \<noteq> None
              then (agg1\<lparr>vr_OK := False, vr_FirstMismatchReason := vr_FirstMismatchReason r,
                         vr_FirstMismatchID := vr_FirstMismatchID r\<rparr>, e)
              else if \<not> vr_OK r
              then (agg1\<lparr>vr_OK := False, vr_FirstMismatchReason := vr_FirstMismatchReason r,
                         vr_FirstMismatchID := vr_FirstMismatchID r,
                         vr_FirstMismatchHash := vr_FirstMismatchHash r,
                         vr_FirstMismatchExpect := vr_FirstMismatchExpect r,
                         vr_FirstMismatchTime := vr_FirstMismatchTime r\<rparr>, None)
              else
                (let agg2 = checkTruncation io signer cn d agg1
                 in if \<not> vr_OK agg2 then (agg2, None) else verify_chains io signer d names agg2)))"

definition verifyAccessLogs :: "audit_io \<Rightarrow> HMACSigner option \<Rightarrow> audit_db \<Rightarrow> Result \<times> string option" where
  "verifyAccessLogs io signer d =
     (let agg = new_result ChainNameAccessLogs in
      case accessLogChainNames io d of
        Inl e \<Rightarrow> (failed ''row_read_failed'' agg, Some (''enumerate access_log chains: '' @ e))
      | Inr names \<Rightarrow> verify_chains io signer d names agg)"

section \<open>Walking rbac\_audit\_log\<close>

definition rbac_content :: "rbac_row \<Rightarrow> string" where
  "rbac_content r =
     RBACAuditChainContentV1 (rr_id r) (deref (rr_actor_external_id r)) (rr_action r) (rr_resource_type r)
       (deref (rr_resource_id r)) (deref (rr_resource_name r)) (deref (rr_org_id r))
       (deref (rr_ip_address r)) (rr_created_at r) (deref (rr_old_value r)) (deref (rr_new_value r))"

fun walk_rbac :: "audit_io \<Rightarrow> rbac_row list \<Rightarrow> Result \<Rightarrow> string \<Rightarrow> walk" where
  "walk_rbac io [] res prev = Finished res prev"
| "walk_rbac io (r # rows) res prev =
     (case io_cancel io (vr_ScannedRows res) of
        Some e \<Rightarrow> Returned (failed ''context_canceled'' res) (Some e)
      | None \<Rightarrow>
          check_row 1 (rr_id r) (rr_created_at r) (rr_entry_hash r) (rr_hash_format_version r)
            (rbac_content r) res prev (walk_rbac io rows))"

definition verifyRBACAuditLog :: "audit_io \<Rightarrow> audit_db \<Rightarrow> Result option \<times> string option" where
  "verifyRBACAuditLog io d =
     (let res = new_result ChainNameRBACAuditLog in
      case GetLatestRBACAuditLogHash io d of
        Inl e \<Rightarrow> (Some (failed ''seed_read_failed'' res), Some (''seed: '' @ e))
      | Inr seed \<Rightarrow>
          (case startingPrev io ChainNameRBACAuditLog d of
             Inl e \<Rightarrow> (Some (failed ''seed_read_failed'' res), Some e)
           | Inr (startPrev, anchorID) \<Rightarrow>
               (case io_fail io ''query rbac_audit_log'' of
                  Some e \<Rightarrow> (None, Some (''query rbac_audit_log: '' @ e))
                | None \<Rightarrow>
                    (case walk_rbac io (rbac_by_id (\<lambda>r. rr_id r > anchorID) d)
                            (res\<lparr>vr_Seed := startPrev\<rparr>) startPrev of
                       Returned res' e \<Rightarrow> (Some res', e)
                     | Finished res' prev \<Rightarrow>
                         (case io_fail io ''iterate rbac_audit_log'' of
                            Some e \<Rightarrow> (None, Some (''iterate rbac_audit_log: '' @ e))
                          | None \<Rightarrow>
                              (let res'' = res'\<lparr>vr_TailHash := prev\<rparr>
                               in if vr_OK res'' \<and> seed \<noteq> [] \<and> seed \<noteq> prev
                                  then (Some ((failed ''anchor_mismatch'' res'')\<lparr>vr_FirstMismatchHash := prev\<rparr>), None)
                                  else (Some res'', None)))))))"

definition Verify :: "audit_io \<Rightarrow> HMACSigner option \<Rightarrow> string \<Rightarrow> audit_db \<Rightarrow> Result option \<times> string option" where
  "Verify io signer chain d =
     (if chain = ChainNameAccessLogs
      then (case verifyAccessLogs io signer d of (r, e) \<Rightarrow> (Some r, e))
      else if chain = ChainNameRBACAuditLog then verifyRBACAuditLog io d
      else (None, Some (''unknown chain: '' @ fmt_q chain)))"

section \<open>Checkpoint worker, re-anchor, integrity pass\<close>

definition Checkpoint_chain :: "audit_io \<Rightarrow> HMACSigner \<Rightarrow> string \<Rightarrow> audit_db \<Rightarrow> audit_db \<times> string option" where
  "Checkpoint_chain io signer chain d =
     (case GetAccessLogChainStats io chain d of
        Inl e \<Rightarrow> (d, Some e)
      | Inr (rowCount, headID, headHash) \<Rightarrow>
          if rowCount = 0 then (d, None)
          else
            (case SignCheckpoint signer
               \<lparr>ck_ChainName = chain, ck_HeadID = headID, ck_HeadHash = headHash, ck_RowCount = rowCount,
                ck_CreatedAt = io_now io, ck_KeyID = [], ck_Signature = []\<rparr> of
               Inl e \<Rightarrow> (d, Some e)
             | Inr c \<Rightarrow>
                 (case WriteAuditChainCheckpoint io c d of Inl e \<Rightarrow> (d, Some e) | Inr d' \<Rightarrow> (d', None))))"

definition BreakGlassReAnchor ::
  "audit_io \<Rightarrow> HMACSigner \<Rightarrow> string \<Rightarrow> string \<Rightarrow> string \<Rightarrow> audit_db \<Rightarrow> audit_db \<times> ReAnchor res" where
  "BreakGlassReAnchor io signer chainName actor reason d =
     (if actor = [] \<or> reason = []
      then (d, Inl ''break-glass re-anchor requires a non-empty actor and reason'')
      else case GetAccessLogChainStats io chainName d of
        Inl e \<Rightarrow> (d, Inl (''re-anchor: read chain stats: '' @ e))
      | Inr (rowCount, headID, headHash) \<Rightarrow>
          (let (fromID, fromHash) =
             (case GetLatestAuditChainCheckpoint io chainName d of
                Inr (Some prev) \<Rightarrow> (ck_HeadID prev, ck_HeadHash prev) | _ \<Rightarrow> (0, []))
           in case SignReAnchor signer
                \<lparr>ra_ChainName = chainName, ra_Reason = reason, ra_Actor = actor, ra_FromHeadID = fromID,
                 ra_FromHash = fromHash, ra_ToHeadID = headID, ra_ToHash = headHash,
                 ra_CreatedAt = io_now io, ra_KeyID = [], ra_Signature = []\<rparr> of
                Inl e \<Rightarrow> (d, Inl e)
              | Inr r \<Rightarrow>
                  (case WriteAuditChainReAnchor io r d of
                     Inl e \<Rightarrow> (d, Inl (''re-anchor: persist record: '' @ e))
                   | Inr d1 \<Rightarrow>
                       (case upsertAuditChainAnchorTx io chainName headID headHash d1 of
                          Inl e \<Rightarrow> (d1, Inl (''re-anchor: set chain anchor: '' @ e))
                        | Inr d2 \<Rightarrow>
                            (case SignCheckpoint signer
                               \<lparr>ck_ChainName = chainName, ck_HeadID = headID, ck_HeadHash = headHash,
                                ck_RowCount = rowCount, ck_CreatedAt = io_now io, ck_KeyID = [],
                                ck_Signature = []\<rparr> of
                               Inl e \<Rightarrow> (d2, Inl e)
                             | Inr cp \<Rightarrow>
                                 (case WriteAuditChainCheckpoint io cp d2 of
                                    Inl e \<Rightarrow> (d2, Inl (''re-anchor: write checkpoint: '' @ e))
                                  | Inr d3 \<Rightarrow> (d3, Inr r)))))))"

text \<open>
  A pass of the integrity worker: the violation counters it raises (chain and reason) and the results it
  hands to the notifier.
\<close>

fun pass ::
  "audit_io \<Rightarrow> HMACSigner option \<Rightarrow> audit_db \<Rightarrow> string list \<Rightarrow> (string \<times> string) list \<times> Result list" where
  "pass io signer d [] = ([], [])"
| "pass io signer d (chain # names) =
     (case pass io signer d names of
        (violations, notified) \<Rightarrow>
          (case Verify io signer chain d of
             (_, Some e) \<Rightarrow> ((chain, ''verify_error'') # violations, notified)
           | (Some res, None) \<Rightarrow>
               if \<not> vr_OK res
               then ((chain, vr_FirstMismatchReason res) # violations, res # notified)
               else (violations, notified)
           | (None, None) \<Rightarrow> (violations, notified)))"

definition integrity_chains :: "string list \<Rightarrow> string list" where
  "integrity_chains names = (if names = [] then [ChainNameAccessLogs, ChainNameRBACAuditLog] else names)"

end
