(* ===== verification/Audit_Properties.thy ===== *)
theory Audit_Properties
  imports Audit_Verifier
begin

text \<open>
  What the audit chains guarantee: which tables the verifier accepts, that the writers and the
  retention of a single chain keep it acceptable under every database failure, what a changed table has
  to show to be accepted, what the signed checkpoint catches and what it does not.
\<close>

section \<open>What the verifier accepts\<close>

definition quiet :: "audit_io \<Rightarrow> bool" where
  "quiet io \<longleftrightarrow> (\<forall>l. io_fail io l = None) \<and> (\<forall>n. io_cancel io n = None)"

definition sealed_row :: "access_row \<Rightarrow> bool" where
  "sealed_row r \<longleftrightarrow> al_ip_address r \<noteq> None \<and> deref (al_entry_hash r) \<noteq> [] \<and> al_hash_format_version r = 2"

definition access_entry :: "access_row \<Rightarrow> string \<times> string" where
  "access_entry r = (access_content r, deref (al_entry_hash r))"

definition chain_start :: "string \<Rightarrow> audit_db \<Rightarrow> string \<times> int" where
  "chain_start chain d =
     (case map_of (ad_anchors d) chain of
        None \<Rightarrow> ([], 0) | Some a \<Rightarrow> (an_LastPrunedEntryHash a, an_LastPrunedID a))"

definition chain_rows :: "string \<Rightarrow> audit_db \<Rightarrow> access_row list" where
  "chain_rows chain d = access_by_id (\<lambda>r. al_chain_name r = chain \<and> al_id r > snd (chain_start chain d)) d"

definition intact_chain :: "string \<Rightarrow> audit_db \<Rightarrow> bool" where
  "intact_chain chain d \<longleftrightarrow>
     list_all sealed_row (chain_rows chain d) \<and>
     chained (fst (chain_start chain d)) (map access_entry (chain_rows chain d))"

definition guard_ok :: "HMACSigner option \<Rightarrow> string \<Rightarrow> audit_db \<Rightarrow> bool" where
  "guard_ok signer chain d \<longleftrightarrow>
     (case signer of
        None \<Rightarrow> True
      | Some s \<Rightarrow>
          (case find (\<lambda>c. ck_ChainName c = chain) (rev (ad_checkpoints d)) of
             None \<Rightarrow> True
           | Some c \<Rightarrow> VerifyCheckpoint s c = None \<and> \<not> checkpointTruncated (Some c) (max_id chain d)))"

lemma quietD [simp]: "quiet io \<Longrightarrow> io_fail io l = None" "quiet io \<Longrightarrow> io_cancel io n = None"
  by (simp_all add: quiet_def)

lemma startingPrev_quiet: "quiet io \<Longrightarrow> startingPrev io chain d = Inr (chain_start chain d)"
  by (simp add: startingPrev_def chain_start_def split: option.splits)

lemma failed_not_OK [simp]: "vr_OK (failed reason res) = False"
  by (simp add: failed_def)

lemma null_hash_not_OK [simp]: "vr_OK (null_hash rowID t res) = False"
  by (simp add: null_hash_def Let_def)

definition walk_accepts :: "walk \<Rightarrow> bool" where
  "walk_accepts w \<longleftrightarrow> (case w of Returned res e \<Rightarrow> vr_OK res \<and> e = None | Finished res p \<Rightarrow> vr_OK res)"

lemma check_row_accepts:
  "walk_accepts (check_row v rowID t h fv content res prev k) \<longleftrightarrow>
     deref h = computeChainHash prev content \<and> fv = v \<and>
     walk_accepts (k (res\<lparr>vr_ScannedRows := vr_ScannedRows res + 1\<rparr>) (deref h))"
  by (auto simp: check_row_def Let_def walk_accepts_def)

lemma walk_access_accepts:
  "quiet io \<Longrightarrow> vr_OK res \<Longrightarrow>
     walk_accepts (walk_access io rows res prev) \<longleftrightarrow>
       list_all sealed_row rows \<and> chained prev (map access_entry rows)"
proof (induction rows arbitrary: res prev)
  case Nil
  then show ?case by (simp add: walk_accepts_def)
next
  case (Cons r rows)
  show ?case
  proof (cases "al_ip_address r")
    case None
    then show ?thesis
      using Cons.prems by (simp add: walk_accepts_def scan_string_def sealed_row_def)
  next
    case (Some ip)
    then show ?thesis
      using Cons.prems Cons.IH by (auto simp: scan_string_def check_row_accepts sealed_row_def access_entry_def)
  qed
qed

text \<open>
  An accepting walk finishes, and finishes with the tail of the chain.
\<close>

lemma walk_access_tail:
  "quiet io \<Longrightarrow> walk_accepts (walk_access io rows res prev) \<Longrightarrow>
     \<exists>res'. walk_access io rows res prev = Finished res' (chain_tail prev (map access_entry rows)) \<and> vr_OK res'"
proof (induction rows arbitrary: res prev)
  case Nil
  then show ?case by (simp add: walk_accepts_def)
next
  case (Cons r rows)
  show ?case
  proof (cases "al_ip_address r")
    case None
    then show ?thesis
      using Cons.prems by (simp add: walk_accepts_def scan_string_def)
  next
    case (Some ip)
    then have acc: "deref (al_entry_hash r) = computeChainHash prev (access_content r)"
      "al_hash_format_version r = 2"
      "walk_accepts (walk_access io rows (res\<lparr>vr_ScannedRows := vr_ScannedRows res + 1\<rparr>) (deref (al_entry_hash r)))"
      using Cons.prems by (auto simp: scan_string_def check_row_accepts)
    from Cons.IH [OF Cons.prems(1) acc(3)] show ?thesis
      using Some acc Cons.prems(1) by (auto simp: scan_string_def check_row_def Let_def access_entry_def)
  qed
qed

lemma verify_one_accepts:
  assumes "quiet io"
  shows "(\<exists>res. verifyOneAccessLogChain io chain d = (Some res, None) \<and> vr_OK res) \<longleftrightarrow> intact_chain chain d"
proof -
  obtain seed anchor where st: "chain_start chain d = (seed, anchor)"
    by (cases "chain_start chain d")
  let ?w = "walk_access io (chain_rows chain d) ((new_result ChainNameAccessLogs)\<lparr>vr_Seed := seed\<rparr>) seed"
  have acc: "walk_accepts ?w \<longleftrightarrow> intact_chain chain d"
    using assms by (subst walk_access_accepts) (simp_all add: new_result_def intact_chain_def st)
  have "(\<exists>res. verifyOneAccessLogChain io chain d = (Some res, None) \<and> vr_OK res) \<longleftrightarrow> walk_accepts ?w"
    using assms
    by (auto simp: verifyOneAccessLogChain_def Let_def startingPrev_quiet st chain_rows_def walk_accepts_def
        split: walk.splits)
  then show ?thesis
    using acc by simp
qed

lemma verify_one_rejects:
  "quiet io \<Longrightarrow> \<not> intact_chain chain d \<Longrightarrow> verifyOneAccessLogChain io chain d = (Some res, e) \<Longrightarrow>
     \<not> (e = None \<and> vr_OK res)"
  using verify_one_accepts by blast

lemma verify_one_result: "quiet io \<Longrightarrow> \<exists>res e. verifyOneAccessLogChain io chain d = (Some res, e)"
  by (auto simp: verifyOneAccessLogChain_def Let_def startingPrev_quiet split: prod.splits walk.splits)

lemma checkTruncation_OK:
  "quiet io \<Longrightarrow> vr_OK res \<Longrightarrow> vr_OK (checkTruncation io signer chain d res) \<longleftrightarrow> guard_ok signer chain d"
  by (auto simp: checkTruncation_def guard_ok_def GetLatestAuditChainCheckpoint_def split: option.splits)

lemma verify_chains_accepts:
  "quiet io \<Longrightarrow> vr_OK agg \<Longrightarrow>
     (\<exists>res. verify_chains io signer d names agg = (res, None) \<and> vr_OK res) \<longleftrightarrow>
       (\<forall>n\<in>set names. intact_chain n d \<and> guard_ok signer n d)"
proof (induction names arbitrary: agg)
  case Nil
  then show ?case by simp
next
  case (Cons cn names)
  obtain r e where r: "verifyOneAccessLogChain io cn d = (Some r, e)"
    using verify_one_result [OF Cons.prems(1)] by blast
  show ?case
  proof (cases "intact_chain cn d")
    case False
    then show ?thesis
      using verify_one_rejects [OF Cons.prems(1) False r] r by (auto simp: Let_def)
  next
    case True
    then have ok: "e = None" "vr_OK r"
      using verify_one_accepts [OF Cons.prems(1), of cn d] r by auto
    let ?agg = "agg\<lparr>vr_ScannedRows := vr_ScannedRows agg + vr_ScannedRows r,
                     vr_NullHashRows := vr_NullHashRows agg + vr_NullHashRows r, vr_TailHash := vr_TailHash r\<rparr>"
    have g: "vr_OK (checkTruncation io signer cn d ?agg) \<longleftrightarrow> guard_ok signer cn d"
      using Cons.prems by (intro checkTruncation_OK) simp_all
    then show ?thesis
      using Cons.IH [OF Cons.prems(1), of "checkTruncation io signer cn d ?agg"] True ok r
      by (auto simp: Let_def)
  qed
qed

definition chain_names :: "audit_db \<Rightarrow> string set" where
  "chain_names d = (set (map al_chain_name (ad_access d)) \<union> set (map ck_ChainName (ad_checkpoints d))) - {[]}"

definition access_logs_accepted :: "audit_io \<Rightarrow> HMACSigner option \<Rightarrow> audit_db \<Rightarrow> bool" where
  "access_logs_accepted io signer d \<longleftrightarrow>
     (\<exists>res. Verify io signer ChainNameAccessLogs d = (Some res, None) \<and> vr_OK res)"

lemma verify_access_accepts:
  assumes "quiet io"
  shows "access_logs_accepted io signer d \<longleftrightarrow>
    (\<forall>n\<in>chain_names d. intact_chain n d \<and> guard_ok signer n d)"
proof -
  have "set (sort (remdups (filter (\<lambda>n. n \<noteq> [])
          (map al_chain_name (ad_access d) @ map ck_ChainName (ad_checkpoints d))))) = chain_names d"
    by (auto simp: chain_names_def)
  then show ?thesis
    using verify_chains_accepts [OF assms, of "new_result ChainNameAccessLogs" signer d
        "sort (remdups (filter (\<lambda>n. n \<noteq> []) (map al_chain_name (ad_access d) @ map ck_ChainName (ad_checkpoints d))))"]
      assms
    by (auto simp: access_logs_accepted_def Verify_def verifyAccessLogs_def accessLogChainNames_def Let_def
        new_result_def split: prod.splits)
qed

section \<open>Writers and retention of a single chain\<close>

text \<open>
  A deployment with one chain: the proxy's writer (synchronous or sealer), a restart that seeds the
  chain from the table, the checkpoint worker and the two prunes, in any order, each against a database
  that may fail any statement. Only the clock does not run backwards.
\<close>

inductive audit_step ::
  "HMACSigner \<Rightarrow> time \<times> HashChain \<times> audit_db \<Rightarrow> time \<times> HashChain \<times> audit_db \<Rightarrow> bool" for s where
  step_log:
    "t \<le> io_now io \<Longrightarrow> LogAccessChained io (Some h) rec d = (Some h', d', r) \<Longrightarrow>
       audit_step s (t, h, d) (io_now io, h', d')"
| step_seal:
    "t \<le> io_now io \<Longrightarrow> SealBufferedAccessLog io (Some h) rec seq ChainNameAccessLogs d = (Some h', d', r') \<Longrightarrow>
       audit_step s (t, h, d) (io_now io, h', d')"
| step_restart:
    "t \<le> io_now io \<Longrightarrow> GetLatestAccessLogHashForChain io ChainNameAccessLogs d = Inr seed \<Longrightarrow>
       audit_step s (t, h, d) (io_now io, NewHashChain seed, d)"
| step_checkpoint:
    "t \<le> io_now io \<Longrightarrow> Checkpoint_chain io s ChainNameAccessLogs d = (d', e) \<Longrightarrow>
       audit_step s (t, h, d) (io_now io, h, d')"
| step_cleanup:
    "t \<le> io_now io \<Longrightarrow> CleanupAccessLogs io cutoff d = (d', p) \<Longrightarrow>
       audit_step s (t, h, d) (io_now io, h, d')"
| step_trim:
    "t \<le> io_now io \<Longrightarrow> TrimAccessLogsFIFOBatch io maxRows batchSize d = (d', p) \<Longrightarrow>
       audit_step s (t, h, d) (io_now io, h, d')"

definition empty_db :: audit_db where
  "empty_db = \<lparr>ad_access_seq = 0, ad_access = [], ad_rbac_seq = 0, ad_rbac = [], ad_anchors = [],
     ad_checkpoints = [], ad_reanchors = []\<rparr>"

definition row_wf :: "time \<Rightarrow> audit_db \<Rightarrow> access_row \<Rightarrow> bool" where
  "row_wf t d r \<longleftrightarrow>
     snd (chain_start ChainNameAccessLogs d) < al_id r \<and> al_id r \<le> ad_access_seq d \<and>
     al_chain_name r = ChainNameAccessLogs \<and> sealed_row r \<and> al_created_at r \<le> truncate_micro t"

definition log_wf :: "time \<Rightarrow> audit_db \<Rightarrow> bool" where
  "log_wf t d \<longleftrightarrow>
     sorted_wrt (<) (map al_id (ad_access d)) \<and> sorted (map al_created_at (ad_access d)) \<and>
     (\<forall>r\<in>set (ad_access d). row_wf t d r) \<and> snd (chain_start ChainNameAccessLogs d) \<le> ad_access_seq d"

definition table_log :: "audit_db \<Rightarrow> (string \<times> string) list" where
  "table_log d = map access_entry (ad_access d)"

definition checkpoints_wf :: "HMACSigner \<Rightarrow> audit_db \<Rightarrow> bool" where
  "checkpoints_wf s d \<longleftrightarrow>
     (\<forall>c\<in>set (ad_checkpoints d). ck_ChainName c = ChainNameAccessLogs \<and> VerifyCheckpoint s c = None \<and>
        ck_HeadID c \<le> ad_access_seq d \<and>
        (ad_access d \<noteq> [] \<longrightarrow> ck_HeadID c \<le> al_id (last (ad_access d))))"

definition chain_inv :: "HMACSigner \<Rightarrow> time \<times> HashChain \<times> audit_db \<Rightarrow> bool" where
  "chain_inv s st \<longleftrightarrow>
     (case st of (t, h, d) \<Rightarrow>
        log_wf t d \<and> checkpoints_wf s d \<and>
        hc.in_step (fst (chain_start ChainNameAccessLogs d)) table_log h d)"

lemma truncate_micro_mono: "t \<le> t' \<Longrightarrow> truncate_micro t \<le> truncate_micro t'"
  by (simp add: truncate_micro_def minus_mod_eq_mult_div zdiv_mono1)

lemma log_wf_mono: "log_wf t d \<Longrightarrow> t \<le> t' \<Longrightarrow> log_wf t' d"
  using truncate_micro_mono [of t t'] by (fastforce simp: log_wf_def row_wf_def)

lemma access_by_id_sorted:
  "sorted_wrt (<) (map al_id (ad_access d)) \<Longrightarrow> access_by_id P d = filter P (ad_access d)"
proof -
  assume "sorted_wrt (<) (map al_id (ad_access d))"
  then have "sorted (map al_id (filter P (ad_access d)))"
    by (metis strict_sorted_imp_sorted sorted_filter)
  then show ?thesis
    by (simp add: access_by_id_def sort_key_id_if_sorted)
qed

lemma chain_rows_wf: "log_wf t d \<Longrightarrow> chain_rows ChainNameAccessLogs d = ad_access d"
  by (simp add: chain_rows_def log_wf_def access_by_id_sorted row_wf_def)

text \<open>
  The writers of package \<^verbatim>\<open>db\<close> and the verifier of package \<^verbatim>\<open>audit\<close> agree on a row's content, whatever is
  stored as NULL.
\<close>

lemma writer_reader_agree:
  "access_content (access_row_of rec rowID createdAt h bs chain) =
     AccessLogChainContent rowID (rec_ExternalID rec) (rec_Method rec) (rec_IPAddress rec)
       (rec_StatusCode rec)
       (case rec_ResponseStatus rec of Some rs \<Rightarrow> rs | None \<Rightarrow> rec_StatusCode rec) createdAt
       (rec_CorrelationID rec) (case rec_Params rec of Some p \<Rightarrow> p | None \<Rightarrow> [])"
  by (auto simp: access_content_def access_row_of_def AccessLogChainContentV2_def AccessLogChainContent_def
      deref_def split: option.splits)

lemma chain_start_cong: "ad_anchors d = ad_anchors d' \<Longrightarrow> chain_start n d = chain_start n d'"
  by (simp add: chain_start_def)

lemma log_wf_seq:
  "log_wf t d \<Longrightarrow> log_wf t (d\<lparr>ad_access_seq := ad_access_seq d + 1\<rparr>)"
  by (auto simp: log_wf_def row_wf_def chain_start_def)

lemma log_wf_insert:
  assumes "log_wf t d" "al_id r = ad_access_seq d + 1" "al_chain_name r = ChainNameAccessLogs"
    and "sealed_row r" "al_created_at r = truncate_micro t"
  shows "log_wf t (d\<lparr>ad_access_seq := ad_access_seq d + 1, ad_access := ad_access d @ [r]\<rparr>)"
proof -
  have "\<forall>x\<in>set (ad_access d). al_id x < al_id r \<and> al_created_at x \<le> al_created_at r"
    using assms by (force simp: log_wf_def row_wf_def)
  then show ?thesis
    using assms by (auto simp: log_wf_def row_wf_def chain_start_def sorted_wrt_append)
qed

lemma checkpoints_wf_seq: "checkpoints_wf s d \<Longrightarrow> checkpoints_wf s (d\<lparr>ad_access_seq := ad_access_seq d + 1\<rparr>)"
  by (auto simp: checkpoints_wf_def)

lemma checkpoints_wf_insert:
  "checkpoints_wf s d \<Longrightarrow> al_id r = ad_access_seq d + 1 \<Longrightarrow>
     checkpoints_wf s (d\<lparr>ad_access_seq := ad_access_seq d + 1, ad_access := ad_access d @ [r]\<rparr>)"
  by (auto simp: checkpoints_wf_def)

lemma insert_access_cases:
  obtains e where "insert_access io r d = (d, Some e)"
  | "insert_access io r d = (d\<lparr>ad_access := ad_access d @ [r]\<rparr>, None)"
proof -
  have "(\<exists>e. insert_access io r d = (d, Some e)) \<or> insert_access io r d = (d\<lparr>ad_access := ad_access d @ [r]\<rparr>, None)"
    by (simp add: insert_access_def split: option.split)
  then show ?thesis
    using that by blast
qed

lemma nextval_access_cases:
  obtains e where "nextval_access io d = (d, Inl e)"
  | "nextval_access io d = (d\<lparr>ad_access_seq := ad_access_seq d + 1\<rparr>, Inr (ad_access_seq d + 1))"
proof -
  have "(\<exists>e. nextval_access io d = (d, Inl e)) \<or>
      nextval_access io d = (d\<lparr>ad_access_seq := ad_access_seq d + 1\<rparr>, Inr (ad_access_seq d + 1))"
    by (simp add: nextval_access_def split: option.split)
  then show ?thesis
    using that by blast
qed

definition writer_inv :: "HMACSigner \<Rightarrow> time \<Rightarrow> (string \<times> AuditChainAnchor) list \<Rightarrow> audit_db \<Rightarrow> bool" where
  "writer_inv s t A d \<longleftrightarrow> log_wf t d \<and> checkpoints_wf s d \<and> ad_anchors d = A"

lemma access_build_appends:
  "appends_entry (writer_inv s (io_now io) A) table_log (access_build io label rec bs ChainNameAccessLogs)"
  unfolding appends_entry_def
proof (intro allI impI)
  fix prev d
  assume I: "writer_inv s (io_now io) A d"
  let ?d1 = "d\<lparr>ad_access_seq := ad_access_seq d + 1\<rparr>"
  show "case access_build io label rec bs ChainNameAccessLogs prev d of
      (s1, Inl _) \<Rightarrow> writer_inv s (io_now io) A s1 \<and> table_log s1 = table_log d
    | (s1, Inr (_, None)) \<Rightarrow> writer_inv s (io_now io) A s1 \<and> table_log s1 = table_log d
    | (s1, Inr (content, Some write)) \<Rightarrow>
        (\<forall>h. h \<noteq> [] \<longrightarrow> (case write h s1 of
           (s2, None) \<Rightarrow> writer_inv s (io_now io) A s2 \<and> table_log s2 = table_log d @ [(content, h)]
         | (s2, Some _) \<Rightarrow> writer_inv s (io_now io) A s2 \<and> table_log s2 = table_log d))"
  proof (cases rule: nextval_access_cases [of io d])
    case (1 e)
    then show ?thesis
      using I by (simp add: access_build_def)
  next
    case 2
    have d1: "writer_inv s (io_now io) A ?d1" "table_log ?d1 = table_log d"
      using I log_wf_seq checkpoints_wf_seq by (simp_all add: writer_inv_def table_log_def)
    define row where "row h = access_row_of rec (ad_access_seq d + 1) (truncate_micro (io_now io)) (Some h)
      bs ChainNameAccessLogs" for h
    have d3: "h \<noteq> [] \<Longrightarrow> writer_inv s (io_now io) A (?d1\<lparr>ad_access := ad_access d @ [row h]\<rparr>)" for h
      using I log_wf_insert [of "io_now io" d "row h"] checkpoints_wf_insert [of s d "row h"]
      by (simp add: writer_inv_def row_def access_row_of_def sealed_row_def deref_def)
    have entry: "access_entry (row h) = (access_content (row []), h)" for h
      by (simp add: access_entry_def row_def writer_reader_agree) (simp add: access_row_of_def deref_def)
    have b: "access_build io label rec bs ChainNameAccessLogs prev d = (?d1, Inr (access_content (row []),
        Some (\<lambda>hash d2. case insert_access io (row hash) d2 of
          (d3, Some execErr) \<Rightarrow> (d3, Some (label @ execErr)) | (d3, None) \<Rightarrow> (d3, None))))"
      by (simp add: access_build_def Let_def 2 row_def writer_reader_agree)
    have "case (case insert_access io (row h) ?d1 of
          (d3, Some execErr) \<Rightarrow> (d3, Some (label @ execErr)) | (d3, None) \<Rightarrow> (d3, None)) of
        (s2, None) \<Rightarrow> writer_inv s (io_now io) A s2 \<and> table_log s2 = table_log d @ [(access_content (row []), h)]
      | (s2, Some _) \<Rightarrow> writer_inv s (io_now io) A s2 \<and> table_log s2 = table_log d" if "h \<noteq> []" for h
      using d1 d3 [OF that] entry
      by (cases rule: insert_access_cases [of io "row h" ?d1]) (simp_all add: table_log_def)
    then show ?thesis
      by (simp add: b)
  qed
qed

lemma chain_inv_mono: "chain_inv s (t, h, d) \<Longrightarrow> t \<le> t' \<Longrightarrow> chain_inv s (t', h, d)"
  using log_wf_mono by (auto simp: chain_inv_def)

lemma append_chain_inv:
  assumes "chain_inv s (t, h, d)" "t \<le> io_now io"
    and "Append h d (access_build io label rec bs ChainNameAccessLogs) = (h', d', r)"
  shows "chain_inv s (io_now io, h', d')"
proof -
  let ?seed = "fst (chain_start ChainNameAccessLogs d)"
  have "writer_inv s (io_now io) (ad_anchors d) d" "hc.in_step ?seed table_log h d"
    using assms(1, 2) log_wf_mono by (auto simp: chain_inv_def writer_inv_def)
  from hc.append_in_step [OF access_build_appends this assms(3)]
  have "writer_inv s (io_now io) (ad_anchors d) d'" "hc.in_step ?seed table_log h' d'"
    by auto
  then show ?thesis
    using chain_start_cong [of d' d] by (simp add: chain_inv_def writer_inv_def)
qed

lemma chain_tail_last: "xs \<noteq> [] \<Longrightarrow> chain_tail p xs = snd (last xs)"
  by (induction p xs rule: chain_tail.induct) auto

lemma last_take_nth: "0 < k \<Longrightarrow> k \<le> length xs \<Longrightarrow> last (take k xs) = xs ! (k - 1)"
  by (subst last_conv_nth) (auto simp: min_def)

lemma cut_chain_inv:
  assumes inv: "chain_inv s (t, h, d)" and k: "0 < k" "k \<le> length (ad_access d)"
    and cr: "cr = ad_access d ! (k - 1)"
  shows "chain_inv s (t, h, d\<lparr>ad_access := drop k (ad_access d), ad_anchors := AList.update ChainNameAccessLogs
    \<lparr>an_LastPrunedID = al_id cr, an_LastPrunedEntryHash = deref (al_entry_hash cr), an_LastPrunedAt = x\<rparr>
    (ad_anchors d)\<rparr>)" (is "chain_inv s (t, h, ?d)")
proof -
  let ?rows = "ad_access d"
  have wf: "log_wf t d" "checkpoints_wf s d" and st: "hc.in_step (fst (chain_start ChainNameAccessLogs d)) table_log h d"
    using inv by (auto simp: chain_inv_def)
  have start: "chain_start ChainNameAccessLogs ?d = (deref (al_entry_hash cr), al_id cr)"
    by (simp add: chain_start_def update_conv')
  have split: "?rows = take k ?rows @ drop k ?rows" and ne: "take k ?rows \<noteq> []"
    using k by auto
  have last: "last (take k ?rows) = cr"
    using last_take_nth [OF k] by (simp add: cr)
  have cr_in: "cr \<in> set (take k ?rows)"
    using last ne last_in_set by metis
  have "sorted_wrt (<) (map al_id (take k ?rows) @ map al_id (drop k ?rows))"
    using wf(1) by (simp add: log_wf_def flip: map_append)
  then have later: "al_id cr < al_id r" if "r \<in> set (drop k ?rows)" for r
    using cr_in that by (simp add: sorted_wrt_append)
  have sub: "set (drop k ?rows) \<subseteq> set ?rows"
    by (rule set_drop_subset)
  have rows: "row_wf t ?d r" if "r \<in> set (drop k ?rows)" for r
    using wf(1) later [OF that] that sub by (auto simp: log_wf_def row_wf_def start)
  have "al_id cr \<le> ad_access_seq d"
    using wf(1) cr_in set_take_subset [of k ?rows] by (auto simp: log_wf_def row_wf_def)
  then have "log_wf t ?d"
    using wf(1) rows by (simp add: log_wf_def start sorted_wrt_drop flip: drop_map)
  moreover have "checkpoints_wf s ?d"
    using wf(2) split by (auto simp: checkpoints_wf_def)
  moreover have "hc.in_step (deref (al_entry_hash cr)) table_log h ?d"
  proof -
    have "table_log d = map access_entry (take k ?rows) @ map access_entry (drop k ?rows)"
      using split by (metis map_append table_log_def)
    moreover have "chain_tail p (map access_entry (take k ?rows)) = deref (al_entry_hash cr)" for p
      using ne last by (simp add: chain_tail_last last_map access_entry_def)
    ultimately show ?thesis
      using st by (simp add: hc.in_step_def) (simp add: table_log_def)
  qed
  ultimately show ?thesis
    by (simp add: chain_inv_def start)
qed

lemma WithTx_cases:
  assumes "WithTx io fn d = (d', r)"
  shows "d' = d \<or> (\<exists>x. r = Inr x \<and> fn d = (d', Inr x))"
  using assms by (auto simp: WithTx_def split: option.splits prod.splits sum.splits)

lemma anchor_cut_cases:
  assumes "anchor_cut io n f l cutHash d = (d', Inr x)" "deref cutHash \<noteq> []"
  shows "d' = d\<lparr>ad_anchors := AList.update ChainNameAccessLogs \<lparr>an_LastPrunedID = l,
    an_LastPrunedEntryHash = deref cutHash, an_LastPrunedAt = truncate_micro (io_now io)\<rparr> (ad_anchors d)\<rparr>"
  using assms by (auto simp: anchor_cut_def upsertAuditChainAnchorTx_def split: option.splits)

lemma filter_above_drop:
  fixes f :: "'a \<Rightarrow> int"
  assumes "sorted_wrt (<) (map f xs)" "0 < k" "k \<le> length xs"
  shows "filter (\<lambda>x. \<not> f x \<le> f (xs ! (k - 1))) xs = drop k xs"
    and "length (filter (\<lambda>x. f x \<le> f (xs ! (k - 1))) xs) = k"
proof -
  have lo: "f (xs ! i) \<le> f (xs ! (k - 1))" if "i < k" for i
    using sorted_wrt_nth_less [OF assms(1), of i "k - 1"] assms(2, 3) that
    by (cases "i = k - 1") (simp, fastforce)
  have hi: "f (xs ! (k - 1)) < f (xs ! i)" if "k \<le> i" "i < length xs" for i
    using sorted_wrt_nth_less [OF assms(1), of "k - 1" i] assms(2, 3) that by auto
  have "\<forall>x\<in>set (take k xs). f x \<le> f (xs ! (k - 1))"
    using lo assms(3) by (auto simp: in_set_conv_nth)
  moreover have "\<forall>x\<in>set (drop k xs). \<not> f x \<le> f (xs ! (k - 1))"
    using hi by (auto simp: in_set_conv_nth not_le)
  ultimately have "filter (\<lambda>x. \<not> f x \<le> f (xs ! (k - 1))) (take k xs @ drop k xs) = drop k xs"
    "length (filter (\<lambda>x. f x \<le> f (xs ! (k - 1))) (take k xs @ drop k xs)) = k"
    using assms(3) by (simp_all add: filter_empty_conv del: append_take_drop_id)
  then show "filter (\<lambda>x. \<not> f x \<le> f (xs ! (k - 1))) xs = drop k xs"
    "length (filter (\<lambda>x. f x \<le> f (xs ! (k - 1))) xs) = k"
    by simp_all
qed

lemma filter_below_take:
  fixes f :: "'a \<Rightarrow> int"
  assumes "sorted (map f xs)"
  shows "filter (\<lambda>x. f x < c) xs = take (length (filter (\<lambda>x. f x < c) xs)) xs"
    and "filter (\<lambda>x. \<not> f x < c) xs = drop (length (filter (\<lambda>x. f x < c) xs)) xs"
proof -
  have "filter (\<lambda>x. f x < c) xs = take (length (filter (\<lambda>x. f x < c) xs)) xs \<and>
      filter (\<lambda>x. \<not> f x < c) xs = drop (length (filter (\<lambda>x. f x < c) xs)) xs"
    using assms
  proof (induction xs)
    case (Cons x xs)
    show ?case
    proof (cases "f x < c")
      case False
      then have "\<forall>y\<in>set xs. \<not> f y < c"
        using Cons.prems by auto
      then show ?thesis
        using False by (simp add: filter_empty_conv)
    qed (use Cons in auto)
  qed simp
  then show "filter (\<lambda>x. f x < c) xs = take (length (filter (\<lambda>x. f x < c) xs)) xs"
    "filter (\<lambda>x. \<not> f x < c) xs = drop (length (filter (\<lambda>x. f x < c) xs)) xs"
    by auto
qed

lemma trim_chain_inv:
  assumes inv: "chain_inv s (t, h, d)" and tr: "TrimAccessLogsFIFOBatch io maxRows batchSize d = (d', p)"
  shows "chain_inv s (t, h, d')"
proof -
  let ?rows = "ad_access d"
  define m where "m = (if maxRows < 0 then 0 else maxRows)"
  define b where "b = (if batchSize \<le> 0 then 1000 else batchSize)"
  have mb: "0 \<le> m" "0 < b"
    by (simp_all add: m_def b_def)
  let ?k = "nat (min (int (length ?rows) - m) b)"
  have wf: "log_wf t d"
    using inv by (simp add: chain_inv_def)
  then have by_id: "access_by_id (\<lambda>_. True) d = ?rows"
    by (simp add: log_wf_def access_by_id_sorted)
  show ?thesis
  proof (cases "d' = d")
    case True
    then show ?thesis
      using inv by simp
  next
    case False
    then obtain x where tx: "trim_tx io m b d = (d', Inr x)"
      using WithTx_cases tr unfolding TrimAccessLogsFIFOBatch_def Let_def m_def b_def by blast
    then have ok: "int (length ?rows) - m > 0"
      using False by (auto simp: trim_tx_def Let_def split: option.splits if_splits)
    define k where "k = ?k"
    then have k: "0 < k" "k \<le> length ?rows" "nat (min (int (length ?rows) - m) b - 1) = k - 1"
      using ok mb by (auto simp: min_def)
    let ?cr = "?rows ! (k - 1)"
    let ?d = "d\<lparr>ad_access := drop k ?rows\<rparr>"
    have f: "filter (\<lambda>r. \<not> al_id r \<le> al_id ?cr) ?rows = drop k ?rows" "length (filter (\<lambda>r. al_id r \<le> al_id ?cr) ?rows) = k"
      using filter_above_drop [of al_id ?rows k] k wf by (simp_all add: log_wf_def)
    have "?cr \<in> set ?rows"
      using k by (intro nth_mem) simp
    then have "sealed_row ?cr"
      using wf by (simp add: log_wf_def row_wf_def)
    moreover have "anchor_cut io (int k) (al_id (hd ?rows)) (al_id ?cr) (al_entry_hash ?cr) ?d = (d', Inr x)"
      using tx ok k(3) f by (simp add: trim_tx_def Let_def by_id del: One_nat_def tx_error.simps split: option.splits)
    ultimately have "d' = ?d\<lparr>ad_anchors := AList.update ChainNameAccessLogs
        \<lparr>an_LastPrunedID = al_id ?cr, an_LastPrunedEntryHash = deref (al_entry_hash ?cr),
         an_LastPrunedAt = truncate_micro (io_now io)\<rparr> (ad_anchors ?d)\<rparr>"
      by (intro anchor_cut_cases) (simp_all add: sealed_row_def)
    then show ?thesis
      using inv cut_chain_inv [OF inv k(1, 2) refl] by auto
  qed
qed

lemma cleanup_chain_inv:
  assumes inv: "chain_inv s (t, h, d)" and cl: "CleanupAccessLogs io cutoff d = (d', p)"
  shows "chain_inv s (t, h, d')"
proof -
  let ?rows = "ad_access d" and ?old = "filter (\<lambda>r. al_created_at r < cutoff) (ad_access d)"
  have wf: "log_wf t d"
    using inv by (simp add: chain_inv_def)
  then have by_id: "access_by_id (\<lambda>r. al_created_at r < cutoff) d = ?old"
    by (simp add: log_wf_def access_by_id_sorted)
  have cut: "?old = take (length ?old) ?rows"
    "filter (\<lambda>r. \<not> al_created_at r < cutoff) ?rows = drop (length ?old) ?rows"
    using filter_below_take [of al_created_at ?rows cutoff] wf by (auto simp: log_wf_def)
  show ?thesis
  proof (cases "d' = d")
    case True
    then show ?thesis
      using inv by simp
  next
    case False
    then obtain x where tx: "cleanup_access_tx io cutoff d = (d', Inr x)"
      using WithTx_cases cl unfolding CleanupAccessLogs_def by blast
    then have ok: "?old \<noteq> []"
      using False cut(2) by (auto simp: cleanup_access_tx_def Let_def by_id split: option.splits if_splits)
    define k where "k = length ?old"
    have k: "0 < k" "k \<le> length ?rows"
      using ok by (auto simp: k_def)
    let ?cr = "?rows ! (k - 1)" and ?d = "d\<lparr>ad_access := drop k ?rows\<rparr>"
    have last: "last ?old = ?cr"
      using arg_cong [OF cut(1), of last] last_take_nth [OF k] by (simp only: k_def)
    have "?cr \<in> set ?rows"
      using k by (intro nth_mem) simp
    then have "sealed_row ?cr"
      using wf by (simp add: log_wf_def row_wf_def)
    moreover have "anchor_cut io (int k) (al_id (hd ?old)) (al_id ?cr) (al_entry_hash ?cr) ?d = (d', Inr x)"
      using tx ok by (simp add: cleanup_access_tx_def Let_def by_id cut(2) k_def [symmetric] last
          del: One_nat_def tx_error.simps split: option.splits)
    ultimately have "d' = ?d\<lparr>ad_anchors := AList.update ChainNameAccessLogs
        \<lparr>an_LastPrunedID = al_id ?cr, an_LastPrunedEntryHash = deref (al_entry_hash ?cr),
         an_LastPrunedAt = truncate_micro (io_now io)\<rparr> (ad_anchors ?d)\<rparr>"
      by (intro anchor_cut_cases) (simp_all add: sealed_row_def)
    then show ?thesis
      using inv cut_chain_inv [OF inv k refl] by auto
  qed
qed

lemma sealed_row_hash: "sealed_row r \<Longrightarrow> \<exists>h. al_entry_hash r = Some h \<and> h \<noteq> []"
  by (auto simp: sealed_row_def deref_def split: option.splits)

lemma restart_chain_inv:
  assumes inv: "chain_inv s (t, h, d)" and seed: "GetLatestAccessLogHashForChain io ChainNameAccessLogs d = Inr seed"
  shows "chain_inv s (t, NewHashChain seed, d)"
proof -
  let ?start = "fst (chain_start ChainNameAccessLogs d)"
  have wf: "log_wf t d" and st: "hc.in_step ?start table_log h d"
    using inv by (auto simp: chain_inv_def)
  have rows: "access_by_id (\<lambda>r. al_chain_name r = ChainNameAccessLogs \<and> al_entry_hash r \<noteq> None) d = ad_access d"
    using wf sealed_row_hash by (fastforce simp: log_wf_def access_by_id_sorted row_wf_def filter_id_conv)
  have "seed = chain_tail ?start (table_log d)"
  proof (cases "ad_access d = []")
    case True
    then show ?thesis
      using seed rows
      by (auto simp: GetLatestAccessLogHashForChain_def Let_def seed_or_anchor_def GetAuditChainAnchor_def
          chain_start_def table_log_def split: option.splits)
  next
    case False
    then have "sealed_row (last (ad_access d))"
      using wf by (simp add: log_wf_def row_wf_def)
    then show ?thesis
      using seed rows False
      by (auto simp: GetLatestAccessLogHashForChain_def Let_def seed_or_anchor_def sealed_row_def deref_def
          table_log_def chain_tail_last last_map access_entry_def split: option.splits)
  qed
  then show ?thesis
    using inv by (simp add: chain_inv_def hc.in_step_def NewHashChain_def)
qed

lemma SignCheckpoint_keeps:
  "SignCheckpoint s c = Inr c' \<Longrightarrow> ck_ChainName c' = ck_ChainName c \<and> ck_HeadID c' = ck_HeadID c"
  by (auto simp: SignCheckpoint_def split: sum.splits)

lemma Checkpoint_chain_cases:
  assumes ck: "Checkpoint_chain io s n d = (d', e)"
  obtains "d' = d" "e = None \<Longrightarrow> access_by_id (\<lambda>r. al_chain_name r = n) d = []"
  | c where "access_by_id (\<lambda>r. al_chain_name r = n) d \<noteq> []" "ck_ChainName c = n"
      "ck_HeadID c = al_id (last (access_by_id (\<lambda>r. al_chain_name r = n) d))" "VerifyCheckpoint s c = None"
      "d' = d\<lparr>ad_checkpoints := ad_checkpoints d @ [c]\<rparr>" "e = None"
proof (cases "GetAccessLogChainStats io n d")
  case (Inl err)
  then show ?thesis
    using ck that(1) by (auto simp: Checkpoint_chain_def)
next
  case (Inr st)
  note stats = this
  obtain rowCount headID headHash where st: "st = (rowCount, headID, headHash)"
    by (cases st rule: prod_cases3)
  show ?thesis
  proof (cases "rowCount = 0")
    case True
    then have "access_by_id (\<lambda>r. al_chain_name r = n) d = []"
      using stats st by (auto simp: GetAccessLogChainStats_def Let_def split: option.splits if_splits)
    then show ?thesis
      using ck that(1) Inr st True by (simp add: Checkpoint_chain_def)
  next
    case False
    let ?rows = "access_by_id (\<lambda>r. al_chain_name r = n) d"
    let ?c0 = "\<lparr>ck_ChainName = n, ck_HeadID = headID, ck_HeadHash = headHash, ck_RowCount = rowCount,
      ck_CreatedAt = io_now io, ck_KeyID = [], ck_Signature = []\<rparr>"
    have rows: "?rows \<noteq> []" "headID = al_id (last ?rows)"
      using Inr st False by (auto simp: GetAccessLogChainStats_def Let_def split: option.splits if_splits)
    show ?thesis
    proof (cases "SignCheckpoint s ?c0")
      case (Inl err)
      then show ?thesis
        using ck that(1) stats st False by (auto simp: Checkpoint_chain_def)
    next
      case (Inr c)
      let ?c = "c\<lparr>ck_CreatedAt := truncate_micro (ck_CreatedAt c)\<rparr>"
      have "ck_ChainName ?c = n" "ck_HeadID ?c = headID" "VerifyCheckpoint s ?c = None"
        using SignCheckpoint_keeps [OF Inr] signed_checkpoint_verifies [OF Inr] by simp_all
      note c = this
      have val: "Checkpoint_chain io s n d =
          (case WriteAuditChainCheckpoint io c d of Inl e \<Rightarrow> (d, Some e) | Inr d' \<Rightarrow> (d', None))"
        using stats st False Inr by (simp add: Checkpoint_chain_def)
      show ?thesis
      proof (cases "io_fail io ''insert audit_chain_checkpoint''")
        case None
        then have "d' = d\<lparr>ad_checkpoints := ad_checkpoints d @ [?c]\<rparr>" "e = None"
          using val ck by (simp_all add: WriteAuditChainCheckpoint_def)
        then show ?thesis
          using that(2) [OF rows(1) c(1) _ c(3)] c(2) rows(2) by simp
      next
        case (Some err)
        then have "d' = d" "e \<noteq> None"
          using val ck by (auto simp: WriteAuditChainCheckpoint_def)
        then show ?thesis
          using that(1) by blast
      qed
    qed
  qed
qed

lemma checkpoint_chain_inv:
  assumes inv: "chain_inv s (t, h, d)" and ck: "Checkpoint_chain io s ChainNameAccessLogs d = (d', e)"
  shows "chain_inv s (t, h, d')"
proof -
  have wf: "log_wf t d"
    using inv by (simp add: chain_inv_def)
  have rows: "access_by_id (\<lambda>r. al_chain_name r = ChainNameAccessLogs) d = ad_access d"
    using wf by (auto simp: log_wf_def access_by_id_sorted row_wf_def filter_id_conv)
  from Checkpoint_chain_cases [OF ck, unfolded rows]
  show ?thesis
  proof cases
    case (2 c)
    have "al_id (last (ad_access d)) \<le> ad_access_seq d"
      using wf 2(1) by (simp add: log_wf_def row_wf_def)
    then show ?thesis
      using inv 2
      by (auto simp: chain_inv_def log_wf_def row_wf_def checkpoints_wf_def hc.in_step_def table_log_def chain_start_def)
  qed (use inv in simp)
qed

lemma audit_step_inv: "audit_step s x y \<Longrightarrow> chain_inv s x \<Longrightarrow> chain_inv s y"
proof (induction rule: audit_step.induct)
  case (step_log t io h rec d h' d' r)
  then show ?case
    by (auto simp: LogAccessChained_def split: prod.splits sum.splits intro: append_chain_inv)
next
  case (step_seal t io h rec seq d h' d' r')
  then show ?case
    by (auto simp: SealBufferedAccessLog_def split: prod.splits intro: append_chain_inv)
qed (blast intro: chain_inv_mono restart_chain_inv checkpoint_chain_inv cleanup_chain_inv trim_chain_inv)+

lemma chain_inv_init: "chain_inv s (t, NewHashChain [], empty_db)"
  by (simp add: chain_inv_def log_wf_def checkpoints_wf_def empty_db_def chain_start_def hc.in_step_def
      table_log_def NewHashChain_def)

lemma audit_steps_inv: "(audit_step s)\<^sup>*\<^sup>* x y \<Longrightarrow> chain_inv s x \<Longrightarrow> chain_inv s y"
  by (induction rule: rtranclp_induct) (auto intro: audit_step_inv)

lemma chain_inv_intact: "chain_inv s (t, h, d) \<Longrightarrow> intact_chain ChainNameAccessLogs d"
proof -
  assume inv: "chain_inv s (t, h, d)"
  then have "chain_rows ChainNameAccessLogs d = ad_access d"
    by (auto simp: chain_inv_def intro: chain_rows_wf)
  then show ?thesis
    using inv by (auto simp: intact_chain_def chain_inv_def hc.in_step_def table_log_def log_wf_def row_wf_def
        list_all_iff)
qed

lemma find_in_set: "find P xs = Some x \<Longrightarrow> x \<in> set xs \<and> P x"
  by (induction xs) (auto split: if_splits)

lemma chain_inv_accepted:
  assumes inv: "chain_inv s (t, h, d)" and q: "quiet io"
    and g: "signer = None \<or> signer = Some s \<and> ad_access d \<noteq> []"
  shows "access_logs_accepted io signer d"
  unfolding verify_access_accepts [OF q]
proof
  fix n
  assume n: "n \<in> chain_names d"
  have wf: "log_wf t d" "checkpoints_wf s d"
    using inv by (auto simp: chain_inv_def)
  have [simp]: "n = ChainNameAccessLogs"
    using n wf by (auto simp: chain_names_def log_wf_def row_wf_def checkpoints_wf_def)
  have "intact_chain n d"
    using chain_inv_intact [OF inv] by simp
  moreover have m: "max_id n d = (if ad_access d = [] then None else Some (al_id (last (ad_access d))))"
    using wf(1) by (simp add: max_id_def Let_def log_wf_def access_by_id_sorted row_wf_def)
  have "guard_ok signer n d"
  proof (cases signer)
    case None
    then show ?thesis by (simp add: guard_ok_def)
  next
    case (Some s')
    then have s': "s' = s" "ad_access d \<noteq> []"
      using g by auto
    show ?thesis
    proof (cases "find (\<lambda>c. ck_ChainName c = n) (rev (ad_checkpoints d))")
      case None
      then show ?thesis using Some by (simp add: guard_ok_def)
    next
      case (Some c)
      then have "c \<in> set (ad_checkpoints d)"
        using find_in_set by fastforce
      then have "VerifyCheckpoint s c = None" "ck_HeadID c \<le> al_id (last (ad_access d))"
        using wf(2) s' by (auto simp: checkpoints_wf_def)
      then show ?thesis
        using Some \<open>signer = Some s'\<close> s' m by (simp add: guard_ok_def checkpointTruncated_def)
    qed
  qed
  ultimately show "intact_chain n d \<and> guard_ok signer n d" ..
qed

section \<open>Properties of the access-log chains\<close>

text \<open>
  C10. A verification that meets no database error accepts \<^verbatim>\<open>access_logs\<close> exactly when every chain named by
  a row or by a checkpoint is intact (each row past the anchor carries an address, a hash and format
  version 2, and its hash is the hash of its predecessor's hash and its content) and passes the guard
  of its latest signed checkpoint.
\<close>

theorem verifier_accepts_exactly:
  assumes "quiet io"
  shows "access_logs_accepted io signer d \<longleftrightarrow>
    (\<forall>n\<in>chain_names d. intact_chain n d \<and> guard_ok signer n d)"
  using assms by (rule verify_access_accepts)

definition demo_io :: audit_io where
  "demo_io = \<lparr>io_now = 0, io_fail = (\<lambda>_. None), io_cancel = (\<lambda>_. None), io_uuid = Some,
     io_marshal = (\<lambda>_. Inr ''{}''), io_unmarshal = (\<lambda>_. Inr [])\<rparr>"

lemma quiet_demo_io: "quiet demo_io"
  by (simp add: quiet_def demo_io_def)

definition demo_row :: access_row where
  "demo_row = access_row_of \<lparr>rec_ExternalID = ''did:a'', rec_Method = ''eth_call'', rec_StatusCode = 200,
     rec_IPAddress = ''10.0.0.1'', rec_CorrelationID = [], rec_Params = None, rec_ResponseStatus = None,
     rec_OrgID = [], rec_DenialReason = []\<rparr> 1 0 None None ChainNameAccessLogs"

definition demo_db :: audit_db where
  "demo_db = empty_db\<lparr>ad_access_seq := 1, ad_access := [demo_row]\<rparr>"

theorem verifier_accepts_exactly_witness:
  "quiet demo_io \<and> \<not> access_logs_accepted demo_io None demo_db"
proof -
  have "chain_rows ChainNameAccessLogs demo_db = [demo_row]"
    by (simp add: chain_rows_def access_by_id_def demo_db_def demo_row_def access_row_of_def chain_start_def
        empty_db_def)
  then have "\<not> intact_chain ChainNameAccessLogs demo_db"
    by (simp add: intact_chain_def sealed_row_def demo_row_def access_row_of_def deref_def)
  moreover have "ChainNameAccessLogs \<in> chain_names demo_db"
    by (simp add: chain_names_def demo_db_def demo_row_def access_row_of_def ChainNameAccessLogs_def)
  ultimately show ?thesis
    using verifier_accepts_exactly [OF quiet_demo_io, of None demo_db] quiet_demo_io by blast
qed


definition demo_rec :: AccessLogRecord where
  "demo_rec = \<lparr>rec_ExternalID = ''did:a'', rec_Method = ''eth_call'', rec_StatusCode = 200,
     rec_IPAddress = ''10.0.0.1'', rec_CorrelationID = [], rec_Params = None, rec_ResponseStatus = None,
     rec_OrgID = [], rec_DenialReason = []\<rparr>"

lemma demo_logged:
  "\<exists>h' d' r. LogAccessChained demo_io (Some (NewHashChain [])) demo_rec empty_db = (Some h', d', r) \<and>
     ad_access d' \<noteq> [] \<and> al_org_id (hd (ad_access d')) = None"
  by (simp add: LogAccessChained_def Append_def access_build_def nextval_access_def insert_access_def
      demo_io_def empty_db_def Let_def access_row_of_def nullableText_def demo_rec_def)


lemma walk_access_scanned:
  "quiet io \<Longrightarrow> walk_access io rows res prev = Finished res' p \<Longrightarrow> vr_OK res' \<Longrightarrow>
     vr_ScannedRows res' = vr_ScannedRows res + int (length rows)"
proof (induction rows arbitrary: res prev)
  case (Cons r rows)
  then show ?case
    by (auto simp: check_row_def Let_def split: sum.splits if_splits)
qed auto

lemma verified_chain:
  assumes q: "quiet io" and v: "verifyOneAccessLogChain io n d = (Some res, None)" "vr_OK res"
  shows "intact_chain n d" and "vr_ScannedRows res = int (length (chain_rows n d))"
    and "vr_TailHash res = chain_tail (fst (chain_start n d)) (map access_entry (chain_rows n d))"
    and "vr_Seed res = fst (chain_start n d)"
proof -
  show intact: "intact_chain n d"
    using verify_one_accepts [OF q, of n d] v by blast
  let ?res = "(new_result ChainNameAccessLogs)\<lparr>vr_Seed := fst (chain_start n d)\<rparr>"
  let ?w = "walk_access io (chain_rows n d) ?res (fst (chain_start n d))"
  have "walk_accepts ?w"
    using intact q by (subst walk_access_accepts) (simp_all add: new_result_def intact_chain_def)
  from walk_access_tail [OF q this] obtain res'
    where w: "?w = Finished res' (chain_tail (fst (chain_start n d)) (map access_entry (chain_rows n d)))" "vr_OK res'"
    by blast
  have res: "res = res'\<lparr>vr_TailHash := chain_tail (fst (chain_start n d)) (map access_entry (chain_rows n d))\<rparr>"
    using v w q by (simp add: verifyOneAccessLogChain_def Let_def startingPrev_quiet chain_rows_def split: prod.splits)
  show "vr_ScannedRows res = int (length (chain_rows n d))"
    using walk_access_scanned [OF q w] res by (simp add: new_result_def)
  show "vr_TailHash res = chain_tail (fst (chain_start n d)) (map access_entry (chain_rows n d))"
    using res by simp
  have "walk_access io rows r p = Finished r' p' \<Longrightarrow> vr_Seed r' = vr_Seed r" for rows r p r' p'
    by (induction rows arbitrary: r p)
      (auto simp: check_row_def Let_def null_hash_def split: option.splits sum.splits if_splits)
  from this [OF w(1)] show "vr_Seed res = fst (chain_start n d)"
    using res by simp
qed

text \<open>
  C11. Two states of a chain that both verify and report the same seed, number of rows and tail hash hold
  the same contents row by row, unless some row of the one and the row at its place in the other are
  two different inputs with the same SHA-256 digest.
\<close>

theorem tampering_needs_collision:
  assumes "quiet io"
    and "verifyOneAccessLogChain io n d = (Some res, None)" "vr_OK res"
    and "verifyOneAccessLogChain io n d' = (Some res', None)" "vr_OK res'"
    and "vr_Seed res = vr_Seed res'" "vr_ScannedRows res = vr_ScannedRows res'" "vr_TailHash res = vr_TailHash res'"
  shows "map access_content (chain_rows n d) = map access_content (chain_rows n d') \<or>
    (\<exists>i. collides_at (vr_Seed res) (map access_entry (chain_rows n d)) (map access_entry (chain_rows n d')) i)"
proof -
  note v = verified_chain [OF assms(1, 2, 3)] and v' = verified_chain [OF assms(1, 4, 5)]
  have "map access_entry (chain_rows n d) = map access_entry (chain_rows n d') \<or>
    (\<exists>i. collides_at (vr_Seed res) (map access_entry (chain_rows n d)) (map access_entry (chain_rows n d')) i)"
    using v v' assms(6, 7, 8) by (intro chained_tail_determines) (simp_all add: intact_chain_def)
  moreover have "map access_content rows = map fst (map access_entry rows)" for rows
    by (simp add: access_entry_def)
  ultimately show ?thesis
    by metis
qed

definition demo_relabel :: "audit_db \<Rightarrow> audit_db" where
  "demo_relabel d = d\<lparr>ad_access := map (\<lambda>r. r\<lparr>al_org_id := Some ''other''\<rparr>) (ad_access d)\<rparr>"

lemma sort_key_map: "(\<And>x. f (g x) = f x) \<Longrightarrow> sort_key f (map g xs) = map g (sort_key f xs)"
proof -
  assume g: "\<And>x. f (g x) = f x"
  have "insort_key f (g x) (map g ys) = map g (insort_key f x ys)" for x ys
    by (induction ys) (simp_all add: g)
  then show ?thesis
    by (induction xs) simp_all
qed

lemma demo_relabel_rows:
  "chain_rows n (demo_relabel d) = map (\<lambda>r. r\<lparr>al_org_id := Some ''other''\<rparr>) (chain_rows n d)"
  by (simp add: chain_rows_def access_by_id_def demo_relabel_def filter_map o_def chain_start_def
      sort_key_map [symmetric])

lemma demo_relabel_entries:
  "map access_entry (chain_rows n (demo_relabel d)) = map access_entry (chain_rows n d)"
  "list_all sealed_row (chain_rows n (demo_relabel d)) = list_all sealed_row (chain_rows n d)"
  by (simp_all add: demo_relabel_rows access_entry_def access_content_def sealed_row_def list_all_iff
      split: option.split)

theorem tampering_needs_collision_witness:
  "\<exists>d res res'. verifyOneAccessLogChain demo_io ChainNameAccessLogs d = (Some res, None) \<and> vr_OK res \<and>
     verifyOneAccessLogChain demo_io ChainNameAccessLogs (demo_relabel d) = (Some res', None) \<and> vr_OK res' \<and>
     ad_access (demo_relabel d) \<noteq> ad_access d \<and>
     (map access_content (chain_rows ChainNameAccessLogs d) =
        map access_content (chain_rows ChainNameAccessLogs (demo_relabel d)) \<or>
      (\<exists>i. collides_at (vr_Seed res) (map access_entry (chain_rows ChainNameAccessLogs d))
         (map access_entry (chain_rows ChainNameAccessLogs (demo_relabel d))) i))"
proof -
  obtain h' d r where l: "LogAccessChained demo_io (Some (NewHashChain [])) demo_rec empty_db = (Some h', d, r)"
    "ad_access d \<noteq> []" "al_org_id (hd (ad_access d)) = None"
    using demo_logged by blast
  have "chain_inv (NewHMACSigner [] []) (0, h', d)"
    using audit_step_inv [OF step_log [OF _ l(1), of 0] chain_inv_init] by (simp add: demo_io_def)
  then have i: "intact_chain ChainNameAccessLogs d"
    by (rule chain_inv_intact)
  then have i': "intact_chain ChainNameAccessLogs (demo_relabel d)"
    by (simp add: intact_chain_def demo_relabel_entries) (simp add: demo_relabel_def chain_start_def)
  obtain res res' where v: "verifyOneAccessLogChain demo_io ChainNameAccessLogs d = (Some res, None)" "vr_OK res"
    "verifyOneAccessLogChain demo_io ChainNameAccessLogs (demo_relabel d) = (Some res', None)" "vr_OK res'"
    using i i' verify_one_accepts [OF quiet_demo_io] by metis
  note w = verified_chain [OF quiet_demo_io v(1, 2)] and w' = verified_chain [OF quiet_demo_io v(3, 4)]
  have start: "chain_start n (demo_relabel d) = chain_start n d" for n
    by (simp add: demo_relabel_def chain_start_def)
  have "al_org_id (hd (ad_access (demo_relabel d))) = Some ''other''"
    using l(2) by (cases "ad_access d") (simp_all add: demo_relabel_def)
  then have diff: "ad_access (demo_relabel d) \<noteq> ad_access d"
    using l(3) by auto
  have same: "vr_Seed res = vr_Seed res'" "vr_ScannedRows res = vr_ScannedRows res'" "vr_TailHash res = vr_TailHash res'"
    using w(2, 3, 4) w'(2, 3, 4) by (simp_all add: start demo_relabel_entries(1)) (simp add: demo_relabel_rows)
  show ?thesis
    using tampering_needs_collision [OF quiet_demo_io v same] v diff by blast
qed

text \<open>
  C12. Once a checkpoint of a chain is signed and stored, a table in which every row of that chain at or
  above the signed head is gone is rejected, whatever else it holds: tail truncation is noticed.
\<close>

theorem tail_truncation_detected:
  assumes "Checkpoint_chain io0 s n d = (d1, None)" "access_by_id (\<lambda>r. al_chain_name r = n) d \<noteq> []" "n \<noteq> []"
    and "ad_checkpoints d2 = ad_checkpoints d1"
    and "0 < al_id (last (access_by_id (\<lambda>r. al_chain_name r = n) d))"
    and "\<forall>r\<in>set (ad_access d2). al_chain_name r = n \<longrightarrow>
      al_id r < al_id (last (access_by_id (\<lambda>r. al_chain_name r = n) d))"
    and "quiet io"
  shows "\<not> access_logs_accepted io (Some s) d2"
  using Checkpoint_chain_cases [OF assms(1)]
proof cases
  case 1
  then show ?thesis
    using assms(2) by simp
next
  case (2 c)
  have "find (\<lambda>c. ck_ChainName c = n) (rev (ad_checkpoints d2)) = Some c"
    using 2 assms(4) by simp
  moreover have "checkpointTruncated (Some c) (max_id n d2)"
  proof (cases "access_by_id (\<lambda>r. al_chain_name r = n) d2 = []")
    case True
    then show ?thesis
      using 2 assms(5) by (simp add: checkpointTruncated_def max_id_def)
  next
    case False
    then have "last (access_by_id (\<lambda>r. al_chain_name r = n) d2) \<in> set (access_by_id (\<lambda>r. al_chain_name r = n) d2)"
      by (rule last_in_set)
    then show ?thesis
      using 2 assms(6) False by (simp add: checkpointTruncated_def max_id_def access_by_id_def)
  qed
  ultimately have "\<not> guard_ok (Some s) n d2"
    by (simp add: guard_ok_def)
  moreover have "n \<in> chain_names d2"
    using 2 assms(3, 4) by (auto simp: chain_names_def)
  ultimately show ?thesis
    using verify_access_accepts [OF assms(7)] by blast
qed

theorem tail_truncation_detected_witness:
  "\<exists>d1. Checkpoint_chain demo_io (NewHMACSigner ''default'' [1]) ChainNameAccessLogs demo_db = (d1, None) \<and>
     \<not> access_logs_accepted demo_io (Some (NewHMACSigner ''default'' [1])) (d1\<lparr>ad_access := []\<rparr>)"
proof -
  have rows: "access_by_id (\<lambda>r. al_chain_name r = ChainNameAccessLogs) demo_db = [demo_row]"
    by (simp add: access_by_id_def demo_db_def demo_row_def access_row_of_def)
  have "\<exists>d1. Checkpoint_chain demo_io (NewHMACSigner ''default'' [1]) ChainNameAccessLogs demo_db = (d1, None)"
    by (simp add: Checkpoint_chain_def GetAccessLogChainStats_def rows SignCheckpoint_def Sign_def NewHMACSigner_def
        WriteAuditChainCheckpoint_def demo_io_def)
  then obtain d1 where d1:
    "Checkpoint_chain demo_io (NewHMACSigner ''default'' [1]) ChainNameAccessLogs demo_db = (d1, None)"
    by blast
  have "\<not> access_logs_accepted demo_io (Some (NewHMACSigner ''default'' [1])) (d1\<lparr>ad_access := []\<rparr>)"
    by (rule tail_truncation_detected [OF d1])
      (simp_all add: rows quiet_demo_io, simp_all add: ChainNameAccessLogs_def demo_row_def access_row_of_def)
  then show ?thesis
    using d1 by blast
qed

text \<open>
  A rewritten chain: new contents under the old ids, hashed anew from the same seed.
\<close>

fun rehash :: "string \<Rightarrow> access_row list \<Rightarrow> access_row list" where
  "rehash prev [] = []"
| "rehash prev (r # rs) =
     (let h = computeChainHash prev (access_content r)
      in r\<lparr>al_entry_hash := Some h, al_hash_format_version := 2\<rparr> # rehash h rs)"

lemma access_content_hash [simp]:
  "access_content (r\<lparr>al_entry_hash := h, al_hash_format_version := v\<rparr>) = access_content r"
  by (simp add: access_content_def split: option.split)

lemma rehash_chained: "chained prev (map access_entry (rehash prev rows))"
  by (induction prev rows rule: rehash.induct) (simp_all add: Let_def access_entry_def deref_def)

lemma rehash_ids [simp]:
  "map al_id (rehash prev rows) = map al_id rows" "map al_chain_name (rehash prev rows) = map al_chain_name rows"
  by (induction prev rows rule: rehash.induct) (simp_all add: Let_def)

lemma rehash_sealed:
  "\<forall>r\<in>set rows. al_ip_address r \<noteq> None \<Longrightarrow> list_all sealed_row (rehash prev rows)"
  by (induction prev rows rule: rehash.induct) (simp_all add: Let_def sealed_row_def deref_def)

lemma max_id_sorted:
  "sorted_wrt (<) (map al_id (ad_access d)) \<Longrightarrow> \<forall>c\<in>set (map al_chain_name (ad_access d)). c = n \<Longrightarrow>
     max_id n d = (if ad_access d = [] then None else Some (last (map al_id (ad_access d))))"
  by (simp add: max_id_def access_by_id_sorted last_map)

text \<open>
  C39. In a single-chain table that verifies, the contents of every row can be replaced and the hashes
  recomputed, and the table verifies again, with the same signed checkpoint: the guard compares the
  head's id and neither the head hash nor the row count the checkpoint was signed over.
\<close>

theorem rewritten_chain_passes:
  assumes "quiet io" "access_logs_accepted io signer d"
    and "sorted_wrt (<) (map al_id (ad_access d))"
    and "\<forall>r\<in>set (ad_access d). al_chain_name r = ChainNameAccessLogs \<and> snd (chain_start ChainNameAccessLogs d) < al_id r"
    and "\<forall>r. al_id (f r) = al_id r \<and> al_chain_name (f r) = al_chain_name r \<and> al_ip_address (f r) \<noteq> None"
    and "\<forall>c\<in>set (ad_checkpoints d). ck_ChainName c = ChainNameAccessLogs"
  shows "access_logs_accepted io signer
    (d\<lparr>ad_access := rehash (fst (chain_start ChainNameAccessLogs d)) (map f (ad_access d))\<rparr>)"
proof -
  let ?seed = "fst (chain_start ChainNameAccessLogs d)"
  define R where "R = rehash ?seed (map f (ad_access d))"
  have ids: "map al_id R = map al_id (ad_access d)"
    and names: "map al_chain_name R = map al_chain_name (ad_access d)"
    using assms(5) by (simp_all add: R_def)
  have good: "chained ?seed (map access_entry R)" "list_all sealed_row R"
    using assms(5) by (simp_all add: R_def rehash_chained rehash_sealed)
  let ?d = "d\<lparr>ad_access := R\<rparr>"
  have start: "chain_start n ?d = chain_start n d" for n
    by (simp add: chain_start_def)
  have inside: "al_chain_name r = ChainNameAccessLogs \<and> snd (chain_start ChainNameAccessLogs d) < al_id r"
    if "r \<in> set R" for r
  proof -
    have "al_id r \<in> set (map al_id R)" "al_chain_name r \<in> set (map al_chain_name R)"
      using that by auto
    then show ?thesis
      unfolding ids names using assms(4) by auto
  qed
  have rows: "chain_rows ChainNameAccessLogs ?d = R"
    using inside assms(3) ids by (simp add: chain_rows_def access_by_id_sorted start filter_id_conv)
  have "intact_chain ChainNameAccessLogs ?d"
    unfolding intact_chain_def rows start using good by simp
  moreover have "set (map al_chain_name R) = set (map al_chain_name (ad_access d))"
    by (simp only: names)
  then have "chain_names ?d = chain_names d"
    by (simp add: chain_names_def)
  moreover have "chain_names d \<subseteq> {ChainNameAccessLogs}"
    using assms(4, 6) by (auto simp: chain_names_def)
  moreover have "max_id ChainNameAccessLogs ?d = max_id ChainNameAccessLogs d"
    using max_id_sorted [of ?d ChainNameAccessLogs] max_id_sorted [of d ChainNameAccessLogs] assms(3, 4) ids inside
      map_eq_imp_length_eq [OF ids]
    by auto
  then have "guard_ok signer ChainNameAccessLogs ?d = guard_ok signer ChainNameAccessLogs d"
    by (simp add: guard_ok_def split: option.split)
  ultimately show ?thesis
    using assms(2) unfolding verify_access_accepts [OF assms(1)] R_def by auto
qed

definition demo_forge :: "access_row \<Rightarrow> access_row" where
  "demo_forge r = r\<lparr>al_external_id := ''did:mallory'', al_ip_address := Some ''10.0.0.9''\<rparr>"

definition demo_signer :: HMACSigner where
  "demo_signer = NewHMACSigner ''default'' [1]"

lemma demo_checkpointed:
  "\<exists>h d. chain_inv demo_signer (0, h, d) \<and> ad_access d \<noteq> [] \<and> ad_checkpoints d \<noteq> []"
proof -
  obtain h d r where l: "LogAccessChained demo_io (Some (NewHashChain [])) demo_rec empty_db = (Some h, d, r)"
    "ad_access d \<noteq> []"
    using demo_logged by blast
  have inv: "chain_inv demo_signer (0, h, d)"
    using audit_step_inv [OF step_log [OF _ l(1), of 0] chain_inv_init] by (simp add: demo_io_def)
  then have rows: "access_by_id (\<lambda>r. al_chain_name r = ChainNameAccessLogs) d = ad_access d"
    by (auto simp: chain_inv_def log_wf_def access_by_id_sorted row_wf_def filter_id_conv)
  have "\<exists>d'. Checkpoint_chain demo_io demo_signer ChainNameAccessLogs d = (d', None)"
    using l(2) by (simp add: Checkpoint_chain_def GetAccessLogChainStats_def Let_def rows SignCheckpoint_def Sign_def
        NewHMACSigner_def WriteAuditChainCheckpoint_def demo_io_def demo_signer_def)
  then obtain d' where ck: "Checkpoint_chain demo_io demo_signer ChainNameAccessLogs d = (d', None)"
    by blast
  show ?thesis
    using Checkpoint_chain_cases [OF ck]
  proof cases
    case 1
    then show ?thesis using l(2) rows by simp
  next
    case (2 c)
    then show ?thesis
      using checkpoint_chain_inv [OF inv ck] l(2) by (intro exI [of _ h] exI [of _ d']) simp
  qed
qed

theorem rewritten_chain_passes_witness:
  "\<exists>d. ad_access d \<noteq> [] \<and> ad_checkpoints d \<noteq> [] \<and> access_logs_accepted demo_io (Some demo_signer) d \<and>
     access_logs_accepted demo_io (Some demo_signer)
       (d\<lparr>ad_access := rehash (fst (chain_start ChainNameAccessLogs d)) (map demo_forge (ad_access d))\<rparr>)"
proof -
  obtain h d where d: "chain_inv demo_signer (0, h, d)" "ad_access d \<noteq> []" "ad_checkpoints d \<noteq> []"
    using demo_checkpointed by blast
  have acc: "access_logs_accepted demo_io (Some demo_signer) d"
    using chain_inv_accepted [OF d(1) quiet_demo_io] d(2) by blast
  have "access_logs_accepted demo_io (Some demo_signer)
      (d\<lparr>ad_access := rehash (fst (chain_start ChainNameAccessLogs d)) (map demo_forge (ad_access d))\<rparr>)"
    by (rule rewritten_chain_passes [OF quiet_demo_io acc])
      (use d(1) in \<open>simp_all add: chain_inv_def log_wf_def row_wf_def checkpoints_wf_def demo_forge_def\<close>)
  then show ?thesis
    using acc d by blast
qed

end
