(* ===== verification/Rbac_Audit.thy ===== *)
theory Rbac_Audit
  imports Audit_Properties
begin

text \<open>
  The chain of \<^verbatim>\<open>rbac_audit_log\<close>: what its verifier accepts, that \<^verbatim>\<open>CreateAuditLog\<close> and a restart keep it
  acceptable, and the two writes of the retention manager that go past the chain
  (\<^verbatim>\<open>LogAuditAction\<close> and \<^verbatim>\<open>CleanupRBACAuditLogs\<close>).
\<close>

section \<open>What the verifier accepts\<close>

definition rbac_sealed :: "rbac_row \<Rightarrow> bool" where
  "rbac_sealed r \<longleftrightarrow> deref (rr_entry_hash r) \<noteq> [] \<and> rr_hash_format_version r = 1"

definition rbac_entry :: "rbac_row \<Rightarrow> string \<times> string" where
  "rbac_entry r = (rbac_content r, deref (rr_entry_hash r))"

definition rbac_rows :: "audit_db \<Rightarrow> rbac_row list" where
  "rbac_rows d = rbac_by_id (\<lambda>r. rr_id r > snd (chain_start ChainNameRBACAuditLog d)) d"

definition rbac_accepted :: "audit_io \<Rightarrow> HMACSigner option \<Rightarrow> audit_db \<Rightarrow> bool" where
  "rbac_accepted io signer d \<longleftrightarrow>
     (\<exists>res. Verify io signer ChainNameRBACAuditLog d = (Some res, None) \<and> vr_OK res)"

lemma walk_rbac_accepts:
  "quiet io \<Longrightarrow> vr_OK res \<Longrightarrow>
     walk_accepts (walk_rbac io rows res prev) \<longleftrightarrow> list_all rbac_sealed rows \<and> chained prev (map rbac_entry rows)"
proof (induction rows arbitrary: res prev)
  case Nil
  then show ?case by (simp add: walk_accepts_def)
next
  case (Cons r rows)
  then show ?case
    by (auto simp: check_row_accepts rbac_sealed_def rbac_entry_def)
qed

lemma walk_rbac_tail:
  "quiet io \<Longrightarrow> walk_accepts (walk_rbac io rows res prev) \<Longrightarrow>
     \<exists>res'. walk_rbac io rows res prev = Finished res' (chain_tail prev (map rbac_entry rows)) \<and> vr_OK res'"
proof (induction rows arbitrary: res prev)
  case Nil
  then show ?case by (simp add: walk_accepts_def)
next
  case (Cons r rows)
  then have acc: "deref (rr_entry_hash r) = computeChainHash prev (rbac_content r)"
    "rr_hash_format_version r = 1"
    "walk_accepts (walk_rbac io rows (res\<lparr>vr_ScannedRows := vr_ScannedRows res + 1\<rparr>) (deref (rr_entry_hash r)))"
    by (auto simp: check_row_accepts)
  from Cons.IH [OF Cons.prems(1) acc(3)] show ?case
    using acc Cons.prems(1) by (auto simp: check_row_def Let_def rbac_entry_def)
qed

definition newest_rbac_hash :: "audit_db \<Rightarrow> string" where
  "newest_rbac_hash d =
     (let rows = rbac_by_id (\<lambda>r. rr_entry_hash r \<noteq> None) d;
          newest = (if rows = [] then [] else deref (rr_entry_hash (last rows)))
      in if newest = [] then fst (chain_start ChainNameRBACAuditLog d) else newest)"

lemma newest_rbac_hash_quiet: "quiet io \<Longrightarrow> GetLatestRBACAuditLogHash io d = Inr (newest_rbac_hash d)"
  by (auto simp: GetLatestRBACAuditLogHash_def newest_rbac_hash_def seed_or_anchor_def GetAuditChainAnchor_def
      chain_start_def deref_def Let_def split: option.splits)

lemma verify_rbac_accepts:
  assumes q: "quiet io"
  shows "rbac_accepted io signer d \<longleftrightarrow>
    list_all rbac_sealed (rbac_rows d) \<and>
    chained (fst (chain_start ChainNameRBACAuditLog d)) (map rbac_entry (rbac_rows d)) \<and>
    newest_rbac_hash d \<in> {[], chain_tail (fst (chain_start ChainNameRBACAuditLog d)) (map rbac_entry (rbac_rows d))}"
proof -
  let ?seed = "fst (chain_start ChainNameRBACAuditLog d)"
  let ?res = "(new_result ChainNameRBACAuditLog)\<lparr>vr_Seed := ?seed\<rparr>"
  let ?w = "walk_rbac io (rbac_rows d) ?res ?seed"
  have acc: "walk_accepts ?w \<longleftrightarrow> list_all rbac_sealed (rbac_rows d) \<and> chained ?seed (map rbac_entry (rbac_rows d))"
    using q by (intro walk_rbac_accepts) (simp_all add: new_result_def)
  have val: "Verify io signer ChainNameRBACAuditLog d =
    (case ?w of
       Returned res' e \<Rightarrow> (Some res', e)
     | Finished res' prev \<Rightarrow>
         (let res'' = res'\<lparr>vr_TailHash := prev\<rparr>
          in if vr_OK res'' \<and> newest_rbac_hash d \<noteq> [] \<and> newest_rbac_hash d \<noteq> prev
             then (Some ((failed ''anchor_mismatch'' res'')\<lparr>vr_FirstMismatchHash := prev\<rparr>), None)
             else (Some res'', None)))"
    using q by (simp add: Verify_def verifyRBACAuditLog_def Let_def startingPrev_quiet newest_rbac_hash_quiet
        rbac_rows_def ChainNameAccessLogs_def ChainNameRBACAuditLog_def split: prod.splits walk.splits)
  show ?thesis
  proof (cases "walk_accepts ?w")
    case True
    from walk_rbac_tail [OF q True] show ?thesis
      using acc True val by (auto simp: rbac_accepted_def Let_def split: if_splits)
  next
    case False
    then show ?thesis
      using acc val by (auto simp: rbac_accepted_def walk_accepts_def Let_def split: walk.splits)
  qed
qed

section \<open>Writing through the chain\<close>

text \<open>
  The column type \<^verbatim>\<open>UUID\<close> gives back the text it was given (Postgres' own spelling is the one the proxy
  generates), or the statement fails.
\<close>

definition uuid_verbatim :: "audit_io \<Rightarrow> bool" where
  "uuid_verbatim io \<longleftrightarrow> (\<forall>s. io_uuid io s \<in> {None, Some s})"

inductive rbac_step :: "HashChain \<times> audit_db \<Rightarrow> HashChain \<times> audit_db \<Rightarrow> bool" where
  rbac_create:
    "uuid_verbatim io \<Longrightarrow> CreateAuditLog io (Some h) entry d = (Some h', d', r) \<Longrightarrow> rbac_step (h, d) (h', d')"
| rbac_restart:
    "GetLatestRBACAuditLogHash io d = Inr seed \<Longrightarrow> rbac_step (h, d) (NewHashChain seed, d)"

definition rbac_wf :: "(string \<times> AuditChainAnchor) list \<Rightarrow> audit_db \<Rightarrow> bool" where
  "rbac_wf A d \<longleftrightarrow>
     sorted_wrt (<) (map rr_id (ad_rbac d)) \<and> ad_anchors d = A \<and>
     (\<forall>r\<in>set (ad_rbac d). snd (chain_start ChainNameRBACAuditLog d) < rr_id r \<and> rr_id r \<le> ad_rbac_seq d \<and>
        rbac_sealed r) \<and>
     snd (chain_start ChainNameRBACAuditLog d) \<le> ad_rbac_seq d"

definition rbac_log :: "audit_db \<Rightarrow> (string \<times> string) list" where
  "rbac_log d = map rbac_entry (ad_rbac d)"

definition rbac_inv :: "HashChain \<times> audit_db \<Rightarrow> bool" where
  "rbac_inv st \<longleftrightarrow>
     (case st of (h, d) \<Rightarrow> rbac_wf (ad_anchors d) d \<and>
        hc.in_step (fst (chain_start ChainNameRBACAuditLog d)) rbac_log h d)"

lemma rbac_by_id_sorted:
  "sorted_wrt (<) (map rr_id (ad_rbac d)) \<Longrightarrow> rbac_by_id P d = filter P (ad_rbac d)"
proof -
  assume "sorted_wrt (<) (map rr_id (ad_rbac d))"
  then have "sorted (map rr_id (filter P (ad_rbac d)))"
    by (metis strict_sorted_imp_sorted sorted_filter)
  then show ?thesis
    by (simp add: rbac_by_id_def sort_key_id_if_sorted)
qed

lemma rbac_content_of:
  "rbac_content (rbac_row_of entry old new rowID t h) = buildRBACAuditContent rowID t entry old new"
  by (simp add: rbac_content_def rbac_row_of_def RBACAuditChainContentV1_def buildRBACAuditContent_def deref_def)

lemma insert_rbac_cases:
  assumes "uuid_verbatim io"
  obtains e where "insert_rbac io r d = (d, Some e)"
  | "insert_rbac io r d = (d\<lparr>ad_rbac := ad_rbac d @ [r]\<rparr>, None)"
proof -
  have u: "uuid_column io v = Inr v \<or> (\<exists>e. uuid_column io v = Inl e)" for v
  proof (cases v)
    case (Some s)
    then show ?thesis
      using assms [unfolded uuid_verbatim_def, rule_format, of s] by (auto simp: uuid_column_def)
  qed (simp add: uuid_column_def)
  have "(\<exists>e. insert_rbac io r d = (d, Some e)) \<or> insert_rbac io r d = (d\<lparr>ad_rbac := ad_rbac d @ [r]\<rparr>, None)"
  proof (cases "io_fail io ''insert rbac_audit_log''")
    case None
    then show ?thesis
      using u [of "rr_actor_id r"] u [of "rr_resource_id r"] u [of "rr_org_id r"]
      by (elim disjE exE) (simp_all add: insert_rbac_def)
  qed (simp add: insert_rbac_def)
  then show ?thesis
    using that by blast
qed

lemma nextval_rbac_cases:
  obtains e where "nextval_rbac io d = (d, Inl e)"
  | "nextval_rbac io d = (d\<lparr>ad_rbac_seq := ad_rbac_seq d + 1\<rparr>, Inr (ad_rbac_seq d + 1))"
proof -
  have "(\<exists>e. nextval_rbac io d = (d, Inl e)) \<or>
      nextval_rbac io d = (d\<lparr>ad_rbac_seq := ad_rbac_seq d + 1\<rparr>, Inr (ad_rbac_seq d + 1))"
    by (simp add: nextval_rbac_def split: option.split)
  then show ?thesis
    using that by blast
qed

lemma rbac_wf_seq: "rbac_wf A d \<Longrightarrow> rbac_wf A (d\<lparr>ad_rbac_seq := ad_rbac_seq d + 1\<rparr>)"
  by (auto simp: rbac_wf_def chain_start_def)

lemma rbac_wf_insert:
  assumes "rbac_wf A d" "rr_id r = ad_rbac_seq d + 1" "rbac_sealed r"
  shows "rbac_wf A (d\<lparr>ad_rbac_seq := ad_rbac_seq d + 1, ad_rbac := ad_rbac d @ [r]\<rparr>)"
proof -
  have "\<forall>x\<in>set (ad_rbac d). rr_id x < rr_id r"
    using assms by (force simp: rbac_wf_def)
  then show ?thesis
    using assms by (auto simp: rbac_wf_def chain_start_def sorted_wrt_append)
qed

lemma rbac_build_appends:
  assumes "uuid_verbatim io"
  shows "appends_entry (rbac_wf A) rbac_log (rbac_build io entry old new)"
  unfolding appends_entry_def
proof (intro allI impI)
  fix prev d
  assume I: "rbac_wf A d"
  let ?d1 = "d\<lparr>ad_rbac_seq := ad_rbac_seq d + 1\<rparr>"
  show "case rbac_build io entry old new prev d of
      (s1, Inl _) \<Rightarrow> rbac_wf A s1 \<and> rbac_log s1 = rbac_log d
    | (s1, Inr (_, None)) \<Rightarrow> rbac_wf A s1 \<and> rbac_log s1 = rbac_log d
    | (s1, Inr (content, Some write)) \<Rightarrow>
        (\<forall>h. h \<noteq> [] \<longrightarrow> (case write h s1 of
           (s2, None) \<Rightarrow> rbac_wf A s2 \<and> rbac_log s2 = rbac_log d @ [(content, h)]
         | (s2, Some _) \<Rightarrow> rbac_wf A s2 \<and> rbac_log s2 = rbac_log d))"
  proof (cases rule: nextval_rbac_cases [of io d])
    case (1 e)
    then show ?thesis
      using I by (simp add: rbac_build_def)
  next
    case 2
    define row where "row h = rbac_row_of entry old new (ad_rbac_seq d + 1) (truncate_micro (io_now io)) (Some h)" for h
    have d1: "rbac_wf A ?d1" "rbac_log ?d1 = rbac_log d"
      using I rbac_wf_seq by (simp_all add: rbac_log_def)
    have d3: "h \<noteq> [] \<Longrightarrow> rbac_wf A (?d1\<lparr>ad_rbac := ad_rbac d @ [row h]\<rparr>)" for h
      using rbac_wf_insert [OF I, of "row h"] by (simp add: row_def rbac_row_of_def rbac_sealed_def deref_def)
    have entry: "rbac_entry (row h) = (rbac_content (row []), h)" for h
      by (simp add: rbac_entry_def row_def rbac_content_of) (simp add: rbac_row_of_def deref_def)
    have b: "rbac_build io entry old new prev d = (?d1, Inr (rbac_content (row []),
        Some (\<lambda>hash d2. case insert_rbac io (row hash) d2 of
          (d3, Some execErr) \<Rightarrow> (d3, Some (''insert rbac_audit_log: '' @ execErr)) | (d3, None) \<Rightarrow> (d3, None))))"
      by (simp add: rbac_build_def Let_def 2 row_def rbac_content_of del: append.simps)
    have "case (case insert_rbac io (row h) ?d1 of
          (d3, Some execErr) \<Rightarrow> (d3, Some (''insert rbac_audit_log: '' @ execErr)) | (d3, None) \<Rightarrow> (d3, None)) of
        (s2, None) \<Rightarrow> rbac_wf A s2 \<and> rbac_log s2 = rbac_log d @ [(rbac_content (row []), h)]
      | (s2, Some _) \<Rightarrow> rbac_wf A s2 \<and> rbac_log s2 = rbac_log d" if "h \<noteq> []" for h
      using d1 d3 [OF that] entry
      by (cases rule: insert_rbac_cases [OF assms, of "row h" ?d1]) (simp_all add: rbac_log_def)
    then show ?thesis
      by (simp add: b del: append.simps)
  qed
qed

lemma rbac_step_inv: "rbac_step x y \<Longrightarrow> rbac_inv x \<Longrightarrow> rbac_inv y"
proof (induction rule: rbac_step.induct)
  case (rbac_create io h entry d h' d' r)
  let ?seed = "fst (chain_start ChainNameRBACAuditLog d)"
  have I: "rbac_wf (ad_anchors d) d" "hc.in_step ?seed rbac_log h d"
    using rbac_create(3) by (auto simp: rbac_inv_def)
  have "(h', d') = (h, d) \<or> (\<exists>old new r'. Append h d (rbac_build io entry old new) = (h', d', r'))"
    using rbac_create(2)
    by (auto simp: CreateAuditLog_def split: sum.splits prod.splits)
  then show ?case
  proof (elim disjE exE)
    fix old new r'
    assume "Append h d (rbac_build io entry old new) = (h', d', r')"
    from hc.append_in_step [OF rbac_build_appends [OF rbac_create(1)] I this]
    have "rbac_wf (ad_anchors d) d'" "hc.in_step ?seed rbac_log h' d'"
      by auto
    moreover from this(1) have "ad_anchors d' = ad_anchors d"
      by (simp add: rbac_wf_def)
    ultimately show ?thesis
      using chain_start_cong [of d' d] by (simp add: rbac_inv_def)
  qed (use rbac_create(3) in simp)
next
  case (rbac_restart io d seed h)
  let ?start = "fst (chain_start ChainNameRBACAuditLog d)"
  have wf: "rbac_wf (ad_anchors d) d"
    using rbac_restart(2) by (simp add: rbac_inv_def)
  have "rr_entry_hash r \<noteq> None" if "r \<in> set (ad_rbac d)" for r
    using wf that by (auto simp: rbac_wf_def rbac_sealed_def deref_def split: option.splits)
  then have rows: "rbac_by_id (\<lambda>r. rr_entry_hash r \<noteq> None) d = ad_rbac d"
    using wf by (simp add: rbac_wf_def rbac_by_id_sorted filter_id_conv)
  have "seed = chain_tail ?start (rbac_log d)"
  proof (cases "ad_rbac d = []")
    case True
    then show ?thesis
      using rbac_restart(1) rows
      by (auto simp: GetLatestRBACAuditLogHash_def Let_def seed_or_anchor_def GetAuditChainAnchor_def
          chain_start_def rbac_log_def split: option.splits)
  next
    case False
    then have "rbac_sealed (last (ad_rbac d))"
      using wf by (simp add: rbac_wf_def)
    then show ?thesis
      using rbac_restart(1) rows False
      by (auto simp: GetLatestRBACAuditLogHash_def Let_def seed_or_anchor_def rbac_sealed_def deref_def
          rbac_log_def chain_tail_last last_map rbac_entry_def split: option.splits)
  qed
  then show ?case
    using rbac_restart(2) by (simp add: rbac_inv_def hc.in_step_def NewHashChain_def)
qed

lemma rbac_inv_init: "rbac_inv (NewHashChain [], empty_db)"
  by (simp add: rbac_inv_def rbac_wf_def empty_db_def chain_start_def hc.in_step_def rbac_log_def NewHashChain_def)

lemma rbac_inv_accepted:
  assumes "rbac_inv (h, d)" "quiet io"
  shows "rbac_accepted io signer d"
proof -
  let ?start = "fst (chain_start ChainNameRBACAuditLog d)"
  have wf: "rbac_wf (ad_anchors d) d" and st: "hc.in_step ?start rbac_log h d"
    using assms(1) by (auto simp: rbac_inv_def)
  have rows: "rbac_rows d = ad_rbac d"
    using wf by (simp add: rbac_rows_def rbac_wf_def rbac_by_id_sorted filter_id_conv)
  have "rbac_inv (NewHashChain (newest_rbac_hash d), d)"
    using rbac_step_inv [OF rbac_restart [OF newest_rbac_hash_quiet [OF assms(2)]] assms(1)] .
  then have "newest_rbac_hash d = chain_tail ?start (rbac_log d)"
    by (simp add: rbac_inv_def hc.in_step_def NewHashChain_def)
  then show ?thesis
    using wf st by (simp add: verify_rbac_accepts [OF assms(2)] rows rbac_wf_def list_all_iff hc.in_step_def rbac_log_def)
qed


definition demo_entry :: AuditLogEntry where
  "demo_entry = \<lparr>ae_ID = 0, ae_ActorID = None, ae_ActorExternalID = ''did:admin'', ae_Action = ''create'',
     ae_ResourceType = ''group'', ae_ResourceID = Some ''g1'', ae_ResourceName = ''ops'', ae_OrgID = None,
     ae_OldValue = None, ae_NewValue = Some [], ae_IPAddress = ''10.0.0.1'', ae_CreatedAt = 0\<rparr>"


section \<open>Writing past the chain\<close>

lemma LogAuditAction_row:
  assumes "LogAuditAction io action details d = (d', None)"
  shows "\<exists>r. ad_rbac d' = ad_rbac d @ [r] \<and> rr_id r = ad_rbac_seq d + 1 \<and> rr_entry_hash r = None \<and>
    rr_resource_type r = ''audit_log'' \<and> rr_resource_name r = None \<and>
    rr_created_at r = truncate_micro (io_now io) \<and> ad_anchors d' = ad_anchors d"
  using assms
  by (auto simp: LogAuditAction_def nextval_rbac_def insert_rbac_def uuid_column_def
      split: option.splits sum.splits if_splits prod.splits)

lemma null_row_rejected:
  assumes "r \<in> set (ad_rbac d)" "snd (chain_start ChainNameRBACAuditLog d) < rr_id r" "rr_entry_hash r = None" "quiet io"
  shows "\<not> rbac_accepted io signer d"
proof -
  have "r \<in> set (rbac_rows d)" "\<not> rbac_sealed r"
    using assms(1, 2, 3) by (simp_all add: rbac_rows_def rbac_by_id_def rbac_sealed_def deref_def)
  then show ?thesis
    unfolding verify_rbac_accepts [OF assms(4)] list_all_iff by blast
qed

definition demo_note :: "audit_db \<times> string option" where
  "demo_note = LogAuditAction demo_io ''audit.access_logs.prune'' [(''reason'', JStr ''ttl'')] empty_db"

lemma demo_note_ok: "demo_note = (fst demo_note, None)"
  by (simp add: demo_note_def LogAuditAction_def nextval_rbac_def insert_rbac_def uuid_column_def demo_io_def
      empty_db_def)

lemma scanAuditLogs_error: "r \<in> set rows \<Longrightarrow> scan_audit_row io r = Inl e \<Longrightarrow> \<exists>e'. scanAuditLogs io rows = Inl e'"
  by (induction rows) (auto split: sum.splits)

text \<open>
  The note the retention manager leaves in \<^verbatim>\<open>rbac_audit_log\<close> after a prune has neither a resource name nor an
  address, and the listing reads both into plain strings: a listing of these notes whose page reaches one
  fails as a whole.
\<close>

theorem prune_note_fails_listing:
  assumes "LogAuditAction io0 action details d = (d1, None)" "length (ad_rbac d1) \<le> limit" "quiet io"
  shows "\<exists>e. ListAuditLogsScoped io ''audit_log'' None None limit 0 d1 = Inl e"
proof -
  obtain r where r: "ad_rbac d1 = ad_rbac d @ [r]" "rr_resource_type r = ''audit_log''" "rr_resource_name r = None"
    using LogAuditAction_row [OF assms(1)] by blast
  let ?P = "\<lambda>r. rr_resource_type r = ''audit_log'' \<and> in_scope None r"
  have "length (filter ?P (ad_rbac d1)) \<le> limit"
    using length_filter_le assms(2) order_trans by blast
  then have "newest_page ?P limit 0 d1 = sort_key (\<lambda>r. - rr_created_at r) (filter ?P (ad_rbac d1))"
    by (simp add: newest_page_def)
  then have "r \<in> set (newest_page ?P limit 0 d1)"
    using r(1, 2) by (simp add: in_scope_def)
  moreover have "\<exists>e. scan_audit_row io r = Inl e"
    using r(3) by (simp add: scan_audit_row_def scan_string_def split: option.split)
  ultimately show ?thesis
    using scanAuditLogs_error assms(3) by (fastforce simp: ListAuditLogsScoped_def)
qed

lemma demo_note_length: "length (ad_rbac (fst demo_note)) = 1"
  by (simp add: demo_note_def LogAuditAction_def nextval_rbac_def insert_rbac_def uuid_column_def demo_io_def
      empty_db_def)

theorem prune_note_fails_listing_witness:
  "\<exists>e. ListAuditLogsScoped demo_io ''audit_log'' None None 50 0 (fst demo_note) = Inl e"
  using prune_note_fails_listing [OF demo_note_ok [unfolded demo_note_def], of 50 demo_io] demo_note_length quiet_demo_io
  by (simp add: demo_note_def)

text \<open>
  A prune of \<^verbatim>\<open>rbac_audit_log\<close> moves no anchor: after one that deletes the oldest rows of a log never
  pruned before and keeps younger ones, the verifier rejects the rest, unless the first kept row has
  the same SHA-256 digest with and without its predecessor's hash in front.
\<close>

theorem rbac_prune_breaks_chain:
  assumes "rbac_inv (h, d)" "ad_anchors d = []" "sorted (map rr_created_at (ad_rbac d))"
    and "CleanupRBACAuditLogs io0 cutoff d = (d1, Inr n)" "0 < n" "ad_rbac d1 \<noteq> []" "quiet io"
  defines "first \<equiv> hd (ad_rbac d1)" and "cr \<equiv> ad_rbac d ! (nat n - 1)"
  shows "\<not> rbac_accepted io signer d1 \<or>
    sha256 (str_bytes (rbac_content first)) =
    sha256 (str_bytes (deref (rr_entry_hash cr)) @ str_bytes (rbac_content first))"
proof -
  let ?rows = "ad_rbac d"
  have wf: "rbac_wf (ad_anchors d) d" and st: "chained [] (map rbac_entry ?rows)"
    using assms(1, 2) by (auto simp: rbac_inv_def hc.in_step_def rbac_log_def chain_start_def)
  define k where "k = nat n"
  have cl: "io_fail io0 ''prune rbac_audit_log'' = None"
    using assms(4) by (auto simp: CleanupRBACAuditLogs_def split: option.splits)
  have d1: "d1 = d\<lparr>ad_rbac := drop k ?rows\<rparr>" and k: "k = length (filter (\<lambda>r. rr_created_at r < cutoff) ?rows)"
    using assms(4) cl filter_below_take(2) [OF assms(3), of cutoff]
    by (auto simp: CleanupRBACAuditLogs_def k_def)
  have pos: "0 < k" "k < length ?rows"
    using assms(5, 6) d1 by (simp_all add: k_def)
  have split: "?rows = take k ?rows @ first # tl (drop k ?rows)"
    using pos assms(6) d1 by (simp add: first_def)
  have hash: "deref (rr_entry_hash first) = computeChainHash (deref (rr_entry_hash cr)) (rbac_content first)"
  proof -
    have "map rbac_entry ?rows = map rbac_entry (take k ?rows) @ rbac_entry first # map rbac_entry (tl (drop k ?rows))"
      using split by (metis list.simps(9) map_append)
    then have "deref (rr_entry_hash first) = computeChainHash (chain_tail [] (map rbac_entry (take k ?rows))) (rbac_content first)"
      using st by (simp add: rbac_entry_def)
    moreover have "take k ?rows \<noteq> []"
      using pos by auto
    then have "chain_tail [] (map rbac_entry (take k ?rows)) = deref (rr_entry_hash cr)"
      using pos last_take_nth [of k ?rows] by (simp add: chain_tail_last last_map rbac_entry_def cr_def k_def)
    ultimately show ?thesis
      by simp
  qed
  have "sorted_wrt (<) (map rr_id (ad_rbac d1))" "\<forall>r\<in>set (ad_rbac d1). 0 < rr_id r"
    using wf d1 assms(2) set_drop_subset [of k ?rows]
    by (auto simp: rbac_wf_def chain_start_def sorted_wrt_drop simp flip: drop_map)
  then have rows: "rbac_rows d1 = first # tl (drop k ?rows)" and start: "chain_start ChainNameRBACAuditLog d1 = ([], 0)"
    using d1 assms(2, 6) by (simp_all add: rbac_rows_def rbac_by_id_sorted chain_start_def first_def filter_id_conv)
  show ?thesis
    using hash by (auto simp: verify_rbac_accepts [OF assms(7)] rows start rbac_entry_def computeChainHash_def str_bytes_def)
qed

lemma demo_two_entries:
  "\<exists>h1 d1 r1 h2 d2 r2.
     CreateAuditLog demo_io (Some (NewHashChain [])) demo_entry empty_db = (Some h1, d1, r1) \<and>
     CreateAuditLog (demo_io\<lparr>io_now := 5000\<rparr>) (Some h1) demo_entry d1 = (Some h2, d2, r2) \<and>
     ad_anchors d2 = [] \<and> map rr_created_at (ad_rbac d2) = [0, 5000]"
  by (simp add: CreateAuditLog_def marshal_value_def demo_entry_def demo_io_def Append_def rbac_build_def
      nextval_rbac_def insert_rbac_def uuid_column_def rbac_row_of_def empty_db_def Let_def truncate_micro_def)

theorem rbac_prune_breaks_chain_witness:
  "\<exists>h d d1. rbac_inv (h, d) \<and> CleanupRBACAuditLogs demo_io 1 d = (d1, Inr 1) \<and> ad_rbac d1 \<noteq> [] \<and>
     (\<not> rbac_accepted demo_io None d1 \<or>
      sha256 (str_bytes (rbac_content (hd (ad_rbac d1)))) =
      sha256 (str_bytes (deref (rr_entry_hash (ad_rbac d ! 0))) @ str_bytes (rbac_content (hd (ad_rbac d1)))))"
proof -
  obtain h1 d1 r1 h2 d2 r2 where
    c: "CreateAuditLog demo_io (Some (NewHashChain [])) demo_entry empty_db = (Some h1, d1, r1)"
      "CreateAuditLog (demo_io\<lparr>io_now := 5000\<rparr>) (Some h1) demo_entry d1 = (Some h2, d2, r2)"
      "ad_anchors d2 = []" "map rr_created_at (ad_rbac d2) = [0, 5000]"
    using demo_two_entries by (elim exE conjE)
  have u: "uuid_verbatim demo_io" "uuid_verbatim (demo_io\<lparr>io_now := 5000\<rparr>)"
    by (simp_all add: uuid_verbatim_def demo_io_def)
  have inv: "rbac_inv (h2, d2)"
    using rbac_step_inv [OF rbac_create [OF u(2) c(2)] rbac_step_inv [OF rbac_create [OF u(1) c(1)] rbac_inv_init]] .
  obtain a b where rows: "ad_rbac d2 = [a, b]" "rr_created_at a = 0" "rr_created_at b = 5000"
    using c(4) by auto
  let ?d = "d2\<lparr>ad_rbac := [b]\<rparr>"
  have cl: "CleanupRBACAuditLogs demo_io 1 d2 = (?d, Inr 1)"
    by (simp add: CleanupRBACAuditLogs_def demo_io_def rows)
  show ?thesis
    using rbac_prune_breaks_chain [OF inv c(3) _ cl _ _ quiet_demo_io, of None] inv cl rows
    by (intro exI [of _ h2] exI [of _ d2] exI [of _ ?d]) simp
qed

end
