(* ===== verification/Audit_Retention.thy ===== *)
theory Audit_Retention
  imports Rbac_Audit
begin

text \<open>
  The retention manager (\<^verbatim>\<open>audit/retention.go\<close>) over the store that routes the prunes of
  \<^verbatim>\<open>access_logs\<close> to the audit database and everything else to the main one
  (\<^verbatim>\<open>server/retention_audit_store.go\<close>): the defaults, one cleanup pass, the row-cap loop and the orphan
  sweep. The tables of the main database that only this component prunes are kept as far as the
  prunes look at them. A pass is given one \<open>audit_io\<close> per statement group, so that every call can fail on
  its own; log output is left out.
\<close>

section \<open>Configuration\<close>

record RetentionConfig =
  rc_AccessLogs :: int
  rc_ComplianceLogs :: int
  rc_RBACAuditLogs :: int
  rc_TravelRecords :: int
  rc_CleanupInterval :: int
  rc_MaxAccessLogRows :: int
  rc_AccessLogTrimBatchSize :: int
  rc_PreregistrationTTL :: int
  rc_PreregistrationCleanupInterval :: int

definition NewRetentionManager :: "RetentionConfig \<Rightarrow> RetentionConfig" where
  "NewRetentionManager cfg =
     (let cfg1 = (if rc_PreregistrationTTL cfg \<le> 0
                  then cfg\<lparr>rc_PreregistrationTTL := 3600 * 10 ^ 9\<rparr> else cfg)
      in if rc_PreregistrationCleanupInterval cfg1 \<le> 0
         then cfg1\<lparr>rc_PreregistrationCleanupInterval := 300 * 10 ^ 9\<rparr> else cfg1)"

definition NewRetentionCleaner :: "RetentionConfig \<Rightarrow> bool \<Rightarrow> RetentionConfig" where
  "NewRetentionCleaner cfg travelRuleEnabled =
     NewRetentionManager (if travelRuleEnabled then cfg else cfg\<lparr>rc_TravelRecords := 0\<rparr>)"

text \<open>
  \<^verbatim>\<open>time.Duration.String\<close>.
\<close>

definition fraction :: "nat \<Rightarrow> int \<Rightarrow> string" where
  "fraction w n = (let t = trim_fraction (pad_digits w n) in if t = [] then [] else ''.'' @ t)"

definition duration_string :: "int \<Rightarrow> string" where
  "duration_string d =
     (let u = \<bar>d\<bar>;
          s = (if u = 0 then ''0s''
               else if u < 1000 then itoa u @ ''ns''
               else if u < 10 ^ 6 then itoa (u div 1000) @ fraction 3 (u mod 1000) @ [CHR 0xC2, CHR 0xB5] @ ''s''
               else if u < 10 ^ 9 then itoa (u div 10 ^ 6) @ fraction 6 (u mod 10 ^ 6) @ ''ms''
               else
                 (let secs = u div 10 ^ 9; mins = secs div 60; hours = mins div 60
                  in (if hours > 0 then itoa hours @ ''h'' else []) @
                     (if mins > 0 then itoa (mins mod 60) @ ''m'' else []) @
                     itoa (secs mod 60) @ fraction 9 (u mod 10 ^ 9) @ ''s''))
      in if d < 0 then ''-'' @ s else s)"

section \<open>The store\<close>

record travel_row =
  tr_created_at :: time
  tr_expires_at :: time
  tr_used_at :: "time option"

record retention_db =
  rd_audit :: audit_db
  rd_main :: audit_db
  rd_compliance :: "time list"
  rd_travel :: "travel_row list"
  rd_prereg :: "(string \<times> time) list"
  rd_contracts :: "string list"

definition CleanupComplianceLogs :: "audit_io \<Rightarrow> time \<Rightarrow> retention_db \<Rightarrow> retention_db \<times> int res" where
  "CleanupComplianceLogs io olderThan d =
     (case io_fail io ''prune compliance_logs'' of
        Some e \<Rightarrow> (d, Inl (''failed to cleanup compliance logs: '' @ e))
      | None \<Rightarrow>
          (d\<lparr>rd_compliance := filter (\<lambda>t. \<not> t < olderThan) (rd_compliance d)\<rparr>,
           Inr (int (length (filter (\<lambda>t. t < olderThan) (rd_compliance d))))))"

definition CleanupUsedTravelRecords :: "audit_io \<Rightarrow> time \<Rightarrow> retention_db \<Rightarrow> retention_db \<times> int res" where
  "CleanupUsedTravelRecords io olderThan d =
     (case io_fail io ''prune travel_rule_records'' of
        Some e \<Rightarrow> (d, Inl (''failed to cleanup used travel records: '' @ e))
      | None \<Rightarrow>
          (let P = (\<lambda>r. tr_used_at r \<noteq> None \<and> tr_created_at r < olderThan)
           in (d\<lparr>rd_travel := filter (\<lambda>r. \<not> P r) (rd_travel d)\<rparr>, Inr (int (length (filter P (rd_travel d)))))))"

definition CleanupExpiredRecords :: "audit_io \<Rightarrow> retention_db \<Rightarrow> retention_db \<times> int res" where
  "CleanupExpiredRecords io d =
     (case io_fail io ''prune expired travel_rule_records'' of
        Some e \<Rightarrow> (d, Inl (''failed to cleanup expired records: '' @ e))
      | None \<Rightarrow>
          (let P = (\<lambda>r. tr_expires_at r < io_now io \<and> tr_used_at r = None)
           in (d\<lparr>rd_travel := filter (\<lambda>r. \<not> P r) (rd_travel d)\<rparr>, Inr (int (length (filter P (rd_travel d)))))))"

definition DeleteOrphanedPreregisteredAddresses ::
  "audit_io \<Rightarrow> int \<Rightarrow> retention_db \<Rightarrow> retention_db \<times> int res" where
  "DeleteOrphanedPreregisteredAddresses io olderThan d =
     (if olderThan \<le> 0 then (d, Inr 0)
      else case io_fail io ''prune preregistered_addresses'' of
        Some e \<Rightarrow> (d, Inl (''failed to delete orphaned preregistered addresses: '' @ e))
      | None \<Rightarrow>
          (let seconds = olderThan div 10 ^ 9;
               P = (\<lambda>(a, t). t < io_now io - seconds * 10 ^ 9 \<and> to_lower a \<notin> set (map to_lower (rd_contracts d)))
           in (d\<lparr>rd_prereg := filter (\<lambda>p. \<not> P p) (rd_prereg d)\<rparr>, Inr (int (length (filter P (rd_prereg d)))))))"

definition sweepOrphanedPreregistrations :: "audit_io \<Rightarrow> int \<Rightarrow> retention_db \<Rightarrow> retention_db" where
  "sweepOrphanedPreregistrations io ttl d = fst (DeleteOrphanedPreregisteredAddresses io ttl d)"

section \<open>The row cap\<close>

record trim_acc =
  ta_totalDeleted :: int
  ta_minLowestID :: int
  ta_maxHighestID :: int
  ta_lastAnchorHash :: string

definition maxAccessLogTrimIterations :: nat where
  "maxAccessLogTrimIterations = 50"

text \<open>
  The loop of \<^verbatim>\<open>trimAccessLogsFIFO\<close>: \<open>n\<close> iterations are left and \<open>i\<close> are done. \<^const>\<open>None\<close> is the return on an
  error, which skips the note.
\<close>

fun trim_loop ::
  "(nat \<Rightarrow> audit_io) \<Rightarrow> int \<Rightarrow> int \<Rightarrow> nat \<Rightarrow> nat \<Rightarrow> audit_db \<Rightarrow> trim_acc \<Rightarrow> audit_db \<times> trim_acc option" where
  "trim_loop ios maxRows batchSize 0 i d acc = (d, Some acc)"
| "trim_loop ios maxRows batchSize (Suc n) i d acc =
     (case TrimAccessLogsFIFOBatch (ios i) maxRows batchSize d of
        (d', Inl e) \<Rightarrow> (d', None)
      | (d', Inr res) \<Rightarrow>
          if pr_Deleted res = 0 then (d', Some acc)
          else trim_loop ios maxRows batchSize n (Suc i) d'
                 \<lparr>ta_totalDeleted = ta_totalDeleted acc + pr_Deleted res,
                  ta_minLowestID = (if ta_minLowestID acc = 0 \<and> pr_LowestID res > 0
                                    then pr_LowestID res else ta_minLowestID acc),
                  ta_maxHighestID = (if pr_HighestID res > ta_maxHighestID acc
                                     then pr_HighestID res else ta_maxHighestID acc),
                  ta_lastAnchorHash = (if pr_AnchorHash res \<noteq> [] then pr_AnchorHash res
                                       else ta_lastAnchorHash acc)\<rparr>)"

definition trimAccessLogsFIFO ::
  "(nat \<Rightarrow> audit_io) \<Rightarrow> audit_io \<Rightarrow> RetentionConfig \<Rightarrow> retention_db \<Rightarrow> retention_db" where
  "trimAccessLogsFIFO ios io cfg d =
     (if rc_MaxAccessLogRows cfg \<le> 0 then d
      else
        (let batchSize = (if rc_AccessLogTrimBatchSize cfg \<le> 0 then 1000 else rc_AccessLogTrimBatchSize cfg) in
         case CountAccessLogsTotal io (rd_audit d) of
           Inl _ \<Rightarrow> d
         | Inr rowTotal \<Rightarrow>
             if rowTotal \<le> rc_MaxAccessLogRows cfg then d
             else
               (case trim_loop ios (rc_MaxAccessLogRows cfg) batchSize maxAccessLogTrimIterations 0 (rd_audit d)
                       \<lparr>ta_totalDeleted = 0, ta_minLowestID = 0, ta_maxHighestID = 0, ta_lastAnchorHash = []\<rparr> of
                  (a, None) \<Rightarrow> d\<lparr>rd_audit := a\<rparr>
                | (a, Some acc) \<Rightarrow>
                    if ta_totalDeleted acc > 0
                    then d\<lparr>rd_audit := a,
                           rd_main := fst (LogAuditAction io ''audit.access_logs.prune''
                             [(''reason'', JStr ''fifo''), (''deleted_count'', JNum (itoa (ta_totalDeleted acc))),
                              (''lowest_id'', JNum (itoa (ta_minLowestID acc))),
                              (''highest_id'', JNum (itoa (ta_maxHighestID acc))),
                              (''new_anchor_hash'', JStr (ta_lastAnchorHash acc)),
                              (''max_rows'', JNum (itoa (rc_MaxAccessLogRows cfg)))] (rd_main d))\<rparr>
                    else d\<lparr>rd_audit := a\<rparr>)))"

section \<open>One pass\<close>

definition cleanup_access_logs :: "audit_io \<Rightarrow> RetentionConfig \<Rightarrow> retention_db \<Rightarrow> retention_db" where
  "cleanup_access_logs io cfg d =
     (if rc_AccessLogs cfg > 0
      then
        (let cutoff = io_now io - rc_AccessLogs cfg in
         case CleanupAccessLogs io cutoff (rd_audit d) of
           (a, Inl _) \<Rightarrow> d\<lparr>rd_audit := a\<rparr>
         | (a, Inr res) \<Rightarrow>
             if pr_Deleted res > 0
             then d\<lparr>rd_audit := a,
                    rd_main := fst (LogAuditAction io ''audit.access_logs.prune''
                      [(''reason'', JStr ''ttl''), (''deleted_count'', JNum (itoa (pr_Deleted res))),
                       (''lowest_id'', JNum (itoa (pr_LowestID res))),
                       (''highest_id'', JNum (itoa (pr_HighestID res))),
                       (''new_anchor_hash'', JStr (pr_AnchorHash res)),
                       (''retention'', JStr (duration_string (rc_AccessLogs cfg))),
                       (''cutoff'', JStr (rfc3339_nano cutoff))] (rd_main d))\<rparr>
             else d\<lparr>rd_audit := a\<rparr>)
      else d)"

definition cleanup_tables :: "audit_io \<Rightarrow> RetentionConfig \<Rightarrow> retention_db \<Rightarrow> retention_db" where
  "cleanup_tables io cfg d =
     (let now = io_now io;
          d1 = (if rc_ComplianceLogs cfg \<le> 0 then d
                else fst (CleanupComplianceLogs io (now - rc_ComplianceLogs cfg) d));
          d2 = (if rc_RBACAuditLogs cfg \<le> 0 then d1
                else d1\<lparr>rd_main := fst (CleanupRBACAuditLogs io (now - rc_RBACAuditLogs cfg) (rd_main d1))\<rparr>)
      in if rc_TravelRecords cfg \<le> 0 then d2
         else fst (CleanupUsedTravelRecords io (now - rc_TravelRecords cfg) d2))"

definition cleanup :: "(nat \<Rightarrow> audit_io) \<Rightarrow> audit_io \<Rightarrow> RetentionConfig \<Rightarrow> retention_db \<Rightarrow> retention_db" where
  "cleanup ios io cfg d =
     trimAccessLogsFIFO ios io cfg
       (fst (CleanupExpiredRecords io (cleanup_tables io cfg (cleanup_access_logs io cfg d))))"

section \<open>The row cap is reached\<close>

lemma anchor_cut_quiet:
  "quiet io \<Longrightarrow> \<exists>A h. anchor_cut io n f l cutHash d =
     (d\<lparr>ad_anchors := A\<rparr>, Inr \<lparr>pr_Deleted = n, pr_LowestID = f, pr_HighestID = l, pr_AnchorHash = h\<rparr>)"
  by (auto simp: anchor_cut_def getAnchorHashTx_def upsertAuditChainAnchorTx_def)

lemma tx_error_quiet [simp]: "quiet io \<Longrightarrow> tx_error io ls = None"
  by (induction io ls rule: tx_error.induct) simp_all

lemma WithTx_quiet: "quiet io \<Longrightarrow> fn d = (d', Inr r) \<Longrightarrow> WithTx io fn d = (d', Inr r)"
  by (simp add: WithTx_def)

lemma trim_batch_quiet:
  assumes "quiet io" "sorted_wrt (<) (map al_id (ad_access d))" "0 \<le> m" "0 < b"
  defines "k \<equiv> nat (min (int (length (ad_access d)) - m) b)"
  shows "\<exists>A res. TrimAccessLogsFIFOBatch io m b d = (d\<lparr>ad_access := drop k (ad_access d), ad_anchors := A\<rparr>, Inr res) \<and>
    pr_Deleted res = int k"
proof (cases "int (length (ad_access d)) \<le> m")
  case True
  then have "TrimAccessLogsFIFOBatch io m b d = (d, Inr no_prune)" "k = 0"
    using assms by (simp_all add: TrimAccessLogsFIFOBatch_def trim_tx_def WithTx_quiet)
  then show ?thesis
    by (intro exI [of _ "ad_anchors d"] exI [of _ no_prune]) (simp add: no_prune_def)
next
  case False
  let ?rows = "ad_access d"
  have k: "0 < k" "k \<le> length ?rows" "nat (min (int (length ?rows) - m) b - 1) = k - 1"
    using False assms(3, 4) by (auto simp: k_def min_def)
  let ?cr = "?rows ! (k - 1)"
  have "trim_tx io m b d = anchor_cut io (int k) (al_id (hd ?rows)) (al_id ?cr) (al_entry_hash ?cr)
      (d\<lparr>ad_access := drop k ?rows\<rparr>)"
    using False assms(1, 3, 4) k(3) filter_above_drop [OF assms(2) k(1, 2)]
    by (simp add: trim_tx_def Let_def access_by_id_sorted [OF assms(2)] del: One_nat_def)
  then show ?thesis
    using anchor_cut_quiet [OF assms(1), of "int k" "al_id (hd ?rows)" "al_id ?cr" "al_entry_hash ?cr"
        "d\<lparr>ad_access := drop k ?rows\<rparr>"] assms(1, 3, 4) WithTx_quiet [OF assms(1), of "trim_tx io m b" d]
    by (auto simp: TrimAccessLogsFIFOBatch_def)
qed

lemma trim_arith:
  fixes L b c :: int
  assumes "0 < L" "0 < b" "0 \<le> c"
  shows "nat (min (L - int (nat (min L b))) c) + nat (min L b) = nat (min L (b + c))"
    and "max 0 (min (L - int (nat (min L b))) c) + int (nat (min L b)) = max 0 (min L (b + c))"
  using assms by (auto simp: min_def max_def)

lemma trim_loop_quiet:
  assumes "\<forall>i. quiet (ios i)" "sorted_wrt (<) (map al_id (ad_access d))" "0 \<le> m" "0 < b"
  shows "\<exists>A acc'. trim_loop ios m b n i d acc =
    (d\<lparr>ad_access := drop (nat (min (int (length (ad_access d)) - m) (int n * b))) (ad_access d), ad_anchors := A\<rparr>, Some acc') \<and>
    ta_totalDeleted acc' = ta_totalDeleted acc + max 0 (min (int (length (ad_access d)) - m) (int n * b))"
  using assms
proof (induction n arbitrary: i d acc)
  case 0
  then show ?case
    by (intro exI [of _ "ad_anchors d"] exI [of _ acc]) simp
next
  case (Suc n)
  define k where "k = nat (min (int (length (ad_access d)) - m) b)"
  obtain A res where t: "TrimAccessLogsFIFOBatch (ios i) m b d =
      (d\<lparr>ad_access := drop k (ad_access d), ad_anchors := A\<rparr>, Inr res)" "pr_Deleted res = int k"
    using trim_batch_quiet [of "ios i" d m b] Suc.prems unfolding k_def by blast
  show ?case
  proof (cases "k = 0")
    case True
    then have "int (length (ad_access d)) - m \<le> 0"
      using Suc.prems(4) by (simp add: k_def min_def split: if_splits)
    then show ?thesis
      using t True by (intro exI [of _ A] exI [of _ acc]) simp
  next
    case False
    let ?d = "d\<lparr>ad_access := drop k (ad_access d), ad_anchors := A\<rparr>"
    let ?acc = "\<lparr>ta_totalDeleted = ta_totalDeleted acc + pr_Deleted res,
      ta_minLowestID = (if ta_minLowestID acc = 0 \<and> pr_LowestID res > 0 then pr_LowestID res else ta_minLowestID acc),
      ta_maxHighestID = (if pr_HighestID res > ta_maxHighestID acc then pr_HighestID res else ta_maxHighestID acc),
      ta_lastAnchorHash = (if pr_AnchorHash res \<noteq> [] then pr_AnchorHash res else ta_lastAnchorHash acc)\<rparr>"
    have s: "sorted_wrt (<) (map al_id (ad_access ?d))"
      using Suc.prems(2) by (simp add: sorted_wrt_drop flip: drop_map)
    have pos: "0 < int (length (ad_access d)) - m"
      using False Suc.prems(4) by (simp add: k_def min_def split: if_splits)
    have L: "int (length (ad_access ?d)) - m = int (length (ad_access d)) - m - int k"
      using Suc.prems(3) pos by (simp add: k_def of_nat_diff min_def)
    have c: "int (Suc n) * b = b + int n * b" "0 \<le> int n * b"
      using Suc.prems(4) by (simp_all add: algebra_simps)
    have len: "nat (min (int (length (ad_access ?d)) - m) (int n * b)) + k =
        nat (min (int (length (ad_access d)) - m) (int (Suc n) * b))"
      "max 0 (min (int (length (ad_access ?d)) - m) (int n * b)) + int k =
        max 0 (min (int (length (ad_access d)) - m) (int (Suc n) * b))"
      by (simp_all only: L c(1) trim_arith [OF pos Suc.prems(4) c(2), folded k_def])
    have step: "trim_loop ios m b (Suc n) i d acc = trim_loop ios m b n (Suc i) ?d ?acc"
      using t False by simp
    obtain A' acc' where IH: "trim_loop ios m b n (Suc i) ?d ?acc =
        (?d\<lparr>ad_access := drop (nat (min (int (length (ad_access ?d)) - m) (int n * b))) (ad_access ?d), ad_anchors := A'\<rparr>, Some acc')"
      "ta_totalDeleted acc' = ta_totalDeleted ?acc + max 0 (min (int (length (ad_access ?d)) - m) (int n * b))"
      using Suc.IH [OF Suc.prems(1) s Suc.prems(3, 4), of "Suc i" ?acc] by (elim exE conjE)
    show ?thesis
    proof (intro exI conjI)
      show "trim_loop ios m b (Suc n) i d acc =
          (d\<lparr>ad_access := drop (nat (min (int (length (ad_access d)) - m) (int (Suc n) * b))) (ad_access d), ad_anchors := A'\<rparr>, Some acc')"
        unfolding step IH(1) len(1) [symmetric] by simp
      show "ta_totalDeleted acc' = ta_totalDeleted acc + max 0 (min (int (length (ad_access d)) - m) (int (Suc n) * b))"
        unfolding IH(2) len(2) [symmetric] using t(2) by simp
    qed
  qed
qed

lemma trim_loop_stops:
  assumes "\<forall>i. quiet (ios i)" "sorted_wrt (<) (map al_id (ad_access d))" "0 \<le> m" "0 < b"
    and "int (length (ad_access d)) - m \<le> int j * b"
  shows "trim_loop ios m b (Suc (j + x)) i d acc = trim_loop ios m b (Suc j) i d acc"
  using assms
proof (induction j arbitrary: i d acc)
  case 0
  obtain A res where "TrimAccessLogsFIFOBatch (ios i) m b d = (d\<lparr>ad_access := drop 0 (ad_access d), ad_anchors := A\<rparr>, Inr res)"
    "pr_Deleted res = int 0"
    using trim_batch_quiet [of "ios i" d m b] 0 by auto
  then show ?case by simp
next
  case (Suc j)
  define k where "k = nat (min (int (length (ad_access d)) - m) b)"
  obtain A res where t: "TrimAccessLogsFIFOBatch (ios i) m b d =
      (d\<lparr>ad_access := drop k (ad_access d), ad_anchors := A\<rparr>, Inr res)" "pr_Deleted res = int k"
    using trim_batch_quiet [of "ios i" d m b] Suc.prems unfolding k_def by blast
  show ?case
  proof (cases "k = 0")
    case True
    then show ?thesis
      using t by simp
  next
    case False
    let ?d = "d\<lparr>ad_access := drop k (ad_access d), ad_anchors := A\<rparr>"
    have s: "sorted_wrt (<) (map al_id (ad_access ?d))"
      using Suc.prems(2) by (simp add: sorted_wrt_drop flip: drop_map)
    have pos: "0 < int (length (ad_access d)) - m"
      using False Suc.prems(4) by (simp add: k_def min_def split: if_splits)
    have L: "int (length (ad_access ?d)) - m = int (length (ad_access d)) - m - int k"
      using Suc.prems(3) pos by (simp add: k_def of_nat_diff min_def)
    have "int (Suc j) * b = b + int j * b" "0 \<le> int j * b"
      using Suc.prems(4) by (simp_all add: algebra_simps)
    then have "int (length (ad_access d)) - m - int k \<le> int j * b"
      using Suc.prems(4, 5) pos by (simp add: k_def min_def)
    then have len: "int (length (ad_access ?d)) - m \<le> int j * b"
      by (simp only: L)
    show ?thesis
      using t False Suc.IH [OF Suc.prems(1) s Suc.prems(3, 4) len] by simp
  qed
qed


definition demo_acc :: trim_acc where
  "demo_acc = \<lparr>ta_totalDeleted = 0, ta_minLowestID = 0, ta_maxHighestID = 0, ta_lastAnchorHash = []\<rparr>"


lemma row_cap_rows:
  assumes "\<forall>i. quiet (ios i)" "quiet io" "sorted_wrt (<) (map al_id (ad_access (rd_audit d)))"
    and "0 < rc_MaxAccessLogRows cfg" "0 < rc_AccessLogTrimBatchSize cfg"
  shows "ad_access (rd_audit (trimAccessLogsFIFO ios io cfg d)) =
    drop (nat (min (int (length (ad_access (rd_audit d))) - rc_MaxAccessLogRows cfg) (50 * rc_AccessLogTrimBatchSize cfg)))
      (ad_access (rd_audit d))"
proof -
  let ?m = "rc_MaxAccessLogRows cfg" and ?b = "rc_AccessLogTrimBatchSize cfg" and ?rows = "ad_access (rd_audit d)"
  show ?thesis
  proof (cases "int (length ?rows) \<le> ?m")
    case True
    then have "trimAccessLogsFIFO ios io cfg d = d"
      using assms(2, 4, 5) by (simp add: trimAccessLogsFIFO_def CountAccessLogsTotal_def Let_def)
    then show ?thesis
      using True by simp
  next
    case False
    obtain A acc' where "trim_loop ios ?m ?b 50 0 (rd_audit d)
        \<lparr>ta_totalDeleted = 0, ta_minLowestID = 0, ta_maxHighestID = 0, ta_lastAnchorHash = []\<rparr> =
      (rd_audit d\<lparr>ad_access := drop (nat (min (int (length ?rows) - ?m) (int 50 * ?b))) ?rows, ad_anchors := A\<rparr>, Some acc')"
      using trim_loop_quiet [OF assms(1, 3), of ?m ?b 50 0] assms(4, 5) by force
    then show ?thesis
      using False assms(2, 4, 5)
      by (simp add: trimAccessLogsFIFO_def CountAccessLogsTotal_def Let_def maxAccessLogTrimIterations_def)
  qed
qed

text \<open>
  C15. When no statement fails, a row-cap sweep brings \<^verbatim>\<open>access_logs\<close> down to \<^verbatim>\<open>MaxAccessLogRows\<close>, keeping exactly
  the newest rows, as soon as the excess is at most 50 batches.
\<close>

theorem row_cap_reached:
  assumes "\<forall>i. quiet (ios i)" "quiet io" "sorted_wrt (<) (map al_id (ad_access (rd_audit d)))"
    and "0 < rc_MaxAccessLogRows cfg" "0 < rc_AccessLogTrimBatchSize cfg"
    and "int (length (ad_access (rd_audit d))) - rc_MaxAccessLogRows cfg \<le> 50 * rc_AccessLogTrimBatchSize cfg"
  shows "ad_access (rd_audit (trimAccessLogsFIFO ios io cfg d)) =
      drop (length (ad_access (rd_audit d)) - nat (rc_MaxAccessLogRows cfg)) (ad_access (rd_audit d)) \<and>
    int (length (ad_access (rd_audit (trimAccessLogsFIFO ios io cfg d)))) \<le> rc_MaxAccessLogRows cfg"
proof -
  have "nat (min (int (length (ad_access (rd_audit d))) - rc_MaxAccessLogRows cfg) (50 * rc_AccessLogTrimBatchSize cfg)) =
      length (ad_access (rd_audit d)) - nat (rc_MaxAccessLogRows cfg)"
    using assms(4, 6) by (simp add: min_def nat_diff_distrib')
  then show ?thesis
    unfolding row_cap_rows [OF assms(1, 2, 3, 4, 5)] using assms(4) by auto
qed

definition demo_two_rows :: retention_db where
  "demo_two_rows = \<lparr>rd_audit = demo_db\<lparr>ad_access_seq := 2, ad_access := [demo_row, demo_row\<lparr>al_id := 2\<rparr>]\<rparr>,
     rd_main = empty_db, rd_compliance = [], rd_travel = [], rd_prereg = [], rd_contracts = []\<rparr>"

definition demo_cfg :: RetentionConfig where
  "demo_cfg = \<lparr>rc_AccessLogs = 0, rc_ComplianceLogs = 0, rc_RBACAuditLogs = 0, rc_TravelRecords = 0,
     rc_CleanupInterval = 1, rc_MaxAccessLogRows = 1, rc_AccessLogTrimBatchSize = 1,
     rc_PreregistrationTTL = 0, rc_PreregistrationCleanupInterval = 0\<rparr>"

theorem row_cap_reached_witness:
  "ad_access (rd_audit (trimAccessLogsFIFO (\<lambda>_. demo_io) demo_io demo_cfg demo_two_rows)) = [demo_row\<lparr>al_id := 2\<rparr>]"
proof -
  have "sorted_wrt (<) (map al_id (ad_access (rd_audit demo_two_rows)))"
    by (simp add: demo_two_rows_def demo_row_def access_row_of_def)
  then show ?thesis
    using row_cap_reached [of "\<lambda>_. demo_io" demo_io demo_two_rows demo_cfg] quiet_demo_io
    by (simp add: demo_two_rows_def demo_cfg_def)
qed

section \<open>A pass and the other chain\<close>

lemma LogAuditAction_keeps:
  "set (ad_rbac d) \<subseteq> set (ad_rbac (fst (LogAuditAction io action details d))) \<and>
     ad_anchors (fst (LogAuditAction io action details d)) = ad_anchors d"
  by (auto simp: LogAuditAction_def nextval_rbac_def insert_rbac_def uuid_column_def
      split: option.splits sum.splits if_splits prod.splits)

lemma LogAuditAction_succeeds:
  assumes "quiet io" "\<forall>m. \<exists>b. io_marshal io m = Inr b" "ad_rbac_seq d < 2 ^ 63 - 1"
    and "\<forall>r\<in>set (ad_rbac d). rr_id r \<le> ad_rbac_seq d"
  shows "\<exists>d'. LogAuditAction io action details d = (d', None)"
proof -
  obtain b where "io_marshal io details = Inr b"
    using assms(2) by blast
  moreover have "ad_rbac_seq d + 1 \<notin> rr_id ` set (ad_rbac d)"
    using assms(4) by force
  ultimately show ?thesis
    using assms(1, 3) by (simp add: LogAuditAction_def nextval_rbac_def insert_rbac_def uuid_column_def)
qed

lemma trimAccessLogsFIFO_main:
  "set (ad_rbac (rd_main d)) \<subseteq> set (ad_rbac (rd_main (trimAccessLogsFIFO ios io cfg d))) \<and>
     ad_anchors (rd_main (trimAccessLogsFIFO ios io cfg d)) = ad_anchors (rd_main d)"
  using LogAuditAction_keeps [of "rd_main d" io]
  by (auto simp: trimAccessLogsFIFO_def Let_def split: sum.split prod.split option.split)

lemma cleanup_tables_main:
  assumes "r \<in> set (ad_rbac (rd_main d))" "rc_RBACAuditLogs cfg \<le> 0 \<or> io_now io - rc_RBACAuditLogs cfg \<le> rr_created_at r"
  shows "r \<in> set (ad_rbac (rd_main (cleanup_tables io cfg d))) \<and>
    ad_anchors (rd_main (cleanup_tables io cfg d)) = ad_anchors (rd_main d)"
  using assms
  by (auto simp: cleanup_tables_def Let_def CleanupComplianceLogs_def CleanupRBACAuditLogs_def
      CleanupUsedTravelRecords_def split: option.split)

text \<open>
  C38. One retention pass that prunes a row of \<^verbatim>\<open>access_logs\<close> by age leaves a note without a hash in
  \<^verbatim>\<open>rbac_audit_log\<close>, and the verifier rejects that chain from then on, although the pass ran without an
  error.
\<close>

theorem retention_pass_breaks_rbac_chain:
  assumes "0 < rc_AccessLogs cfg"
    and "CleanupAccessLogs io (io_now io - rc_AccessLogs cfg) (rd_audit d) = (a, Inr res)" "0 < pr_Deleted res"
    and "quiet io" "\<forall>m. \<exists>b. io_marshal io m = Inr b" "ad_rbac_seq (rd_main d) < 2 ^ 63 - 1"
    and "\<forall>r\<in>set (ad_rbac (rd_main d)). rr_id r \<le> ad_rbac_seq (rd_main d)"
    and "snd (chain_start ChainNameRBACAuditLog (rd_main d)) \<le> ad_rbac_seq (rd_main d)"
    and "rc_RBACAuditLogs cfg \<le> 0 \<or> 1000 \<le> rc_RBACAuditLogs cfg" "quiet io'"
  shows "\<not> rbac_accepted io' signer (rd_main (cleanup ios io cfg d))"
proof -
  obtain details where c1: "rd_main (cleanup_access_logs io cfg d) =
      fst (LogAuditAction io ''audit.access_logs.prune'' details (rd_main d))"
    using assms(1, 2, 3) by (simp add: cleanup_access_logs_def Let_def)
  obtain m where m: "LogAuditAction io ''audit.access_logs.prune'' details (rd_main d) = (m, None)"
    using LogAuditAction_succeeds [OF assms(4, 5, 6, 7)] by blast
  obtain r where r: "ad_rbac m = ad_rbac (rd_main d) @ [r]" "rr_id r = ad_rbac_seq (rd_main d) + 1"
    "rr_entry_hash r = None" "rr_created_at r = truncate_micro (io_now io)" "ad_anchors m = ad_anchors (rd_main d)"
    using LogAuditAction_row [OF m] by blast
  let ?d1 = "cleanup_access_logs io cfg d" and ?d2 = "cleanup_tables io cfg (cleanup_access_logs io cfg d)"
  let ?d3 = "fst (CleanupExpiredRecords io ?d2)"
  have young: "io_now io - 1000 < truncate_micro (io_now io)"
    by (simp add: truncate_micro_def)
  have "r \<in> set (ad_rbac (rd_main ?d1))" "ad_anchors (rd_main ?d1) = ad_anchors (rd_main d)"
    using c1 m r by simp_all
  moreover have "rc_RBACAuditLogs cfg \<le> 0 \<or> io_now io - rc_RBACAuditLogs cfg \<le> rr_created_at r"
    using assms(9) r(4) young by auto
  ultimately have "r \<in> set (ad_rbac (rd_main ?d2))" "ad_anchors (rd_main ?d2) = ad_anchors (rd_main d)"
    using cleanup_tables_main by auto
  moreover have "rd_main ?d3 = rd_main ?d2"
    by (simp add: CleanupExpiredRecords_def Let_def split: option.split)
  ultimately have "r \<in> set (ad_rbac (rd_main (cleanup ios io cfg d)))"
    "ad_anchors (rd_main (cleanup ios io cfg d)) = ad_anchors (rd_main d)"
    using trimAccessLogsFIFO_main [of ?d3 ios io cfg] by (auto simp: cleanup_def)
  then show ?thesis
    using null_row_rejected [OF _ _ r(3) assms(10)] chain_start_cong assms(8) r(2)
    by (metis zle_add1_eq_le)
qed

definition demo_old_io :: audit_io where
  "demo_old_io = demo_io\<lparr>io_now := 10000\<rparr>"

definition demo_ttl_cfg :: RetentionConfig where
  "demo_ttl_cfg = demo_cfg\<lparr>rc_AccessLogs := 5000\<rparr>"

theorem retention_pass_breaks_rbac_chain_witness:
  "rbac_accepted demo_io None (rd_main demo_two_rows) \<and>
   \<not> rbac_accepted demo_io None (rd_main (cleanup (\<lambda>_. demo_io) demo_old_io demo_ttl_cfg demo_two_rows))"
proof
  show "rbac_accepted demo_io None (rd_main demo_two_rows)"
    using rbac_inv_accepted [OF rbac_inv_init quiet_demo_io] by (simp add: demo_two_rows_def)
  have q: "quiet demo_old_io"
    by (simp add: demo_old_io_def demo_io_def quiet_def)
  have del: "\<exists>a res. CleanupAccessLogs demo_old_io (io_now demo_old_io - rc_AccessLogs demo_ttl_cfg) (rd_audit demo_two_rows) =
      (a, Inr res) \<and> 0 < pr_Deleted res"
    by (simp add: CleanupAccessLogs_def WithTx_def cleanup_access_tx_def demo_old_io_def demo_io_def demo_ttl_cfg_def demo_cfg_def demo_two_rows_def
        demo_row_def access_row_of_def access_by_id_def anchor_cut_def getAnchorHashTx_def
        upsertAuditChainAnchorTx_def deref_def Let_def)
  then obtain a res where c: "CleanupAccessLogs demo_old_io (io_now demo_old_io - rc_AccessLogs demo_ttl_cfg)
      (rd_audit demo_two_rows) = (a, Inr res)" "0 < pr_Deleted res"
    by (elim exE conjE)
  show "\<not> rbac_accepted demo_io None (rd_main (cleanup (\<lambda>_. demo_io) demo_old_io demo_ttl_cfg demo_two_rows))"
    by (rule retention_pass_breaks_rbac_chain [OF _ c q _ _ _ _ _ quiet_demo_io])
      (simp_all add: demo_ttl_cfg_def demo_cfg_def demo_two_rows_def demo_old_io_def demo_io_def empty_db_def
        chain_start_def)
qed

end
