(* ===== verification/Audit_Sealer.thy ===== *)
theory Audit_Sealer
  imports Audit_Properties Method_Catalog
begin

text \<open>
  The asynchronous path of the access log: the durable buffer (\<^verbatim>\<open>audit/buffer/buffer.go\<close>), the sealer's
  tick (\<^verbatim>\<open>audit/sealer/sealer.go\<close>) and the seal and high-water callbacks the server installs
  (\<^verbatim>\<open>server/server.go\<close>).

  The embedded Pebble store is a parameter: a record of its operations on a database of any type. What the
  buffer relies on is \<open>pebble_ok\<close>, with the contents of a database as a map from keys to values: a write or
  a range delete that reports no error has happened and one that reports an error has not, and an iterator
  shows the keys of its range in byte order. Sequence numbers are 64-bit words and wrap.
  \<^verbatim>\<open>json.Unmarshal\<close> of a buffered record is a parameter of the seal callback.
\<close>

section \<open>The buffer\<close>

record 'db pebble =
  pb_set :: "bytes \<Rightarrow> bytes \<Rightarrow> 'db \<Rightarrow> 'db \<times> string option"
  pb_delete_range :: "bytes \<Rightarrow> bytes \<Rightarrow> 'db \<Rightarrow> 'db \<times> string option"
  pb_iter :: "bytes \<Rightarrow> bytes \<Rightarrow> 'db \<Rightarrow> (bytes \<times> bytes) list res"

type_synonym u64 = "64 word"

record 'db Buffer =
  bf_db :: 'db
  bf_seq :: u64

record Entry =
  en_Seq :: u64
  en_Data :: bytes

definition entryPrefix :: "8 word" where
  "entryPrefix = 0x65"

definition entryKey :: "u64 \<Rightarrow> bytes" where
  "entryKey seq = entryPrefix # be_bytes 8 (unat seq)"

definition seqFromKey :: "bytes \<Rightarrow> u64" where
  "seqFromKey k = word_of_nat (foldl (\<lambda>n b. 256 * n + unat b) 0 (take 8 (tl k)))"

definition validEntryKey :: "bytes \<Rightarrow> bool" where
  "validEntryKey k = (length k = 9 \<and> hd k = entryPrefix)"

definition recoverSeq :: "'db pebble \<Rightarrow> 'db \<Rightarrow> u64 res" where
  "recoverSeq p db =
     (case pb_iter p [entryPrefix] [entryPrefix + 1] db of
        Inl e \<Rightarrow> Inl (''audit buffer recover: '' @ e)
      | Inr kvs \<Rightarrow>
          if kvs \<noteq> [] \<and> validEntryKey (fst (last kvs)) then Inr (seqFromKey (fst (last kvs))) else Inr 0)"

definition Open :: "'db pebble \<Rightarrow> 'db \<Rightarrow> 'db Buffer res" where
  "Open p db = (case recoverSeq p db of Inl e \<Rightarrow> Inl e | Inr seq \<Rightarrow> Inr \<lparr>bf_db = db, bf_seq = seq\<rparr>)"

definition buffer_Append :: "'db pebble \<Rightarrow> bytes \<Rightarrow> 'db Buffer \<Rightarrow> 'db Buffer \<times> u64 res" where
  "buffer_Append p data b =
     (let seq = bf_seq b + 1; b1 = b\<lparr>bf_seq := seq\<rparr> in
      case pb_set p (entryKey seq) data (bf_db b1) of
        (db', Some e) \<Rightarrow> (b1\<lparr>bf_db := db'\<rparr>, Inl (''audit buffer append: '' @ e))
      | (db', None) \<Rightarrow> (b1\<lparr>bf_db := db'\<rparr>, Inr seq))"

definition entry_of :: "bytes \<times> bytes \<Rightarrow> Entry" where
  "entry_of kv = \<lparr>en_Seq = seqFromKey (fst kv), en_Data = snd kv\<rparr>"

definition Drain :: "'db pebble \<Rightarrow> u64 \<Rightarrow> nat \<Rightarrow> 'db Buffer \<Rightarrow> Entry list res" where
  "Drain p afterSeq limit b =
     (case pb_iter p (entryKey (afterSeq + 1)) [entryPrefix + 1] (bf_db b) of
        Inl e \<Rightarrow> Inl (''audit buffer drain: '' @ e)
      | Inr kvs \<Rightarrow> Inr (take limit (map entry_of (filter (\<lambda>kv. validEntryKey (fst kv)) kvs))))"

definition DeleteThrough :: "'db pebble \<Rightarrow> u64 \<Rightarrow> 'db Buffer \<Rightarrow> 'db Buffer \<times> string option" where
  "DeleteThrough p throughSeq b =
     (case pb_delete_range p (entryKey 0) (entryKey (throughSeq + 1)) (bf_db b) of
        (db', Some e) \<Rightarrow> (b\<lparr>bf_db := db'\<rparr>, Some (''audit buffer delete-through: '' @ e))
      | (db', None) \<Rightarrow> (b\<lparr>bf_db := db'\<rparr>, None))"

definition PendingCount :: "'db pebble \<Rightarrow> 'db Buffer \<Rightarrow> nat res" where
  "PendingCount p b =
     (case pb_iter p [entryPrefix] [entryPrefix + 1] (bf_db b) of
        Inl e \<Rightarrow> Inl e
      | Inr kvs \<Rightarrow> Inr (length (filter (\<lambda>kv. validEntryKey (fst kv)) kvs)))"

section \<open>The sealer\<close>

definition sealer_batch :: "int \<Rightarrow> nat" where
  "sealer_batch batch = (if batch \<le> 0 then 500 else nat batch)"

fun seal_entries ::
  "(u64 \<Rightarrow> bytes \<Rightarrow> 's \<Rightarrow> 's \<times> string option) \<Rightarrow> Entry list \<Rightarrow> 's \<Rightarrow> u64 \<Rightarrow> nat \<Rightarrow> 's \<times> u64 \<times> nat" where
  "seal_entries seal [] s lastSealed sealed = (s, lastSealed, sealed)"
| "seal_entries seal (e # es) s lastSealed sealed =
     (case seal (en_Seq e) (en_Data e) s of
        (s', Some err) \<Rightarrow> (s', lastSealed, sealed)
      | (s', None) \<Rightarrow> seal_entries seal es s' (en_Seq e) (sealed + 1))"

text \<open>
  The tick sees the buffer through the interface \<^verbatim>\<open>Drainer\<close>.
\<close>

definition Tick ::
  "(u64 \<Rightarrow> nat \<Rightarrow> 'b \<Rightarrow> Entry list res) \<Rightarrow> (u64 \<Rightarrow> 'b \<Rightarrow> 'b \<times> string option) \<Rightarrow>
     (u64 \<Rightarrow> bytes \<Rightarrow> 's \<Rightarrow> 's \<times> string option) \<Rightarrow> ('s \<Rightarrow> u64 res) \<Rightarrow> nat \<Rightarrow> 'b \<Rightarrow> 's \<Rightarrow>
     'b \<times> 's \<times> nat res" where
  "Tick drain deleteThrough seal highWater batch b s =
     (case highWater s of
        Inl e \<Rightarrow> (b, s, Inl e)
      | Inr hw \<Rightarrow>
          (case drain hw batch b of
             Inl e \<Rightarrow> (b, s, Inl e)
           | Inr entries \<Rightarrow>
               (case seal_entries seal entries s 0 0 of
                  (s', lastSealed, sealed) \<Rightarrow>
                    (let cleanThrough = (if lastSealed > hw then lastSealed else hw);
                         b' = (if cleanThrough > 0 then fst (deleteThrough cleanThrough b) else b)
                     in (b', s', Inr sealed)))))"

section \<open>What the server installs\<close>

record SIEMEvent =
  ev_Timestamp :: time
  ev_EventType :: string
  ev_CorrelationID :: string
  ev_ActorID :: string
  ev_Action :: string
  ev_Outcome :: string
  ev_Details :: string
  ev_SourceIP :: string
  ev_EntryHash :: string
  ev_MatchedVia :: string

text \<open>
  The state the callbacks share: the chain, the audit database and the events handed to the SIEM
  forwarder, newest last (\<^const>\<open>None\<close> without a forwarder).
\<close>

record seal_state =
  ss_chain :: HashChain
  ss_db :: audit_db
  ss_events :: "SIEMEvent list option"

definition siem_outcome :: "int \<Rightarrow> string" where
  "siem_outcome statusCode =
     (let outcome = (if statusCode \<ge> 400 then ''denied'' else ''success'')
      in if statusCode \<ge> 500 then ''error'' else outcome)"

definition seal_event :: "audit_io \<Rightarrow> registries \<Rightarrow> AccessLogRecord \<Rightarrow> string \<Rightarrow> SIEMEvent" where
  "seal_event io reg rec hash =
     (let respStatus = (case rec_ResponseStatus rec of Some rs \<Rightarrow> rs | None \<Rightarrow> rec_StatusCode rec) in
      \<lparr>ev_Timestamp = io_now io, ev_EventType = ''access'', ev_CorrelationID = rec_CorrelationID rec,
       ev_ActorID = rec_ExternalID rec, ev_Action = rec_Method rec,
       ev_Outcome = siem_outcome (rec_StatusCode rec),
       ev_Details = ''decision='' @ itoa (rec_StatusCode rec) @ '' response='' @ itoa respStatus,
       ev_SourceIP = rec_IPAddress rec, ev_EntryHash = hash,
       ev_MatchedVia = (if IsPassthroughMethod reg (rec_Method rec) then ''passthrough'' else [])\<rparr>)"

definition sealFn ::
  "(u64 \<Rightarrow> audit_io) \<Rightarrow> registries \<Rightarrow> (bytes \<Rightarrow> AccessLogRecord option) \<Rightarrow> string \<Rightarrow>
     u64 \<Rightarrow> bytes \<Rightarrow> seal_state \<Rightarrow> seal_state \<times> string option" where
  "sealFn ios reg unmarshal chainName seq data s =
     (case unmarshal data of
        None \<Rightarrow> (s, None)
      | Some rec \<Rightarrow>
          (case SealBufferedAccessLog (ios seq) (Some (ss_chain s)) rec (sint seq) chainName (ss_db s) of
             (h', d', Inl e) \<Rightarrow> (s\<lparr>ss_chain := the h', ss_db := d'\<rparr>, Some e)
           | (h', d', Inr hash) \<Rightarrow>
               (s\<lparr>ss_chain := the h', ss_db := d',
                  ss_events := map_option (\<lambda>evs. evs @ [seal_event (ios seq) reg rec hash]) (ss_events s)\<rparr>, None)))"

definition sealHighWater :: "audit_io \<Rightarrow> string \<Rightarrow> seal_state \<Rightarrow> u64 res" where
  "sealHighWater io chainName s =
     (case GetMaxAccessLogBufferSeq io chainName (ss_db s) of Inl e \<Rightarrow> Inl e | Inr n \<Rightarrow> Inr (word_of_nat n))"

section \<open>Keys\<close>

lemma be_bytes_8:
  "be_bytes 8 n = map (\<lambda>j. word_of_nat (n div 256 ^ j)) [7, 6, 5, 4, 3, 2, 1, 0]"
  by (simp add: be_bytes_def upt_rec)

lemma length_be_bytes [simp]: "length (be_bytes w n) = w"
  by (simp add: be_bytes_def)

definition be_value :: "bytes \<Rightarrow> nat" where
  "be_value bs = foldl (\<lambda>n b. 256 * n + unat b) 0 bs"

lemma be_value_snoc: "be_value (bs @ [b]) = 256 * be_value bs + unat b"
  by (simp add: be_value_def)

lemma be_bytes_Suc: "be_bytes (Suc w) n = be_bytes w (n div 256) @ [word_of_nat n]"
proof -
  have "n div 256 div 256 ^ (w - Suc i) = n div 256 ^ (w - i)" if "i < w" for i
    using that by (simp flip: div_mult2_eq power_Suc add: Suc_diff_Suc)
  then show ?thesis
    by (simp add: be_bytes_def)
qed

lemma unat_byte: "unat (word_of_nat n :: 8 word) = n mod 256"
  by (simp add: unat_of_nat)

lemma be_value_be_bytes: "n < 256 ^ w \<Longrightarrow> be_value (be_bytes w n) = n"
proof (induction w arbitrary: n)
  case 0
  then show ?case by (simp add: be_bytes_def be_value_def)
next
  case (Suc w)
  then have "n div 256 < 256 ^ w"
    by (simp add: less_mult_imp_div_less mult.commute)
  then show ?case
    using Suc.IH by (simp add: be_bytes_Suc be_value_snoc unat_byte)
qed

lemma entry_seq_bound: "unat (s :: u64) < 256 ^ 8"
  using unsigned_less [of s] by simp

lemma seqFromKey_entryKey [simp]: "seqFromKey (entryKey s) = s"
  using be_value_be_bytes [OF entry_seq_bound, of s]
  by (simp add: seqFromKey_def entryKey_def be_value_def)

lemma validEntryKey_entryKey [simp]: "validEntryKey (entryKey s)"
  by (simp add: validEntryKey_def entryKey_def)

lemma entryKey_inj [simp]: "entryKey s = entryKey t \<longleftrightarrow> s = t"
  by (metis seqFromKey_entryKey)

text \<open>
  Byte order of big-endian numbers is numeric order.
\<close>

lemma be_value_Cons: "be_value (b # bs) = unat b * 256 ^ length bs + be_value bs"
proof (induction bs rule: rev_induct)
  case Nil
  then show ?case by (simp add: be_value_def)
next
  case (snoc c cs)
  then show ?case
    using be_value_snoc [of "b # cs" c] by (simp add: be_value_snoc algebra_simps)
qed

lemma be_value_bound: "be_value bs < 256 ^ length bs"
proof (induction bs)
  case Nil
  then show ?case by (simp add: be_value_def)
next
  case (Cons b bs)
  have "unat b < 256"
    using unsigned_less [of b] by simp
  then have "unat b * 256 ^ length bs + 256 ^ length bs \<le> 256 * 256 ^ length bs"
    by (metis Suc_leI add.commute mult_Suc mult_le_mono1)
  then have "unat b * 256 ^ length bs + be_value bs < 256 * 256 ^ length bs"
    using Cons.IH by linarith
  then show ?case
    by (simp only: be_value_Cons length_Cons power_Suc)
qed

lemma be_value_less: "length xs = length ys \<Longrightarrow> xs < ys \<Longrightarrow> be_value xs < be_value ys"
proof (induction xs ys rule: list_induct2)
  case (Cons x xs y ys)
  show ?case
  proof (cases "x = y")
    case False
    then have "unat x < unat y"
      using Cons.prems by (simp add: word_less_nat_alt)
    then have "unat x * 256 ^ length xs + 256 ^ length xs \<le> unat y * 256 ^ length ys"
      using Cons.hyps by (metis Suc_leI add.commute mult_Suc mult_le_mono1)
    then show ?thesis
      using be_value_bound [of xs] unfolding be_value_Cons by linarith
  qed (use Cons in \<open>simp add: be_value_Cons\<close>)
qed simp

lemma entryKey_less [simp]: "entryKey s < entryKey t \<longleftrightarrow> s < t"
proof -
  have "entryKey s < entryKey t \<Longrightarrow> s < t" for s t
    using be_value_less [of "be_bytes 8 (unat s)" "be_bytes 8 (unat t)"]
      be_value_be_bytes [OF entry_seq_bound, of s] be_value_be_bytes [OF entry_seq_bound, of t]
    by (simp add: entryKey_def word_less_nat_alt)
  then show ?thesis
    by (metis entryKey_inj linorder_cases order_less_asym)
qed

lemma entryKey_le [simp]: "entryKey s \<le> entryKey t \<longleftrightarrow> s \<le> t"
  by (metis entryKey_less not_le)

lemma entryKey_in_prefix [simp]: "[entryPrefix] \<le> entryKey s" "entryKey s < [entryPrefix + 1]"
  by (simp_all add: entryKey_def entryPrefix_def)

section \<open>What the store promises\<close>

definition pebble_ok :: "'db pebble \<Rightarrow> ('db \<Rightarrow> bytes \<rightharpoonup> bytes) \<Rightarrow> bool" where
  "pebble_ok p C \<longleftrightarrow>
     (\<forall>k v db. case pb_set p k v db of
        (db', None) \<Rightarrow> C db' = (C db)(k \<mapsto> v) | (db', Some _) \<Rightarrow> C db' = C db) \<and>
     (\<forall>lo hi db. case pb_delete_range p lo hi db of
        (db', None) \<Rightarrow> C db' = C db |` {k. \<not> (lo \<le> k \<and> k < hi)} | (db', Some _) \<Rightarrow> C db' = C db) \<and>
     (\<forall>lo hi db. case pb_iter p lo hi db of
        Inl _ \<Rightarrow> True
      | Inr kvs \<Rightarrow> sorted_wrt (<) (map fst kvs) \<and> map_of kvs = C db |` {k. lo \<le> k \<and> k < hi})"

text \<open>
  The entries a buffer holds, and a buffer whose store holds nothing else.
\<close>

definition held :: "('db \<Rightarrow> bytes \<rightharpoonup> bytes) \<Rightarrow> 'db Buffer \<Rightarrow> u64 \<rightharpoonup> bytes" where
  "held C b = (\<lambda>s. C (bf_db b) (entryKey s))"

definition buffer_ok :: "'db pebble \<Rightarrow> ('db \<Rightarrow> bytes \<rightharpoonup> bytes) \<Rightarrow> 'db Buffer \<Rightarrow> bool" where
  "buffer_ok p C b \<longleftrightarrow> pebble_ok p C \<and> dom (C (bf_db b)) \<subseteq> range entryKey"

lemma pebble_iter:
  assumes "buffer_ok p C b" "pb_iter p lo hi (bf_db b) = Inr kvs"
  shows "\<exists>ss. sorted_wrt (<) ss \<and> set ss = {s. lo \<le> entryKey s \<and> entryKey s < hi \<and> held C b s \<noteq> None} \<and>
    kvs = map (\<lambda>s. (entryKey s, the (held C b s))) ss"
proof -
  have ok: "sorted_wrt (<) (map fst kvs)" "map_of kvs = C (bf_db b) |` {k. lo \<le> k \<and> k < hi}"
    using assms by (auto simp: buffer_ok_def pebble_ok_def split: sum.splits)
  have keys: "set (map fst kvs) \<subseteq> range entryKey"
    using ok(2) assms(1) dom_map_of_conv_image_fst [of kvs] by (auto simp: buffer_ok_def restrict_map_def dom_def split: if_splits)
  define ss where "ss = map (seqFromKey \<circ> fst) kvs"
  have fst: "map fst kvs = map entryKey ss"
    using keys by (auto simp: ss_def image_subset_iff)
  have dist: "distinct (map fst kvs)"
    using ok(1) strict_sorted_iff by blast
  have val: "map_of kvs (entryKey s) = (if lo \<le> entryKey s \<and> entryKey s < hi then held C b s else None)" for s
    by (simp add: ok(2) held_def restrict_map_def)
  have "sorted_wrt (<) ss"
    using ok(1) by (simp add: fst sorted_wrt_map)
  moreover have "s \<in> set ss \<longleftrightarrow> map_of kvs (entryKey s) \<noteq> None" for s
  proof -
    have "s \<in> set ss \<longleftrightarrow> entryKey s \<in> set (map fst kvs)"
      unfolding fst by auto
    then show ?thesis
      by (simp add: map_of_eq_None_iff)
  qed
  then have set: "set ss = {s. lo \<le> entryKey s \<and> entryKey s < hi \<and> held C b s \<noteq> None}"
    by (auto simp: val split: if_splits)
  moreover have "kvs = map (\<lambda>s. (entryKey s, the (held C b s))) ss"
  proof -
    have "kv = (entryKey (seqFromKey (fst kv)), the (held C b (seqFromKey (fst kv))))" if kv: "kv \<in> set kvs" for kv
    proof -
      obtain s where s: "fst kv = entryKey s"
        using keys kv by auto
      have "map_of kvs (fst kv) = Some (snd kv)"
        using dist kv by (simp add: map_of_eq_Some_iff)
      then have "held C b s = Some (snd kv)"
        using val [of s] s by (simp split: if_splits)
      then show ?thesis
        using s by (metis option.sel prod.collapse seqFromKey_entryKey)
    qed
    then show ?thesis
      by (simp add: ss_def map_idI o_def)
  qed
  ultimately show ?thesis
    by blast
qed

section \<open>The interface of the sealer\<close>

fun sealed_all ::
  "(u64 \<Rightarrow> bytes \<Rightarrow> 's \<Rightarrow> 's \<times> string option) \<Rightarrow> Entry list \<Rightarrow> 's \<Rightarrow> 's \<Rightarrow> bool" where
  "sealed_all seal [] s s' \<longleftrightarrow> s' = s"
| "sealed_all seal (e # es) s s' \<longleftrightarrow> (\<exists>s1. seal (en_Seq e) (en_Data e) s = (s1, None) \<and> sealed_all seal es s1 s')"

lemma seal_entries_spec:
  "seal_entries seal es s l k = (s', l', m) \<Longrightarrow>
     \<exists>n s1. n \<le> length es \<and> m = k + n \<and> l' = (if n = 0 then l else en_Seq (es ! (n - 1))) \<and>
       sealed_all seal (take n es) s s1 \<and>
       (if n = length es then s' = s1 else \<exists>err. seal (en_Seq (es ! n)) (en_Data (es ! n)) s1 = (s', Some err))"
proof (induction es arbitrary: s l k)
  case Nil
  then show ?case by simp
next
  case (Cons e es)
  show ?case
  proof (cases "seal (en_Seq e) (en_Data e) s")
    case (Pair s0 r)
    show ?thesis
    proof (cases r)
      case (Some err)
      then show ?thesis
        using Cons.prems Pair by (intro exI [of _ 0] exI [of _ s]) simp
    next
      case None
      then obtain n s1 where "n \<le> length es" "m = Suc k + n" "l' = (if n = 0 then en_Seq e else en_Seq (es ! (n - 1)))"
        "sealed_all seal (take n es) s0 s1"
        "if n = length es then s' = s1 else \<exists>err. seal (en_Seq (es ! n)) (en_Data (es ! n)) s1 = (s', Some err)"
        using Cons.IH [of s0 "en_Seq e" "Suc k"] Cons.prems Pair by auto
      then show ?thesis
        using None Pair by (intro exI [of _ "Suc n"] exI [of _ s1]) (auto simp: nth_Cons')
    qed
  qed
qed

definition entry_at :: "(u64 \<rightharpoonup> bytes) \<Rightarrow> u64 \<Rightarrow> Entry" where
  "entry_at m x = \<lparr>en_Seq = x, en_Data = the (m x)\<rparr>"

definition pending_after :: "(u64 \<rightharpoonup> bytes) \<Rightarrow> u64 \<Rightarrow> u64 list \<Rightarrow> bool" where
  "pending_after m a ss \<longleftrightarrow> sorted_wrt (<) ss \<and> set ss = {x. a < x \<and> m x \<noteq> None}"

locale drainer =
  fixes drain :: "u64 \<Rightarrow> nat \<Rightarrow> 'b \<Rightarrow> Entry list res"
    and deleteThrough :: "u64 \<Rightarrow> 'b \<Rightarrow> 'b \<times> string option"
    and content :: "'b \<Rightarrow> u64 \<rightharpoonup> bytes"
    and ok :: "'b \<Rightarrow> bool"
  assumes drain_ascending:
    "ok b \<Longrightarrow> a < - 1 \<Longrightarrow> drain a n b = Inr es \<Longrightarrow>
       \<exists>ss. pending_after (content b) a ss \<and> es = take n (map (entry_at (content b)) ss)"
    and delete_cut:
    "ok b \<Longrightarrow> t < - 1 \<Longrightarrow> deleteThrough t b = (b', r) \<Longrightarrow>
       ok b' \<and> content b' = (if r = None then content b |` {x. t < x} else content b)"
begin

lemma tick_spec:
  assumes ok: "ok b" and hw: "highWater s = Inr hw" "hw < - 1" and small: "\<forall>x. content b x \<noteq> None \<longrightarrow> x < - 1"
    and tick: "Tick drain deleteThrough seal highWater batch b s = (b', s', Inr m)"
  shows "\<exists>ss n s1 t. pending_after (content b) hw ss \<and> n \<le> length (take batch ss) \<and> m = n \<and>
    sealed_all seal (map (entry_at (content b)) (take n ss)) s s1 \<and>
    (if n = length (take batch ss) then s' = s1
     else \<exists>err. seal (ss ! n) (the (content b (ss ! n))) s1 = (s', Some err)) \<and>
    t = (if n = 0 then hw else ss ! (n - 1)) \<and> hw \<le> t \<and>
    ok b' \<and> content b' \<in> {content b, content b |` {x. t < x}} \<and>
    ((\<forall>t b. snd (deleteThrough t b) = None) \<longrightarrow> t = 0 \<or> content b' = content b |` {x. t < x})"
proof -
  obtain es where es: "drain hw batch b = Inr es"
    using tick hw(1) by (cases "drain hw batch b") (auto simp: Tick_def)
  obtain ss where ss: "pending_after (content b) hw ss" "es = take batch (map (entry_at (content b)) ss)"
    using drain_ascending [OF ok hw(2) es] by blast
  obtain s2 l k where se: "seal_entries seal es s 0 0 = (s2, l, k)"
    by (cases "seal_entries seal es s 0 0" rule: prod_cases3)
  obtain n s1 where n: "n \<le> length es" "k = n" "l = (if n = 0 then 0 else en_Seq (es ! (n - 1)))"
    "sealed_all seal (take n es) s s1"
    "if n = length es then s2 = s1 else \<exists>err. seal (en_Seq (es ! n)) (en_Data (es ! n)) s1 = (s2, Some err)"
    using seal_entries_spec [OF se] by auto
  have len: "length es = length (take batch ss)"
    by (simp add: ss(2))
  have nth: "es ! i = entry_at (content b) (ss ! i)" if "i < length es" for i
    using that by (simp add: ss(2))
  have l: "l = (if n = 0 then 0 else ss ! (n - 1))"
    using n(1, 3) nth [of "n - 1"] by (simp add: entry_at_def)
  have above: "hw < ss ! i \<and> ss ! i < - 1" if "i < length ss" for i
  proof -
    have "ss ! i \<in> set ss"
      using that by simp
    then show ?thesis
      using ss(1) small by (auto simp: pending_after_def)
  qed
  define t where "t = (if n = 0 then hw else ss ! (n - 1))"
  have above_last: "hw < ss ! (n - 1) \<and> ss ! (n - 1) < - 1" if "n \<noteq> 0"
    using that n(1) len by (intro above) (simp, linarith)
  have t: "(if l > hw then l else hw) = t" "hw \<le> t" "t < - 1"
    using l above_last hw(2) by (auto simp: t_def)
  have res: "s' = s2" "m = n" "b' = (if t > 0 then fst (deleteThrough t b) else b)"
    using tick hw(1) es se n(2) unfolding t(1) [symmetric] by (simp_all add: Tick_def Let_def)
  obtain b2 r where d: "deleteThrough t b = (b2, r)"
    by fastforce
  note cut = delete_cut [OF ok t(3) d]
  have "ok b' \<and> content b' \<in> {content b, content b |` {x. t < x}} \<and>
      ((\<forall>t b. snd (deleteThrough t b) = None) \<longrightarrow> t = 0 \<or> content b' = content b |` {x. t < x})"
  proof (cases "t > 0")
    case True
    have "(\<forall>t b. snd (deleteThrough t b) = None) \<Longrightarrow> r = None"
      using d by (metis snd_conv)
    then show ?thesis
      using True res(3) d cut by (auto split: if_splits)
  next
    case False
    then show ?thesis
      using res(3) ok by (simp add: word_gt_0)
  qed
  moreover have "take n es = map (entry_at (content b)) (take n ss)"
    using n(1) len by (simp add: ss(2) take_map min_absorb1)
  moreover have "if n = length (take batch ss) then s' = s1
      else \<exists>err. seal (ss ! n) (the (content b (ss ! n))) s1 = (s', Some err)"
  proof (cases "n = length es")
    case False
    then have "es ! n = entry_at (content b) (ss ! n)"
      using n(1) by (intro nth) simp
    then show ?thesis
      using n(5) False len res(1) by (simp add: entry_at_def)
  qed (use n(5) len res(1) in simp)
  ultimately show ?thesis
    using ss(1) n(1, 4) len res(2) t(2) by (intro exI [of _ ss] exI [of _ n] exI [of _ s1] exI [of _ t]) (simp add: t_def)
qed

text \<open>
  What leaves the buffer was at or below the high water or has just been sealed.
\<close>

lemma tick_keeps_unsealed:
  assumes ok: "ok b" and hw: "highWater s = Inr hw" "hw < - 1" and small: "\<forall>x. content b x \<noteq> None \<longrightarrow> x < - 1"
    and tick: "Tick drain deleteThrough seal highWater batch b s = (b', s', Inr m)"
  shows "\<exists>es s1. sealed_all seal es s s1 \<and>
    (s' = s1 \<or> (\<exists>x d err. seal x d s1 = (s', Some err))) \<and>
    (\<forall>x d. content b x = Some d \<longrightarrow> content b' x \<noteq> Some d \<longrightarrow> x \<le> hw \<or> \<lparr>en_Seq = x, en_Data = d\<rparr> \<in> set es)"
proof -
  obtain ss n s1 t where sp: "pending_after (content b) hw ss" "n \<le> length (take batch ss)"
    "sealed_all seal (map (entry_at (content b)) (take n ss)) s s1"
    "if n = length (take batch ss) then s' = s1
     else \<exists>err. seal (ss ! n) (the (content b (ss ! n))) s1 = (s', Some err)"
    "t = (if n = 0 then hw else ss ! (n - 1))" "content b' \<in> {content b, content b |` {x. t < x}}"
    using tick_spec [OF assms] by blast
  have "x \<le> hw \<or> \<lparr>en_Seq = x, en_Data = d\<rparr> \<in> set (map (entry_at (content b)) (take n ss))"
    if x: "content b x = Some d" "content b' x \<noteq> Some d" for x d
  proof (cases "x \<le> hw")
    case False
    then have "x \<in> set ss"
      using sp(1) x(1) by (auto simp: pending_after_def)
    then obtain i where i: "i < length ss" "x = ss ! i"
      by (auto simp: in_set_conv_nth)
    have "x \<le> t"
      using x sp(6) by (auto simp: restrict_map_def split: if_splits)
    then have n: "0 < n" "ss ! i \<le> ss ! (n - 1)"
      using False i(2) sp(5) by (auto split: if_splits)
    have "i < n"
    proof (rule ccontr)
      assume "\<not> i < n"
      then have "ss ! (n - 1) < ss ! i"
        using n(1) i(1) sp(1) by (intro sorted_wrt_nth_less [of "(<)"]) (auto simp: pending_after_def)
      then show False
        using n(2) by simp
    qed
    then have "x \<in> set (take n ss)"
      using i by (metis in_set_conv_nth length_take min_less_iff_conj nth_take)
    then show ?thesis
      using x(1) by (force simp: entry_at_def)
  qed simp
  then show ?thesis
    using sp(3, 4) by (intro exI [of _ "map (entry_at (content b)) (take n ss)"] exI [of _ s1])
      (auto split: if_splits)
qed

end

lemma next_seq_le: "(a :: u64) < - 1 \<Longrightarrow> a + 1 \<le> x \<longleftrightarrow> a < x"
proof -
  assume "a < - 1"
  then have "unat a < 2 ^ 64 - 1"
    by (simp add: word_less_nat_alt unsigned_minus_1_eq_mask mask_eq_exp_minus_1)
  then have "unat (a + 1) = unat a + 1"
    by (simp add: unat_word_ariths(1))
  then show ?thesis
    by (simp add: word_less_nat_alt word_le_nat_alt Suc_le_eq)
qed

lemma buffer_drain_ascending:
  assumes "buffer_ok p C b" "a < - 1" "Drain p a n b = Inr es"
  shows "\<exists>ss. pending_after (held C b) a ss \<and> es = take n (map (entry_at (held C b)) ss)"
proof -
  obtain kvs where kvs: "pb_iter p (entryKey (a + 1)) [entryPrefix + 1] (bf_db b) = Inr kvs"
    "es = take n (map entry_of (filter (\<lambda>kv. validEntryKey (fst kv)) kvs))"
    using assms(3) by (auto simp: Drain_def split: sum.splits)
  obtain ss where ss: "sorted_wrt (<) ss"
    "set ss = {s. entryKey (a + 1) \<le> entryKey s \<and> entryKey s < [entryPrefix + 1] \<and> held C b s \<noteq> None}"
    "kvs = map (\<lambda>s. (entryKey s, the (held C b s))) ss"
    using pebble_iter [OF assms(1) kvs(1)] by blast
  have "pending_after (held C b) a ss"
    using ss(1, 2) by (simp add: pending_after_def next_seq_le [OF assms(2)])
  moreover have "es = take n (map (entry_at (held C b)) ss)"
    by (simp add: kvs(2) ss(3) filter_map o_def entry_of_def entry_at_def [abs_def])
  ultimately show ?thesis
    by blast
qed

lemma buffer_delete_cut:
  assumes "buffer_ok p C b" "t < - 1" "DeleteThrough p t b = (b', r)"
  shows "buffer_ok p C b' \<and> held C b' = (if r = None then held C b |` {x. t < x} else held C b)"
proof -
  obtain db' r' where d: "pb_delete_range p (entryKey 0) (entryKey (t + 1)) (bf_db b) = (db', r')"
    by fastforce
  have C: "C db' = (if r' = None then C (bf_db b) |` {k. \<not> (entryKey 0 \<le> k \<and> k < entryKey (t + 1))} else C (bf_db b))"
  proof -
    have "case pb_delete_range p (entryKey 0) (entryKey (t + 1)) (bf_db b) of
        (db', None) \<Rightarrow> C db' = C (bf_db b) |` {k. \<not> (entryKey 0 \<le> k \<and> k < entryKey (t + 1))}
      | (db', Some _) \<Rightarrow> C db' = C (bf_db b)"
      using assms(1) by (simp only: buffer_ok_def pebble_ok_def)
    then show ?thesis
      by (cases r') (simp_all add: d)
  qed
  have "x < t + 1 \<longleftrightarrow> x \<le> t" for x
    using next_seq_le [OF assms(2), of x] by auto
  moreover have "b' = b\<lparr>bf_db := db'\<rparr>" "r = None \<longleftrightarrow> r' = None"
    using assms(3) d by (auto simp: DeleteThrough_def split: option.splits)
  ultimately show ?thesis
    using assms(1) C by (auto simp: buffer_ok_def held_def restrict_map_def fun_eq_iff dom_def not_le split: if_splits)
qed

interpretation bufd: drainer "Drain p" "DeleteThrough p" "held C" "buffer_ok p C" for p C
  by unfold_locales (rule buffer_drain_ascending buffer_delete_cut; assumption)+

section \<open>A tick drops nothing\<close>

definition row_for :: "AccessLogRecord \<Rightarrow> int \<Rightarrow> string \<Rightarrow> access_row \<Rightarrow> bool" where
  "row_for rec q n r \<longleftrightarrow> (\<exists>rowID t h. r = access_row_of rec rowID t (Some h) (Some q) n)"

lemma seal_outcome:
  assumes "SealBufferedAccessLog io (Some h) rec q n d = (h', d', r)"
  shows "(\<exists>e. r = Inl e \<and> ad_access d' = ad_access d) \<or>
    (\<exists>hash row. r = Inr hash \<and> row = access_row_of rec (ad_access_seq d + 1) (truncate_micro (io_now io)) (Some hash) (Some q) n \<and>
       d' = d\<lparr>ad_access_seq := ad_access_seq d + 1, ad_access := ad_access d @ [row]\<rparr>)"
proof (cases rule: nextval_access_cases [of io d])
  case (1 e)
  then show ?thesis
    using assms by (auto simp: SealBufferedAccessLog_def Append_def access_build_def)
next
  case 2
  define content where "content = AccessLogChainContent (ad_access_seq d + 1) (rec_ExternalID rec) (rec_Method rec)
    (rec_IPAddress rec) (rec_StatusCode rec) (case rec_ResponseStatus rec of Some rs \<Rightarrow> rs | None \<Rightarrow> rec_StatusCode rec)
    (truncate_micro (io_now io)) (rec_CorrelationID rec) (case rec_Params rec of Some p \<Rightarrow> p | None \<Rightarrow> [])"
  define hash where "hash = encode_hex (sha256 (str_bytes (lastHash h) @ str_bytes content))"
  define row where "row = access_row_of rec (ad_access_seq d + 1) (truncate_micro (io_now io)) (Some hash) (Some q) n"
  let ?d1 = "d\<lparr>ad_access_seq := ad_access_seq d + 1\<rparr>"
  have val: "SealBufferedAccessLog io (Some h) rec q n d =
      (case insert_access io row ?d1 of
         (d3, Some e) \<Rightarrow> (Some h, d3, Inl (''insert access_logs (seal): '' @ e))
       | (d3, None) \<Rightarrow> (Some (h\<lparr>lastHash := hash\<rparr>), d3, Inr hash))"
    using 2 by (simp add: SealBufferedAccessLog_def Append_def access_build_def Let_def content_def [symmetric]
        hash_def [symmetric] row_def [symmetric] split: prod.split option.split)
  show ?thesis
  proof (cases rule: insert_access_cases [of io row ?d1])
    case (1 e)
    then show ?thesis
      using assms val by auto
  next
    case 2
    then show ?thesis
      using assms val row_def by auto
  qed
qed

lemma sealFn_rows:
  assumes "sealFn ios reg unmarshal n x data s = (s', r)"
  shows "set (ad_access (ss_db s)) \<subseteq> set (ad_access (ss_db s'))"
    and "r = None \<Longrightarrow> unmarshal data = Some rec \<Longrightarrow>
      \<exists>row\<in>set (ad_access (ss_db s')). row_for rec (sint x) n row"
proof -
  have "set (ad_access (ss_db s)) \<subseteq> set (ad_access (ss_db s')) \<and>
    (r = None \<longrightarrow> unmarshal data = Some rec \<longrightarrow> (\<exists>row\<in>set (ad_access (ss_db s')). row_for rec (sint x) n row))"
  proof (cases "unmarshal data")
    case None
    then show ?thesis
      using assms by (auto simp: sealFn_def)
  next
    case (Some rec')
    obtain h' d' o' where seal: "SealBufferedAccessLog (ios x) (Some (ss_chain s)) rec' (sint x) n (ss_db s) = (h', d', o')"
      by (cases "SealBufferedAccessLog (ios x) (Some (ss_chain s)) rec' (sint x) n (ss_db s)" rule: prod_cases3)
    show ?thesis
      using seal_outcome [OF seal]
    proof (elim disjE exE conjE)
      fix e
      assume "o' = Inl e" "ad_access d' = ad_access (ss_db s)"
      then show ?thesis
        using assms Some seal by (auto simp: sealFn_def)
    next
      fix hash row
      assume "o' = Inr hash" "row = access_row_of rec' (ad_access_seq (ss_db s) + 1) (truncate_micro (io_now (ios x))) (Some hash) (Some (sint x)) n"
        "d' = (ss_db s)\<lparr>ad_access_seq := ad_access_seq (ss_db s) + 1, ad_access := ad_access (ss_db s) @ [row]\<rparr>"
      moreover from this(2) have "row_for rec' (sint x) n row"
        unfolding row_for_def by blast
      ultimately show ?thesis
        using assms Some seal by (auto simp: sealFn_def)
    qed
  qed
  then show "set (ad_access (ss_db s)) \<subseteq> set (ad_access (ss_db s'))"
    "r = None \<Longrightarrow> unmarshal data = Some rec \<Longrightarrow> \<exists>row\<in>set (ad_access (ss_db s')). row_for rec (sint x) n row"
    by auto
qed

lemma sealed_all_rows:
  "sealed_all (sealFn ios reg unmarshal n) es s s' \<Longrightarrow>
     set (ad_access (ss_db s)) \<subseteq> set (ad_access (ss_db s')) \<and>
     (\<forall>e\<in>set es. \<forall>rec. unmarshal (en_Data e) = Some rec \<longrightarrow>
        (\<exists>row\<in>set (ad_access (ss_db s')). row_for rec (sint (en_Seq e)) n row))"
proof (induction es arbitrary: s)
  case (Cons e es)
  then obtain s1 where s1: "sealFn ios reg unmarshal n (en_Seq e) (en_Data e) s = (s1, None)"
    "sealed_all (sealFn ios reg unmarshal n) es s1 s'"
    by auto
  note IH = Cons.IH [OF s1(2)]
  have "set (ad_access (ss_db s)) \<subseteq> set (ad_access (ss_db s'))"
    using IH sealFn_rows(1) [OF s1(1)] by (meson subset_trans)
  moreover have "\<exists>row\<in>set (ad_access (ss_db s')). row_for rec (sint (en_Seq e)) n row"
    if "unmarshal (en_Data e) = Some rec" for rec
    using sealFn_rows(2) [OF s1(1) refl that] IH by (meson subsetD)
  ultimately show ?case
    using IH by (simp del: split_paired_Ex)
qed simp


text \<open>
  A store kept as an association list, with which the two runs below are evaluated.
\<close>

definition demo_pebble :: "(bytes \<times> bytes) list pebble" where
  "demo_pebble = \<lparr>pb_set = (\<lambda>k v db. ((k, v) # db, None)),
     pb_delete_range = (\<lambda>lo hi db. (filter (\<lambda>kv. \<not> (lo \<le> fst kv \<and> fst kv < hi)) db, None)),
     pb_iter = (\<lambda>lo hi db. Inr (sort_key fst (filter (\<lambda>kv. lo \<le> fst kv \<and> fst kv < hi) (AList.clearjunk db))))\<rparr>"

lemma map_of_filter_keys: "map_of (filter (\<lambda>kv. P (fst kv)) xs) = map_of xs |` {k. P k}"
  by (induction xs) (auto simp: fun_eq_iff restrict_map_def)

lemma map_of_sort_key:
  assumes "distinct (map fst xs)"
  shows "map_of (sort_key fst xs) = map_of xs"
proof -
  have "distinct (map fst (sort_key fst xs))"
    using assms by (metis distinct_map distinct_sort set_sort)
  then show ?thesis
    using assms by (simp add: map_of_inject_set)
qed

lemma distinct_filter_keys: "distinct (map fst xs) \<Longrightarrow> distinct (map fst (filter P xs))"
  by (induction xs) auto

lemma pebble_ok_demo: "pebble_ok demo_pebble map_of"
proof -
  have "sorted_wrt (<) (map fst (sort_key fst xs))" if "distinct (map fst xs)" for xs :: "(bytes \<times> bytes) list"
    using that by (metis distinct_map distinct_sort set_sort sorted_sort_key strict_sorted_iff)
  moreover have "distinct (map fst (filter P (AList.clearjunk db)))" for P and db :: "(bytes \<times> bytes) list"
    by (intro distinct_filter_keys distinct_clearjunk)
  moreover have "map_of (filter (\<lambda>kv. \<not> (lo \<le> fst kv \<and> fst kv < hi)) db) = map_of db |` {k. \<not> (lo \<le> k \<and> k < hi)}"
    "map_of (filter (\<lambda>kv. lo \<le> fst kv \<and> fst kv < hi) db) = map_of db |` {k. lo \<le> k \<and> k < hi}"
    for lo hi and db :: "(bytes \<times> bytes) list"
    by (rule map_of_filter_keys)+
  ultimately show ?thesis
    by (simp add: pebble_ok_def demo_pebble_def map_of_sort_key map_of_clearjunk)
qed

definition demo_seal_state :: seal_state where
  "demo_seal_state = \<lparr>ss_chain = NewHashChain [], ss_db = empty_db, ss_events = None\<rparr>"

definition demo_unmarshal :: "bytes \<Rightarrow> AccessLogRecord option" where
  "demo_unmarshal data = (if data = [7] then Some demo_rec else None)"

definition demo_buffer :: "(bytes \<times> bytes) list Buffer" where
  "demo_buffer = \<lparr>bf_db = [(entryKey 1, [7])], bf_seq = 1\<rparr>"

lemma demo_buffer_ok: "buffer_ok demo_pebble map_of demo_buffer"
  by (simp add: buffer_ok_def pebble_ok_demo demo_buffer_def)

lemma seq_one_small: "(1 :: u64) < - 1" "(0 :: u64) < - 1"
  by (simp_all add: word_less_nat_alt unsigned_minus_1_eq_mask mask_eq_exp_minus_1)

lemma demo_high_water:
  "sealHighWater demo_io ChainNameAccessLogs demo_seal_state = Inr 0"
  by (simp add: sealHighWater_def GetMaxAccessLogBufferSeq_def demo_io_def demo_seal_state_def empty_db_def
      map_filter_simps)

lemma demo_tick:
  "\<exists>s'. Tick (Drain demo_pebble) (DeleteThrough demo_pebble)
     (sealFn (\<lambda>_. demo_io) empty_registries demo_unmarshal ChainNameAccessLogs)
     (sealHighWater demo_io ChainNameAccessLogs) 500 demo_buffer demo_seal_state =
     (\<lparr>bf_db = [], bf_seq = 1\<rparr>, s', Inr 1)"
proof -
  obtain s' where seal: "sealFn (\<lambda>_. demo_io) empty_registries demo_unmarshal ChainNameAccessLogs 1 [7] demo_seal_state = (s', None)"
    by (simp add: sealFn_def demo_unmarshal_def demo_seal_state_def SealBufferedAccessLog_def Append_def access_build_def
        nextval_access_def insert_access_def demo_io_def empty_db_def Let_def split: prod.split)
  have "Drain demo_pebble 0 500 demo_buffer = Inr [\<lparr>en_Seq = 1, en_Data = [7]\<rparr>]"
    by (simp add: Drain_def demo_pebble_def demo_buffer_def entry_of_def)
  moreover have "DeleteThrough demo_pebble 1 demo_buffer = (\<lparr>bf_db = [], bf_seq = 1\<rparr>, None)"
    by (simp add: DeleteThrough_def demo_pebble_def demo_buffer_def)
  ultimately show ?thesis
    using seal by (simp add: Tick_def demo_high_water)
qed


section \<open>A reopened buffer\<close>

text \<open>
  Sequence numbers are recovered from what the buffer still holds, so a drained buffer starts again at 1,
  while the high water is read from the rows already sealed.
\<close>

lemma reopened_seq:
  assumes "buffer_ok p C b" "held C b = Map.empty" "Open p (bf_db b) = Inr b0"
  shows "b0 = \<lparr>bf_db = bf_db b, bf_seq = 0\<rparr>"
proof -
  obtain kvs where kvs: "pb_iter p [entryPrefix] [entryPrefix + 1] (bf_db b) = Inr kvs"
    using assms(3) by (auto simp: Open_def recoverSeq_def split: sum.splits)
  have "kvs = []"
    using pebble_iter [OF assms(1) kvs] assms(2) by auto
  then show ?thesis
    using assms(3) kvs by (simp add: Open_def recoverSeq_def)
qed

lemma append_held:
  assumes "buffer_ok p C b" "buffer_Append p data b = (b', Inr x)"
  shows "buffer_ok p C b' \<and> x = bf_seq b + 1 \<and> held C b' = (held C b)(x \<mapsto> data)"
proof -
  obtain db' r where set: "pb_set p (entryKey (bf_seq b + 1)) data (bf_db b) = (db', r)"
    by fastforce
  then have b': "b' = b\<lparr>bf_seq := x, bf_db := db'\<rparr>" "x = bf_seq b + 1" "r = None"
    using assms(2) by (cases r; simp add: buffer_Append_def Let_def)+
  have "case pb_set p (entryKey x) data (bf_db b) of
      (db', None) \<Rightarrow> C db' = (C (bf_db b))(entryKey x \<mapsto> data) | (db', Some _) \<Rightarrow> C db' = C (bf_db b)"
    using assms(1) by (simp only: buffer_ok_def pebble_ok_def)
  then have "C db' = (C (bf_db b))(entryKey x \<mapsto> data)"
    using set b'(2, 3) by simp
  moreover from this have "held C b' = (held C b)(x \<mapsto> data)"
    by (simp add: b'(1) held_def fun_eq_iff)
  ultimately have "held C b' = (held C b)(x \<mapsto> data)" "dom (C (bf_db b')) \<subseteq> range entryKey"
    using assms(1) by (simp_all add: b'(1) buffer_ok_def)
  then show ?thesis
    using assms(1) b'(2) by (simp add: buffer_ok_def)
qed

text \<open>
  C37. An entry appended to a buffer that was drained and opened again is lost: once the chain has a sealed
  buffer sequence, the entry's number is at or below the high water, and the next tick deletes it from the
  buffer without sealing anything.
\<close>

theorem reopened_buffer_loses_entry:
  assumes "buffer_ok p C b" "held C b = Map.empty" "Open p (bf_db b) = Inr b0"
    and "buffer_Append p data b0 = (b1, Inr x)"
    and "sealHighWater io n s = Inr hw" "0 < hw" "hw < - 1"
    and "\<forall>t b. snd (DeleteThrough p t b) = None"
    and "Tick (Drain p) (DeleteThrough p) (sealFn ios reg unmarshal n) (sealHighWater io n) batch b1 s = (b2, s', Inr m)"
  shows "held C b1 x = Some data \<and> held C b2 = Map.empty \<and> s' = s"
proof -
  note b0 = reopened_seq [OF assms(1, 2, 3)]
  then have "buffer_ok p C b0" "held C b0 = Map.empty"
    using assms(1, 2) by (simp_all add: buffer_ok_def held_def)
  then have b1: "buffer_ok p C b1" "x = 1" "held C b1 = [x \<mapsto> data]"
    using append_held [OF _ assms(4)] b0 by simp_all
  then have small: "\<forall>y. held C b1 y \<noteq> None \<longrightarrow> y < - 1"
    by (simp add: seq_one_small)
  obtain ss k s1 t where sp: "pending_after (held C b1) hw ss" "k \<le> length (take batch ss)"
    "sealed_all (sealFn ios reg unmarshal n) (map (entry_at (held C b1)) (take k ss)) s s1"
    "if k = length (take batch ss) then s' = s1
     else \<exists>err. sealFn ios reg unmarshal n (ss ! k) (the (held C b1 (ss ! k))) s1 = (s', Some err)"
    "t = (if k = 0 then hw else ss ! (k - 1))"
    "t = 0 \<or> held C b2 = held C b1 |` {y. t < y}"
    using bufd.tick_spec [OF b1(1) assms(5, 7) small assms(9)] assms(8) by blast
  have le: "1 \<le> hw"
    using assms(6) by (simp add: word_le_nat_alt word_less_nat_alt)
  then have "{y. hw < y \<and> held C b1 y \<noteq> None} = {}"
    using b1(2, 3) by (auto simp flip: not_le)
  then have "ss = []"
    using sp(1) unfolding pending_after_def by (simp only: set_empty)
  then have "s' = s" "t = hw"
    using sp(2, 3, 4, 5) by simp_all
  moreover have "held C b2 = Map.empty"
    using sp(6) \<open>t = hw\<close> assms(6) le b1(2, 3) by (auto simp: restrict_map_def fun_eq_iff)
  ultimately show ?thesis
    using b1(3) by simp
qed

definition demo_sealed_state :: seal_state where
  "demo_sealed_state = \<lparr>ss_chain = NewHashChain ''aa'',
     ss_db = empty_db\<lparr>ad_access_seq := 1, ad_access := [access_row_of demo_rec 1 0 (Some ''aa'') (Some 1) ChainNameAccessLogs]\<rparr>,
     ss_events = None\<rparr>"

lemma demo_sealed_high_water:
  "sealHighWater demo_io ChainNameAccessLogs demo_sealed_state = Inr 1"
  by (simp add: sealHighWater_def GetMaxAccessLogBufferSeq_def demo_io_def demo_sealed_state_def empty_db_def
      access_row_of_def map_filter_simps)

theorem reopened_buffer_loses_entry_witness:
  "\<exists>b2. Open demo_pebble [] = Inr \<lparr>bf_db = [], bf_seq = 0\<rparr> \<and>
     buffer_Append demo_pebble [7] \<lparr>bf_db = [], bf_seq = 0\<rparr> = (demo_buffer, Inr 1) \<and>
     Tick (Drain demo_pebble) (DeleteThrough demo_pebble)
       (sealFn (\<lambda>_. demo_io) empty_registries demo_unmarshal ChainNameAccessLogs)
       (sealHighWater demo_io ChainNameAccessLogs) 500 demo_buffer demo_sealed_state = (b2, demo_sealed_state, Inr 0) \<and>
     held map_of demo_buffer 1 = Some [7] \<and> held map_of b2 = Map.empty"
proof -
  let ?empty = "\<lparr>bf_db = [], bf_seq = 0\<rparr> :: (bytes \<times> bytes) list Buffer"
  have ok: "buffer_ok demo_pebble map_of ?empty" "held map_of ?empty = Map.empty"
    by (simp_all add: buffer_ok_def pebble_ok_demo held_def)
  have op: "Open demo_pebble (bf_db ?empty) = Inr ?empty"
    by (simp add: Open_def recoverSeq_def demo_pebble_def)
  have ap: "buffer_Append demo_pebble [7] ?empty = (demo_buffer, Inr 1)"
    by (simp add: buffer_Append_def demo_pebble_def demo_buffer_def)
  have del: "\<forall>t b. snd (DeleteThrough demo_pebble t b) = None"
    by (simp add: DeleteThrough_def demo_pebble_def)
  have "Drain demo_pebble 1 500 demo_buffer = Inr []"
    by (simp add: Drain_def demo_pebble_def demo_buffer_def word_le_nat_alt)
  then obtain b2 where t: "Tick (Drain demo_pebble) (DeleteThrough demo_pebble)
       (sealFn (\<lambda>_. demo_io) empty_registries demo_unmarshal ChainNameAccessLogs)
       (sealHighWater demo_io ChainNameAccessLogs) 500 demo_buffer demo_sealed_state = (b2, demo_sealed_state, Inr 0)"
    by (simp add: Tick_def demo_sealed_high_water)
  show ?thesis
    using reopened_buffer_loses_entry [OF ok op ap demo_sealed_high_water _ seq_one_small(1) del t] op ap t
    by (intro exI [of _ b2]) simp
qed

end
