(* ===== verification/Spec2Isabelle.thy ===== *)
theory Spec2Isabelle
  imports Cache_Protocol Response_Properties Audit_Retention Audit_Sealer
begin

text \<open>
  A verification development for the privacy proxy: a JSON-RPC proxy in front of an Ethereum node that
  lets the members of several organizations share one chain without seeing each other's contracts.

  \<^bold>\<open>Parts of the program and how they interact.\<close> A request (\<^verbatim>\<open>internal/rbac/models.go\<close>,
  \<^verbatim>\<open>AccessCheckRequest\<close>) names a method, parameters, a target and perhaps a user. The access
  controller (\<^verbatim>\<open>internal/rbac/access.go\<close>, \<^verbatim>\<open>CheckAccess\<close>) applies global floors, finds the
  caller and the organization, obtains the caller's effective permissions from the in-process cache, the
  shared SQL cache or the resolver (\<^verbatim>\<open>resolver.go\<close>), and decides. What comes back from the node is
  filtered: logs by the event rules of the caller's grants and by the shared decision of
  \<^verbatim>\<open>log_decision.go\<close>, transactions by \<^verbatim>\<open>tx_decision.go\<close>. Every request leaves a row in
  \<^verbatim>\<open>access_logs\<close> and every administrative action one in \<^verbatim>\<open>rbac_audit_log\<close>; the rows of a chain are
  linked by SHA-256 (\<^verbatim>\<open>internal/audit\<close>), written directly or through a durable buffer and its sealer,
  pruned by the retention manager, and re-checked by the verifier against signed checkpoints.

  \<^bold>\<open>Theories.\<close>
  \<^item> \<open>Go_Prelude\<close>: strings as byte strings with Go's case mapping and trimming, hexadecimal and decimal
    conversions, JSON values, results \<open>string + 'a\<close> for \<^verbatim>\<open>(T, error)\<close>; the lemmas every
    component uses.
  \<^item> \<open>Method_Catalog\<close> (\<^verbatim>\<open>methods.go\<close>, \<^verbatim>\<open>method_claim.go\<close>): method tables, the global
    block list, operator registries and aliases. Blocked methods are never forwarded, aliases never
    shadow a built-in method, and a \<^verbatim>\<open>*\<close> entry grants exactly the expanded list.
  \<^item> \<open>Rbac_Models\<close> (\<^verbatim>\<open>models.go\<close>, \<^verbatim>\<open>evm/precompile\<close>): rows, claims, event rules with their
    JSON form (round trip), accessors of effective permissions.
  \<^item> \<open>Call_Shape\<close> (\<^verbatim>\<open>access.go\<close>, \<^verbatim>\<open>state_overrides.go\<close>, \<^verbatim>\<open>storage_slots.go\<close>): what a
    call does, read off its parameters: deployment or target, selector, calldata, block, overrides.
  \<^item> \<open>Rbac_Store\<close> (\<^verbatim>\<open>store.go\<close>): the persistence interface, a record of functions.
  \<^item> \<open>Resolver\<close> (\<^verbatim>\<open>resolver.go\<close>, \<^verbatim>\<open>crypto/encrypt.go\<close>): computing and merging permissions; the
    result is the union of what the groups grant and expires with the memberships.
  \<^item> \<open>Permission_Cache\<close> (\<^verbatim>\<open>cache.go\<close>, \<^verbatim>\<open>db/rbac_store_cache.go\<close>, \<^verbatim>\<open>redis/cache.go\<close>):
    the three caches, with eviction, expiry and the JSON encoding of the stored columns.
  \<^item> \<open>Cache_Protocol\<close>: concurrent computations, mutations and invalidations as an inductive step
    relation over a shared table with its generation counter; the invariant that rows are current.
  \<^item> \<open>Org_Context\<close> (\<^verbatim>\<open>org_context.go\<close>, \<^verbatim>\<open>viewscope\<close>), \<open>Upgrade_Validator\<close>,
    \<open>Param_Validator\<close> (files of the same names): what \<^verbatim>\<open>CheckAccess\<close> calls.
  \<^item> \<open>Access_Control\<close> (\<^verbatim>\<open>access.go\<close>, \<^verbatim>\<open>storage_read.go\<close>): \<^verbatim>\<open>CheckAccess\<close>, phase by phase;
    the locale \<open>deny_only_gate\<close> states what an allowed request says about a phase that can only refuse.
  \<^item> \<open>Access_Properties\<close>: organization isolation, the grounds of every allowed call, the floors for
    all and for anonymous callers, claims for deployments, storage and upgrades, function rules, log
    queries, attribution of results.
  \<^item> \<open>Abi_Library\<close>: the ABI decoder of go-ethereum, as a record of parameters. \<open>Abi_Registry\<close>
    (\<^verbatim>\<open>abi_registry.go\<close>): which ABI applies to a contract.
  \<^item> \<open>Log_Decision\<close> (\<^verbatim>\<open>read_profile.go\<close>, \<^verbatim>\<open>log_decision.go\<close>, \<^verbatim>\<open>tx_decision.go\<close>) and
    \<open>Event_Filter\<close> (\<^verbatim>\<open>event_filter.go\<close>, \<^verbatim>\<open>event_param_rules.go\<close>,
    \<^verbatim>\<open>indexed_self.go\<close>, \<^verbatim>\<open>event_signatures.go\<close>): which logs and transactions a viewer sees.
    \<open>Event_Properties\<close>: the grounds of every admitted log under both read profiles, the strict profile as
    a restriction of the standard one, and when the filter returns.
  \<^item> \<open>Visible_To\<close> (\<^verbatim>\<open>visibleto_unlock.go\<close>, \<^verbatim>\<open>server/event_log_filter.go\<close>): which contracts a visibleTo
    listing unlocks, batched and single, and the request-scoped ABI provider; the locale
    \<open>request_provider\<close> states that its caches are transparent.
  \<^item> \<open>Log_Redaction\<close> (\<^verbatim>\<open>explorer/redactor.go\<close>, \<^verbatim>\<open>explorer/visibility.go\<close>): finding and zeroing the
    addresses embedded in a log; what a redacted log shows and what it does not depend on.
  \<^item> \<open>Response_Filter\<close> (\<^verbatim>\<open>server/response_filter.go\<close>, \<^verbatim>\<open>event_log_filter.go\<close>,
    \<^verbatim>\<open>rpc_log_field_redaction.go\<close>) and \<open>Filter_Inputs\<close> (\<^verbatim>\<open>processor_event_rules.go\<close>,
    \<^verbatim>\<open>viewer_org_scope.go\<close>): the filters of transactions, blocks, receipts and logs over JSON values, and
    the permissions, exemptions and visibleTo context they run with. \<open>Response_Properties\<close>: what a response
    can contain, the grounds on which transactions and receipts are released, the disclosure rule of
    rendered logs, and the organizations the inputs come from.
  \<^item> \<open>Go_Digest\<close>: SHA-256, HMAC and the time formats of the Go library. \<open>Audit_Chain\<close>
    (\<^verbatim>\<open>audit/hashchain.go\<close>, \<^verbatim>\<open>checkpoint.go\<close>, \<^verbatim>\<open>reanchor.go\<close>): the hash chain, canonical row contents,
    signed checkpoints; the locales \<open>audit_chain_api\<close> and \<open>signer_api\<close> state what writers and verifier rely
    on.
  \<^item> \<open>Audit_Store\<close> (\<^verbatim>\<open>db/db.go\<close>, \<^verbatim>\<open>db/audit_chain.go\<close>, \<^verbatim>\<open>db/rbac_store_audit.go\<close>, \<^verbatim>\<open>db/tx.go\<close>): the
    audit tables as lists of rows; writers, seeds, anchors, checkpoints, listing and pruning, each statement
    with its failure. \<open>Audit_Verifier\<close> (\<^verbatim>\<open>audit/verifier.go\<close>, \<^verbatim>\<open>reanchor.go\<close>, \<^verbatim>\<open>checkpoint_worker.go\<close>,
    \<^verbatim>\<open>integrity_worker.go\<close>): verification of both tables, the truncation guard, re-anchoring.
  \<^item> \<open>Audit_Properties\<close> and \<open>Rbac_Audit\<close>: what the verifier accepts; that no order of the program's own steps
    leads to a rejected table; that changed contents need a hash collision; truncated tails are found, and
    where a rewritten or pruned table is judged wrongly.
  \<^item> \<open>Audit_Retention\<close> (\<^verbatim>\<open>audit/retention.go\<close>): one retention pass over all tables; the row-cap loop ends
    and reaches its cap. \<open>Audit_Sealer\<close> (\<^verbatim>\<open>audit/buffer/buffer.go\<close>, \<^verbatim>\<open>audit/sealer/sealer.go\<close>,
    \<^verbatim>\<open>server/server.go\<close>): the durable buffer and one tick of its sealer; the locale \<open>drainer\<close> is the
    interface between the two. A tick drops no entry above the high water, and a buffer that is drained and
    opened again loses the next one.

  \<^bold>\<open>Conventions.\<close> Go maps are association lists, sets are lists of members, pointers are options, a slice
  whose nil and empty values differ is a list option. The clock, fresh identifiers, the store, the
  operator registries, the ABI decoder and the viewer scope are fields of the record \<open>env\<close>. A panic of the
  source is an error value. Iteration over a Go map is iteration over its list, in the order given.
  Recursion is structural or has a termination proof; no definition needs fuel. The row-cap loop of the
  retention manager runs at most the 50 iterations the code allows. A database table of the audit log is a
  list of rows; which statements fail, the clock and the context are the record \<open>audit_io\<close>. The key-value
  store under the audit buffer is a parameter with the laws \<open>pebble_ok\<close>.

  \<^bold>\<open>Not modelled.\<close> SQL statements other than those on the audit tables, Redis commands, HTTP handlers, the
  background goroutines that call a pass or a tick on a timer, cryptographic libraries, generated code
  and the front end: their results enter as parameters where a modelled part uses them. Log messages and
  metrics have no effect on a decision and are left out.
\<close>

end
